theory Spec2Isabelle
  imports Complex_Main "HOL-Library.List_Lexorder" "HOL-Library.Char_ord" "HOL-Library.AList"
begin

section \<open>Python helpers\<close>

definition startswith :: "string \<Rightarrow> string \<Rightarrow> bool" where
  "startswith s p = (take (length p) s = p)"

definition endswith :: "string \<Rightarrow> string \<Rightarrow> bool" where
  "endswith s p = (length p \<le> length s \<and> drop (length s - length p) s = p)"

fun contains :: "string \<Rightarrow> string \<Rightarrow> bool" where
  "contains [] p = (p = [])"
| "contains (c # cs) p = (startswith (c # cs) p \<or> contains cs p)"

text \<open>\<open>Path(name).stem\<close>: the name without its last suffix; a leading or trailing dot
  is no suffix.\<close>

definition rfind_dot :: "string \<Rightarrow> nat option" where
  "rfind_dot name =
     (case filter (\<lambda>i. name ! i = CHR ''.'') (rev [0..<length name]) of
        [] \<Rightarrow> None | i # _ \<Rightarrow> Some i)"

definition path_stem :: "string \<Rightarrow> string" where
  "path_stem name =
     (case rfind_dot name of
        None \<Rightarrow> name
      | Some i \<Rightarrow> if 0 < i \<and> i < length name - 1 then take i name else name)"

definition digit_char :: "nat \<Rightarrow> char" where
  "digit_char d = ''0123456789'' ! d"

fun string_of_nat :: "nat \<Rightarrow> string" where
  "string_of_nat n =
     (if n < 10 then [digit_char n] else string_of_nat (n div 10) @ [digit_char (n mod 10)])"

declare string_of_nat.simps [simp del]

definition py_round :: "real \<Rightarrow> int" where
  "py_round x =
     (let f = \<lfloor>x\<rfloor>; d = x - of_int f in
      if d < 1 / 2 then f else if d > 1 / 2 then f + 1 else if even f then f else f + 1)"

definition py_round_to :: "nat \<Rightarrow> real \<Rightarrow> real" where
  "py_round_to n x = of_int (py_round (x * 10 ^ n)) / 10 ^ n"

section \<open>Transcripts in done/\<close>

text \<open>
  A transcript is the JSON object the pipeline worker writes to \<open>done/<stem>.json\<close>.
  The Python code reads it with \<open>dict.get\<close>, so every key may be missing: a missing
  key (or a JSON null) is \<open>None\<close> here. Numbers are modelled as reals. Keys that no
  modelled function reads (language, num_speakers, the word lists) are left out.
\<close>

record segment =
  seg_start :: "real option"
  seg_end :: "real option"
  seg_text :: "string option"
  seg_speaker :: "string option"
  seg_speaker_name :: "string option"

record assemblyai =
  aai_status :: "string option"
  aai_audio_duration :: "real option"
  aai_confidence :: "real option"
  aai_cost_usd :: "real option"

record speaker_identification =
  si_identified :: "(string \<times> string) list"
  si_unidentified :: "string list"

record transcript =
  t_file :: "string option"
  t_timestamp :: "string option"
  t_pipeline_status :: "string option"
  t_segments :: "segment list"
  t_diarization :: bool
  t_model :: "string option"
  t_assemblyai :: "assemblyai option"
  t_speaker_identification :: "speaker_identification option"
  t_speaker_id_error :: "string option"
  t_speaker_id_retry_count :: "int option"
  t_speaker_id_skipped :: bool
  t_duration :: "real option"

text \<open>\<open>data.get(key, default)\<close> for a string-valued key.\<close>

definition get_str :: "string option \<Rightarrow> string \<Rightarrow> string" where
  "get_str v d = (case v of None \<Rightarrow> d | Some s \<Rightarrow> s)"

text \<open>\<open>data.get("pipeline_status", "")\<close>\<close>

definition pipeline_status_of :: "transcript \<Rightarrow> string" where
  "pipeline_status_of d = get_str (t_pipeline_status d) ''''"

text \<open>\<open>data.get("assemblyai", {}).get("status")\<close>\<close>

definition aai_status_of :: "transcript \<Rightarrow> string option" where
  "aai_status_of d = (case t_assemblyai d of None \<Rightarrow> None | Some a \<Rightarrow> aai_status a)"

text \<open>\<open>data.get("speaker_identification", {}).get("unidentified", [])\<close>\<close>

definition unidentified_of :: "transcript \<Rightarrow> string list" where
  "unidentified_of d =
     (case t_speaker_identification d of None \<Rightarrow> [] | Some si \<Rightarrow> si_unidentified si)"

definition identified_of :: "transcript \<Rightarrow> (string \<times> string) list" where
  "identified_of d =
     (case t_speaker_identification d of None \<Rightarrow> [] | Some si \<Rightarrow> si_identified si)"

section \<open>The orchestrator: deriving a job status\<close>

text \<open>
  \<open>determine_status\<close> of pipeline-orchestrator.py, branch for branch and in the
  order the source tests them.
\<close>

definition determine_status :: "transcript \<Rightarrow> string" where
  "determine_status d =
     (let pipeline_status = pipeline_status_of d in
      if pipeline_status = ''skipped_too_short'' then ''skipped''
      else if pipeline_status = ''transcribed'' then ''speaker_id_pending''
      else if pipeline_status = ''speaker_id_failed'' then ''speaker_id_failed''
      else if aai_status_of d = Some ''error'' then ''failed''
      else if pipeline_status = ''complete'' \<or> pipeline_status = ''complete_no_speaker_id''
        then (if unidentified_of d \<noteq> [] then ''pending_curator'' else ''complete'')
      else if pipeline_status = '''' \<and> t_segments d \<noteq> [] then ''complete''
      else ''processing'')"

text \<open>An empty transcript object, the starting point of the concrete inputs below.\<close>

definition empty_transcript :: transcript where
  "empty_transcript =
     \<lparr>t_file = None, t_timestamp = None, t_pipeline_status = None, t_segments = [],
      t_diarization = False, t_model = None, t_assemblyai = None,
      t_speaker_identification = None, t_speaker_id_error = None,
      t_speaker_id_retry_count = None, t_speaker_id_skipped = False, t_duration = None\<rparr>"

definition seg :: "string \<Rightarrow> real \<Rightarrow> real \<Rightarrow> segment" where
  "seg txt s e =
     \<lparr>seg_start = Some s, seg_end = Some e, seg_text = Some txt,
      seg_speaker = Some ''SPEAKER_00'', seg_speaker_name = None\<rparr>"

section \<open>Properties of the derived status\<close>

text \<open>
  C3 (as stated, refuted). The claim says that an empty or legacy \<open>pipeline_status\<close>
  yields \<open>processing\<close>. A legacy transcript that has segments and no
  \<open>pipeline_status\<close> is given the status \<open>complete\<close> by the code.
\<close>

theorem determine_status_legacy_with_segments_counterexample:
  "determine_status (empty_transcript\<lparr>t_segments := [seg ''hello'' 0 12]\<rparr>) = ''complete'' \<and>
   pipeline_status_of (empty_transcript\<lparr>t_segments := [seg ''hello'' 0 12]\<rparr>) = '''' \<and>
   determine_status (empty_transcript\<lparr>t_segments := [seg ''hello'' 0 12]\<rparr>) \<noteq> ''processing''"
  by (simp add: determine_status_def pipeline_status_of_def get_str_def aai_status_of_def
      unidentified_of_def empty_transcript_def)

text \<open>
  C3 (amended). The derived status, case by case. A \<open>pipeline_status\<close> of
  \<open>skipped_too_short\<close>, \<open>transcribed\<close> or \<open>speaker_id_failed\<close> yields \<open>skipped\<close>,
  \<open>speaker_id_pending\<close> or \<open>speaker_id_failed\<close>, whatever else the transcript holds.
  For every other \<open>pipeline_status\<close>, a transcript whose \<open>assemblyai.status\<close> is
  \<open>error\<close> yields \<open>failed\<close>. Otherwise (no such error): an empty \<open>pipeline_status\<close>
  yields \<open>processing\<close> when the transcript has no segments and \<open>complete\<close> when it has
  some; a \<open>pipeline_status\<close> that is none of the five known values and not empty
  yields \<open>processing\<close>; \<open>complete\<close> or \<open>complete_no_speaker_id\<close> yields
  \<open>pending_curator\<close> when the unidentified list is non-empty and \<open>complete\<close> when it
  is empty.
\<close>

theorem determine_status_table:
  "(pipeline_status_of d = ''skipped_too_short'' \<longrightarrow> determine_status d = ''skipped'') \<and>
   (pipeline_status_of d = ''transcribed'' \<longrightarrow> determine_status d = ''speaker_id_pending'') \<and>
   (pipeline_status_of d = ''speaker_id_failed'' \<longrightarrow> determine_status d = ''speaker_id_failed'') \<and>
   (pipeline_status_of d \<notin> {''skipped_too_short'', ''transcribed'', ''speaker_id_failed''} \<and>
        aai_status_of d = Some ''error''
      \<longrightarrow> determine_status d = ''failed'') \<and>
   (aai_status_of d \<noteq> Some ''error'' \<longrightarrow>
      (pipeline_status_of d = '''' \<and> t_segments d = []
         \<longrightarrow> determine_status d = ''processing'') \<and>
      (pipeline_status_of d = '''' \<and> t_segments d \<noteq> []
         \<longrightarrow> determine_status d = ''complete'') \<and>
      (pipeline_status_of d \<notin> {'''', ''skipped_too_short'', ''transcribed'',
           ''speaker_id_failed'', ''complete'', ''complete_no_speaker_id''}
         \<longrightarrow> determine_status d = ''processing'') \<and>
      (pipeline_status_of d \<in> {''complete'', ''complete_no_speaker_id''} \<and>
           unidentified_of d \<noteq> []
         \<longrightarrow> determine_status d = ''pending_curator'') \<and>
      (pipeline_status_of d \<in> {''complete'', ''complete_no_speaker_id''} \<and>
           unidentified_of d = []
         \<longrightarrow> determine_status d = ''complete''))"
  by (auto simp: determine_status_def Let_def)

theorem determine_status_table_witness:
  "aai_status_of (empty_transcript\<lparr>t_pipeline_status := Some ''complete''\<rparr>) \<noteq> Some ''error'' \<and>
   pipeline_status_of (empty_transcript\<lparr>t_pipeline_status := Some ''complete''\<rparr>)
     \<in> {''complete'', ''complete_no_speaker_id''} \<and>
   unidentified_of (empty_transcript\<lparr>t_pipeline_status := Some ''complete''\<rparr>) = [] \<and>
   determine_status (empty_transcript\<lparr>t_pipeline_status := Some ''complete''\<rparr>) = ''complete'' \<and>
   aai_status_of (empty_transcript\<lparr>t_pipeline_status := Some ''complete'',
       t_assemblyai := Some \<lparr>aai_status = Some ''error'', aai_audio_duration = None,
                              aai_confidence = None, aai_cost_usd = None\<rparr>\<rparr>) = Some ''error'' \<and>
   determine_status (empty_transcript\<lparr>t_pipeline_status := Some ''complete'',
       t_assemblyai := Some \<lparr>aai_status = Some ''error'', aai_audio_duration = None,
                              aai_confidence = None, aai_cost_usd = None\<rparr>\<rparr>) = ''failed'' \<and>
   pipeline_status_of (empty_transcript\<lparr>t_pipeline_status := Some ''transcribed'',
       t_assemblyai := Some \<lparr>aai_status = Some ''error'', aai_audio_duration = None,
                              aai_confidence = None, aai_cost_usd = None\<rparr>\<rparr>) = ''transcribed'' \<and>
   determine_status (empty_transcript\<lparr>t_pipeline_status := Some ''transcribed'',
       t_assemblyai := Some \<lparr>aai_status = Some ''error'', aai_audio_duration = None,
                              aai_confidence = None, aai_cost_usd = None\<rparr>\<rparr>) = ''speaker_id_pending''"
proof -
  let ?d = "empty_transcript\<lparr>t_pipeline_status := Some ''complete''\<rparr>"
  let ?err = "Some \<lparr>aai_status = Some ''error'', aai_audio_duration = None,
                    aai_confidence = None, aai_cost_usd = None\<rparr>"
  let ?e = "empty_transcript\<lparr>t_pipeline_status := Some ''complete'', t_assemblyai := ?err\<rparr>"
  let ?t = "empty_transcript\<lparr>t_pipeline_status := Some ''transcribed'', t_assemblyai := ?err\<rparr>"
  have h: "aai_status_of ?d \<noteq> Some ''error''"
    by (simp add: aai_status_of_def empty_transcript_def)
  have p: "pipeline_status_of ?d \<in> {''complete'', ''complete_no_speaker_id''}"
    by (simp add: pipeline_status_of_def get_str_def empty_transcript_def)
  have u: "unidentified_of ?d = []"
    by (simp add: unidentified_of_def empty_transcript_def)
  have he: "aai_status_of ?e = Some ''error''"
    by (simp add: aai_status_of_def empty_transcript_def)
  have pe: "pipeline_status_of ?e \<notin> {''skipped_too_short'', ''transcribed'', ''speaker_id_failed''}"
    by (simp add: pipeline_status_of_def get_str_def empty_transcript_def)
  have pt: "pipeline_status_of ?t = ''transcribed''"
    by (simp add: pipeline_status_of_def get_str_def empty_transcript_def)
  from determine_status_table [of ?d] h p u have 1: "determine_status ?d = ''complete''"
    by blast
  from determine_status_table [of ?e] he pe have 2: "determine_status ?e = ''failed''"
    by blast
  from determine_status_table [of ?t] pt have 3: "determine_status ?t = ''speaker_id_pending''"
    by blast
  from h p u he pt 1 2 3 show ?thesis by blast
qed

section \<open>The transcription client: requests with retry\<close>

text \<open>
  \<open>_api_request\<close> of assemblyai_transcriber.py. The service is a world that answers
  the k-th HTTP request of the process with \<open>reply k\<close>; the world records every
  request sent and every \<open>time.sleep\<close>, and its clock advances with the sleeps only
  (a request takes no time in the model).
\<close>

datatype exn = HTTP nat | RequestFailed | AttributeError | RuntimeError string | OSError

record utterance =
  u_start :: "real option"
  u_end :: "real option"
  u_text :: "string option"
  u_speaker :: "string option"

record response =
  r_upload_url :: "string option"
  r_id :: "string option"
  r_status :: "string option"
  r_error :: "string option"
  r_audio_duration :: "real option"
  r_confidence :: "real option"
  r_utterances :: "utterance list"

text \<open>
  What one \<open>urlopen\<close> plus \<open>json.loads\<close> does: a decoded response, an
  \<open>urllib.error.HTTPError\<close> with its code, or any other exception (a network
  error, a timeout, a body that does not decode), which the source catches with
  \<open>except Exception\<close>.
\<close>

datatype outcome = Replied response | HTTPError nat | OtherException

record world =
  reply :: "nat \<Rightarrow> outcome"
  sent :: "(string \<times> string) list"
  slept :: "nat list"
  clock :: nat

definition MAX_RETRIES :: nat where "MAX_RETRIES = 3"
definition RETRY_BASE_DELAY :: nat where "RETRY_BASE_DELAY = 5"
definition POLL_INTERVAL :: nat where "POLL_INTERVAL = 5"
definition POLL_TIMEOUT :: nat where "POLL_TIMEOUT = 1800"

definition sleep :: "nat \<Rightarrow> world \<Rightarrow> world" where
  "sleep d w = w\<lparr>slept := slept w @ [d], clock := clock w + d\<rparr>"

definition urlopen :: "string \<Rightarrow> string \<Rightarrow> world \<Rightarrow> outcome \<times> world" where
  "urlopen method path w = (reply w (length (sent w)), w\<lparr>sent := sent w @ [(method, path)]\<rparr>)"

text \<open>
  The loop \<open>for attempt in range(MAX_RETRIES)\<close>. When the loop runs out (the last
  attempt was an HTTP 429 or 5xx, which sleeps and continues) the Python function
  ends without a \<open>return\<close>: its value is \<open>None\<close>.
\<close>

fun api_attempts :: "string \<Rightarrow> string \<Rightarrow> nat list \<Rightarrow> world \<Rightarrow> (exn + response option) \<times> world" where
  "api_attempts method path [] w = (Inr None, w)"
| "api_attempts method path (attempt # rest) w =
     (case urlopen method path w of
        (Replied r, w1) \<Rightarrow> (Inr (Some r), w1)
      | (HTTPError code, w1) \<Rightarrow>
          if code = 429 \<or> code \<ge> 500
          then api_attempts method path rest (sleep (RETRY_BASE_DELAY * 2 ^ attempt) w1)
          else (Inl (HTTP code), w1)
      | (OtherException, w1) \<Rightarrow>
          if attempt < MAX_RETRIES - 1
          then api_attempts method path rest (sleep (RETRY_BASE_DELAY * 2 ^ attempt) w1)
          else (Inl RequestFailed, w1))"

definition api_request :: "string \<Rightarrow> string \<Rightarrow> world \<Rightarrow> (exn + response option) \<times> world" where
  "api_request method path w = api_attempts method path [0..<MAX_RETRIES] w"

text \<open>
  The three operations built on it. Each reads a key of the result with
  \<open>result.get\<close>, which raises \<open>AttributeError\<close> when the result is \<open>None\<close>.
  \<open>_upload_audio\<close> first reads the file, which raises when it cannot be opened.
\<close>

definition upload_audio :: "bool \<Rightarrow> world \<Rightarrow> (exn + string option) \<times> world" where
  "upload_audio wav_readable w =
     (if \<not> wav_readable then (Inl OSError, w)
      else case api_request ''POST'' ''/upload'' w of
        (Inl e, w1) \<Rightarrow> (Inl e, w1)
      | (Inr None, w1) \<Rightarrow> (Inl AttributeError, w1)
      | (Inr (Some r), w1) \<Rightarrow> (Inr (r_upload_url r), w1))"

definition submit_transcription :: "string option \<Rightarrow> world \<Rightarrow> (exn + string option) \<times> world" where
  "submit_transcription upload_url w =
     (case api_request ''POST'' ''/transcript'' w of
        (Inl e, w1) \<Rightarrow> (Inl e, w1)
      | (Inr None, w1) \<Rightarrow> (Inl AttributeError, w1)
      | (Inr (Some r), w1) \<Rightarrow> (Inr (r_id r), w1))"

text \<open>Vocabulary for the statements about one call of \<open>api_request\<close>.\<close>

definition retryable :: "outcome \<Rightarrow> bool" where
  "retryable oc =
     (case oc of Replied r \<Rightarrow> False | HTTPError code \<Rightarrow> code = 429 \<or> code \<ge> 500
      | OtherException \<Rightarrow> True)"

definition attempts_made :: "world \<Rightarrow> world \<Rightarrow> nat" where
  "attempts_made w w' = length (sent w') - length (sent w)"

definition delays :: "world \<Rightarrow> world \<Rightarrow> nat list" where
  "delays w w' = drop (length (slept w)) (slept w')"

definition attempt_outcome :: "world \<Rightarrow> nat \<Rightarrow> outcome" where
  "attempt_outcome w i = reply w (length (sent w) + i)"

definition final :: "outcome \<Rightarrow> exn + response option" where
  "final oc =
     (case oc of Replied r \<Rightarrow> Inr (Some r) | HTTPError code \<Rightarrow> Inl (HTTP code)
      | OtherException \<Rightarrow> Inl RequestFailed)"

definition after :: "world \<Rightarrow> string \<times> string \<Rightarrow> nat \<Rightarrow> nat list \<Rightarrow> world" where
  "after w rq k ds =
     w\<lparr>sent := sent w @ replicate k rq, slept := slept w @ ds, clock := clock w + sum_list ds\<rparr>"

definition busy_service :: world where
  "busy_service = \<lparr>reply = (\<lambda>k. HTTPError 503), sent = [], slept = [], clock = 0\<rparr>"

subsection \<open>The three attempts, unrolled\<close>

lemma upt3: "[0..<3] = [0, Suc 0, 2]"
  by (simp add: upt_rec numeral_3_eq_3 numeral_2_eq_2)

lemma api_attempts_Cons:
  "api_attempts m p (a # rest) w =
     (let oc = reply w (length (sent w)); w1 = w\<lparr>sent := sent w @ [(m, p)]\<rparr> in
      if retryable oc \<and> (oc = OtherException \<longrightarrow> a < MAX_RETRIES - 1)
      then api_attempts m p rest (sleep (RETRY_BASE_DELAY * 2 ^ a) w1)
      else (final oc, w1))"
  by (simp add: urlopen_def retryable_def final_def Let_def split: outcome.splits)

lemma retryable_Other [simp]: "retryable OtherException"
  by (simp add: retryable_def)

lemma api_request_unrolled:
  "api_request m p w =
     (if \<not> retryable (attempt_outcome w 0) then (final (attempt_outcome w 0), after w (m, p) 1 [])
      else if \<not> retryable (attempt_outcome w 1)
        then (final (attempt_outcome w 1), after w (m, p) 2 [5])
      else if \<not> retryable (attempt_outcome w 2)
        then (final (attempt_outcome w 2), after w (m, p) 3 [5, 10])
      else if attempt_outcome w 2 = OtherException
        then (Inl RequestFailed, after w (m, p) 3 [5, 10])
      else (Inr None, after w (m, p) 3 [5, 10, 20]))"
  unfolding api_request_def MAX_RETRIES_def upt3
  apply (simp only: api_attempts_Cons api_attempts.simps(1) Let_def)
  apply (simp add: attempt_outcome_def sleep_def after_def MAX_RETRIES_def RETRY_BASE_DELAY_def
      numeral_3_eq_3 numeral_2_eq_2 final_def)
  done

lemma attempts_made_after [simp]: "attempts_made w (after w rq k ds) = k"
  by (simp add: attempts_made_def after_def)

lemma delays_after [simp]: "delays w (after w rq k ds) = ds"
  by (simp add: delays_def after_def)

lemma clock_after [simp]: "clock (after w rq k ds) = clock w + sum_list ds"
  by (simp add: after_def)

lemma final_HTTP [simp]: "final (HTTPError c) = Inl (HTTP c)"
  by (simp add: final_def)

lemma final_Replied [simp]: "final (Replied r) = Inr (Some r)"
  by (simp add: final_def)

lemma final_eq_Some: "(final oc = Inr (Some r)) = (oc = Replied r)"
  by (simp add: final_def split: outcome.splits)

lemma final_not_None [simp]: "final oc \<noteq> Inr None"
  by (simp add: final_def split: outcome.splits)

lemma retryable_not_Replied: "retryable oc \<Longrightarrow> oc \<noteq> Replied r"
  by (auto simp: retryable_def)

lemma clock_api_request: "api_request m p w = (res, w') \<Longrightarrow> clock w \<le> clock w'"
  by (auto simp: api_request_unrolled split: if_splits)

subsection \<open>Polling\<close>

text \<open>
  \<open>_poll_transcript\<close>: the loop \<open>while time.time() - start_time < POLL_TIMEOUT\<close>.
  It ends because every round that does not return sleeps \<open>POLL_INTERVAL\<close> seconds.
\<close>

function poll_loop :: "string \<Rightarrow> nat \<Rightarrow> world \<Rightarrow> (exn + response) \<times> world" where
  "poll_loop path start_time w =
     (if clock w - start_time < POLL_TIMEOUT then
        (case api_request ''GET'' path w of
           (Inl e, w1) \<Rightarrow> (Inl e, w1)
         | (Inr None, w1) \<Rightarrow> (Inl AttributeError, w1)
         | (Inr (Some r), w1) \<Rightarrow>
             if r_status r = Some ''completed'' then (Inr r, w1)
             else if r_status r = Some ''error''
               then (Inl (RuntimeError ''Transcription failed''), w1)
             else poll_loop path start_time (sleep POLL_INTERVAL w1))
      else (Inl (RuntimeError ''Transcription timed out''), w))"
  by pat_completeness auto
termination
proof (relation "measure (\<lambda>(path, start_time, w). start_time + POLL_TIMEOUT - clock w)", goal_cases)
  case 1
  show ?case by simp
next
  case (2 path start_time w x1 w1 x r)
  from 2(2) have "api_request ''GET'' path w = (x1, w1)" by simp
  then have "clock w \<le> clock w1" by (rule clock_api_request)
  with 2(1) show ?case by (simp add: sleep_def POLL_INTERVAL_def POLL_TIMEOUT_def)
qed

declare poll_loop.simps [simp del]

definition poll_transcript :: "string option \<Rightarrow> world \<Rightarrow> (exn + response) \<times> world" where
  "poll_transcript transcript_id w =
     poll_loop (''/transcript/'' @ (case transcript_id of None \<Rightarrow> ''None'' | Some i \<Rightarrow> i))
       (clock w) w"

subsection \<open>The retry policy\<close>

lemma lt3: "(i < (3::nat)) = (i = 0 \<or> i = 1 \<or> i = 2)"
  by auto

lemma lt2: "(i < (2::nat)) = (i = 0 \<or> i = 1)"
  by auto

lemma api_bound:
  "api_request m p w = (res, w') \<Longrightarrow> 1 \<le> attempts_made w w' \<and> attempts_made w w' \<le> MAX_RETRIES"
  by (auto simp: api_request_unrolled MAX_RETRIES_def split: if_splits)

lemma api_retry_iff:
  "api_request m p w = (res, w') \<Longrightarrow> i < attempts_made w w' \<Longrightarrow>
   (i + 1 < attempts_made w w') = (retryable (attempt_outcome w i) \<and> i + 1 < MAX_RETRIES)"
  by (auto simp: api_request_unrolled MAX_RETRIES_def lt3 lt2 split: if_splits)

lemma api_delay:
  "api_request m p w = (res, w') \<Longrightarrow> i + 1 < attempts_made w w' \<Longrightarrow>
   delays w w' ! i = RETRY_BASE_DELAY * 2 ^ i"
  by (auto simp: api_request_unrolled RETRY_BASE_DELAY_def lt3 lt2 split: if_splits)

lemma api_fail_fast:
  "api_request m p w = (res, w') \<Longrightarrow> i < attempts_made w w' \<Longrightarrow>
   attempt_outcome w i = HTTPError c \<Longrightarrow> \<not> retryable (HTTPError c) \<Longrightarrow>
   res = Inl (HTTP c) \<and> attempts_made w w' = i + 1 \<and> length (delays w w') = i"
  by (auto simp: api_request_unrolled lt3 lt2 split: if_splits)

lemma api_exhausted:
  "api_request m p w = (res, w') \<Longrightarrow> \<forall>i<MAX_RETRIES. retryable (attempt_outcome w i) \<Longrightarrow>
   attempts_made w w' = MAX_RETRIES \<and> (res = Inl RequestFailed \<or> res = Inr None)"
  by (auto simp: api_request_unrolled MAX_RETRIES_def lt3 split: if_splits)

lemma exhausted_no_response:
  assumes "\<forall>i<MAX_RETRIES. retryable (attempt_outcome w i)"
  shows "\<exists>w'. api_request m p w = (Inl RequestFailed, w') \<or> api_request m p w = (Inr None, w')"
proof -
  obtain res w' where eq: "api_request m p w = (res, w')" by (cases "api_request m p w")
  from api_exhausted [OF eq assms] eq show ?thesis by auto
qed

lemma exhausted_poll_loop_fails:
  assumes "\<forall>i<MAX_RETRIES. retryable (attempt_outcome w i)"
    and "clock w - start_time < POLL_TIMEOUT"
  shows "isl (fst (poll_loop path start_time w))"
proof -
  from exhausted_no_response [OF assms(1), of "''GET''" path]
  obtain w' where "api_request ''GET'' path w = (Inl RequestFailed, w')
      \<or> api_request ''GET'' path w = (Inr None, w')"
    by blast
  with assms(2) show ?thesis
    by (subst poll_loop.simps) auto
qed

lemma exhausted_operations_fail:
  assumes "\<forall>i<MAX_RETRIES. retryable (attempt_outcome w i)"
  shows "isl (fst (upload_audio rd w)) \<and> isl (fst (submit_transcription u w)) \<and>
         isl (fst (poll_transcript tid w))"
proof -
  have p: "clock w - clock w < POLL_TIMEOUT" by (simp add: POLL_TIMEOUT_def)
  from exhausted_no_response [OF assms, of "''POST''" "''/upload''"]
  have 1: "isl (fst (upload_audio rd w))" by (auto simp: upload_audio_def)
  from exhausted_no_response [OF assms, of "''POST''" "''/transcript''"]
  have 2: "isl (fst (submit_transcription u w))" by (auto simp: submit_transcription_def)
  have 3: "isl (fst (poll_transcript tid w))"
    unfolding poll_transcript_def by (rule exhausted_poll_loop_fails [OF assms p])
  from 1 2 3 show ?thesis by blast
qed

text \<open>
  C5. One call of \<open>api_request\<close> makes between one and \<open>MAX_RETRIES\<close> = 3 attempts.
  Attempt \<open>i\<close> is followed by another attempt exactly when it failed with HTTP 429,
  an HTTP code of 500 or more, or a non-HTTP exception, and attempts remain; the sleep
  before that next attempt is \<open>RETRY_BASE_DELAY * 2 ^ i\<close> seconds. Any other HTTP error
  is raised at once, with no sleep after it. When all three attempts fail in a
  retryable way the request yields no response (the exception is raised, or after a
  last HTTP 429/5xx the function returns \<open>None\<close>), and upload, submit and poll each
  fail with an exception.
\<close>

theorem api_request_retry_policy:
  assumes "api_request m p w = (res, w')"
  shows "1 \<le> attempts_made w w' \<and> attempts_made w w' \<le> MAX_RETRIES \<and>
     (\<forall>i < attempts_made w w'.
        (i + 1 < attempts_made w w') = (retryable (attempt_outcome w i) \<and> i + 1 < MAX_RETRIES)) \<and>
     (\<forall>i. i + 1 < attempts_made w w' \<longrightarrow> delays w w' ! i = RETRY_BASE_DELAY * 2 ^ i) \<and>
     (\<forall>i c. i < attempts_made w w' \<and> attempt_outcome w i = HTTPError c \<and> c \<noteq> 429 \<and> c < 500
        \<longrightarrow> res = Inl (HTTP c) \<and> attempts_made w w' = i + 1 \<and> length (delays w w') = i) \<and>
     ((\<forall>i<MAX_RETRIES. retryable (attempt_outcome w i))
        \<longrightarrow> attempts_made w w' = MAX_RETRIES \<and> (res = Inl RequestFailed \<or> res = Inr None) \<and>
            isl (fst (upload_audio rd w)) \<and> isl (fst (submit_transcription u w)) \<and>
            isl (fst (poll_transcript tid w)))"
proof -
  have f: "res = Inl (HTTP c) \<and> attempts_made w w' = i + 1 \<and> length (delays w w') = i"
    if "i < attempts_made w w' \<and> attempt_outcome w i = HTTPError c \<and> c \<noteq> 429 \<and> c < 500" for i c
    using that api_fail_fast [OF assms, of i c] by (simp add: retryable_def)
  show ?thesis
    using api_bound [OF assms] api_retry_iff [OF assms] api_delay [OF assms] f
      api_exhausted [OF assms] exhausted_operations_fail [of w rd u tid]
    by blast
qed

theorem api_request_retry_policy_witness:
  "api_request ''POST'' ''/upload'' busy_service
     = (Inr None, after busy_service (''POST'', ''/upload'') 3 [5, 10, 20]) \<and>
   attempts_made busy_service (after busy_service (''POST'', ''/upload'') 3 [5, 10, 20]) = MAX_RETRIES \<and>
   delays busy_service (after busy_service (''POST'', ''/upload'') 3 [5, 10, 20]) ! 1
     = RETRY_BASE_DELAY * 2 ^ 1 \<and>
   isl (fst (upload_audio True busy_service))"
proof -
  have r: "\<forall>i<MAX_RETRIES. retryable (attempt_outcome busy_service i)"
    by (simp add: retryable_def attempt_outcome_def busy_service_def)
  have h: "api_request ''POST'' ''/upload'' busy_service
     = (Inr None, after busy_service (''POST'', ''/upload'') 3 [5, 10, 20])"
    by (simp add: api_request_unrolled retryable_def attempt_outcome_def busy_service_def)
  from api_request_retry_policy [OF h, of True None None] r
  have "isl (fst (upload_audio True busy_service))" by blast
  with h show ?thesis
    by (simp add: MAX_RETRIES_def RETRY_BASE_DELAY_def)
qed

section \<open>Speaker identification, as the worker and the retry loop see it\<close>

record identifier_env =
  speaker_id_enabled :: bool
  classifier_loads :: bool
  resolve :: "string \<Rightarrow> string \<Rightarrow> string option"
  fails_on :: "string \<Rightarrow> bool"

definition truthy :: "string option \<Rightarrow> bool" where
  "truthy v = (case v of None \<Rightarrow> False | Some s \<Rightarrow> s \<noteq> [])"

definition speaker_labels :: "segment list \<Rightarrow> string list" where
  "speaker_labels segs =
     rev (remdups (rev (map (\<lambda>s. the (seg_speaker s)) (filter (\<lambda>s. truthy (seg_speaker s)) segs))))"

definition tag_segment :: "(string \<times> string) list \<Rightarrow> segment \<Rightarrow> segment" where
  "tag_segment ident s =
     (case seg_speaker s of
        None \<Rightarrow> s
      | Some spk \<Rightarrow> (case map_of ident spk of
          None \<Rightarrow> s
        | Some name \<Rightarrow> if spk \<noteq> [] then s\<lparr>seg_speaker_name := Some name\<rparr> else s))"

definition identify_all_speakers :: "identifier_env \<Rightarrow> string \<Rightarrow> transcript \<Rightarrow> exn + transcript" where
  "identify_all_speakers idf audio_path t =
     (if \<not> speaker_id_enabled idf
        then Inr (t\<lparr>t_pipeline_status := Some ''complete_no_speaker_id'', t_speaker_id_skipped := True\<rparr>)
      else if \<not> classifier_loads idf
        then Inr (t\<lparr>t_pipeline_status := Some ''speaker_id_failed'',
                    t_speaker_id_error := Some ''encoder_not_available''\<rparr>)
      else if t_segments t = [] then Inr t
      else let labels = speaker_labels (t_segments t) in
        if labels = [] then Inr t
        else if fails_on idf audio_path then Inl (RuntimeError ''identification'')
        else let ident = concat (map (\<lambda>l. case resolve idf audio_path l of
                                     None \<Rightarrow> [] | Some name \<Rightarrow> if name = [] then [] else [(l, name)]) labels)
          in Inr (t\<lparr>t_segments := map (tag_segment ident) (t_segments t),
                     t_speaker_identification :=
                       Some \<lparr>si_identified = ident,
                             si_unidentified = filter (\<lambda>l. l \<notin> fst ` set ident) labels\<rparr>,
                     t_pipeline_status := Some ''complete''\<rparr>))"

section \<open>The retry loop\<close>

record retry_env =
  re_identifier :: identifier_env
  re_force_all :: bool
  re_active_files :: "string set"
  re_inbox :: "string set"

record retry_state =
  rs_files :: "(string \<times> transcript option) list"
  rs_markers :: "string set"
  rs_writes :: "(string \<times> transcript) list"
  rs_calls :: "(string \<times> string) list"
  rs_retried :: nat

definition max_retries :: int where "max_retries = 10"

definition needs_retry :: "bool \<Rightarrow> transcript \<Rightarrow> bool" where
  "needs_retry force_all data =
     (let status = pipeline_status_of data in
      status = ''speaker_id_failed'' \<or> status = ''transcribed'' \<or>
      (force_all \<and> status = ''complete'' \<and> unidentified_of data \<noteq> []))"

definition atomic_write :: "string \<Rightarrow> transcript \<Rightarrow> retry_state \<Rightarrow> retry_state" where
  "atomic_write name data st =
     st\<lparr>rs_files := AList.update name (Some data) (rs_files st),
        rs_writes := rs_writes st @ [(name, data)]\<rparr>"

definition retry_count_of :: "transcript \<Rightarrow> int" where
  "retry_count_of data = (case t_speaker_id_retry_count data of None \<Rightarrow> 0 | Some c \<Rightarrow> c)"

definition retry_one :: "retry_env \<Rightarrow> string \<Rightarrow> retry_state \<Rightarrow> retry_state" where
  "retry_one env name st =
     (if startswith name ''.'' then st
      else case map_of (rs_files st) name of
        None \<Rightarrow> st
      | Some None \<Rightarrow> st
      | Some (Some data) \<Rightarrow>
          if (case t_file data of None \<Rightarrow> False | Some f \<Rightarrow> f \<in> re_active_files env) then st
          else if \<not> needs_retry (re_force_all env) data then st
          else let retry_count = retry_count_of data in
            if retry_count \<ge> max_retries then
              (if pipeline_status_of data \<noteq> ''complete_no_speaker_id''
               then atomic_write name
                      (data\<lparr>t_pipeline_status := Some ''complete_no_speaker_id'',
                            t_speaker_id_error := Some ''max_retries_exceeded''\<rparr>) st
               else st)
            else let audio_file = get_str (t_file data) '''' in
              if audio_file = '''' \<or> audio_file \<notin> re_inbox env then st
              else let st1 = st\<lparr>rs_calls := rs_calls st @ [(name, audio_file)]\<rparr> in
                case identify_all_speakers (re_identifier env) audio_file
                       (data\<lparr>t_speaker_id_retry_count := Some (retry_count + 1)\<rparr>) of
                  Inl e \<Rightarrow> st1
                | Inr d \<Rightarrow>
                    let d' = (if t_pipeline_status d = Some ''transcribed''
                              then d\<lparr>t_pipeline_status := Some ''complete''\<rparr> else d);
                        st2 = atomic_write name d' st1
                    in st2\<lparr>rs_markers := rs_markers st2 - {name @ ''.synced''},
                           rs_retried := rs_retried st2 + 1\<rparr>)"

definition retry_failed_speaker_id :: "retry_env \<Rightarrow> retry_state \<Rightarrow> retry_state" where
  "retry_failed_speaker_id env st =
     (if \<not> classifier_loads (re_identifier env) then st\<lparr>rs_retried := 0\<rparr>
      else fold (retry_one env)
             (sort (filter (\<lambda>n. endswith n ''.json'') (map fst (rs_files st))))
             (st\<lparr>rs_retried := 0\<rparr>))"

text \<open>What a cycle can observe or change about one transcript file: its content, the
  atomic writes made to it, the identification calls made for it, and its marker.\<close>

definition file_content :: "string \<Rightarrow> retry_state \<Rightarrow> transcript option option" where
  "file_content name st = map_of (rs_files st) name"

definition writes_to :: "string \<Rightarrow> retry_state \<Rightarrow> (string \<times> transcript) list" where
  "writes_to name st = filter (\<lambda>w. fst w = name) (rs_writes st)"

definition calls_for :: "string \<Rightarrow> retry_state \<Rightarrow> (string \<times> string) list" where
  "calls_for name st = filter (\<lambda>c. fst c = name) (rs_calls st)"

definition marked :: "string \<Rightarrow> retry_state \<Rightarrow> bool" where
  "marked name st = (name @ ''.synced'' \<in> rs_markers st)"

definition file_view :: "string \<Rightarrow> retry_state \<Rightarrow>
    transcript option option \<times> (string \<times> transcript) list \<times> (string \<times> string) list \<times> bool" where
  "file_view name st = (file_content name st, writes_to name st, calls_for name st, marked name st)"

lemmas view_defs = file_view_def file_content_def writes_to_def calls_for_def marked_def

lemma map_of_atomic_write:
  "map_of (rs_files (atomic_write m d st)) n = (if n = m then Some (Some d) else map_of (rs_files st) n)"
  by (simp add: atomic_write_def update_conv')

lemma file_view_atomic_write_other:
  "m \<noteq> n \<Longrightarrow> file_view n (atomic_write m d st) = file_view n st"
  by (simp add: view_defs map_of_atomic_write) (simp add: atomic_write_def)

lemma file_view_retry_one_other:
  assumes "m \<noteq> n"
  shows "file_view n (retry_one env m st) = file_view n st"
proof -
  have a: "file_view n (st'\<lparr>rs_markers := rs_markers st' - {m @ ''.synced''}, rs_retried := k\<rparr>)
      = file_view n st'" for st' k
    using assms by (simp add: view_defs)
  have b: "file_view n (st\<lparr>rs_calls := rs_calls st @ [(m, a)]\<rparr>) = file_view n st" for a
    using assms by (simp add: view_defs)
  show ?thesis
    using assms
    by (simp add: retry_one_def Let_def a b file_view_atomic_write_other
        split: option.splits sum.splits)
qed

lemma file_view_atomic_write_same:
  "file_view n (atomic_write n d st) =
     (Some (Some d), writes_to n st @ [(n, d)], calls_for n st, marked n st)"
  by (simp add: view_defs map_of_atomic_write) (simp add: atomic_write_def)

lemma file_view_calls:
  "file_view n (st\<lparr>rs_calls := rs_calls st @ [(n, a)]\<rparr>) =
     (file_content n st, writes_to n st, calls_for n st @ [(n, a)], marked n st)"
  by (simp add: view_defs)

lemma file_view_markers:
  "file_view n (st\<lparr>rs_markers := M\<rparr>) =
     (file_content n st, writes_to n st, calls_for n st, n @ ''.synced'' \<in> M)"
  by (simp add: view_defs)

lemma file_view_retried [simp]: "file_view n (st\<lparr>rs_retried := k\<rparr>) = file_view n st"
  by (simp add: view_defs)

lemma view_components:
  "file_view n st1 = file_view n st2 \<longleftrightarrow>
     file_content n st1 = file_content n st2 \<and> writes_to n st1 = writes_to n st2 \<and>
     calls_for n st1 = calls_for n st2 \<and> marked n st1 = marked n st2"
  by (simp add: file_view_def)

lemma retry_one_view_cong:
  assumes "file_view n st1 = file_view n st2"
  shows "file_view n (retry_one env n st1) = file_view n (retry_one env n st2)"
proof -
  from assms have c: "map_of (rs_files st1) n = map_of (rs_files st2) n"
    by (simp add: view_defs)
  have w: "file_view n (atomic_write n d (st1\<lparr>rs_calls := rs_calls st1 @ [(n, a)]\<rparr>)
              \<lparr>rs_markers := rs_markers st1 - {n @ ''.synced''}\<rparr>)
         = file_view n (atomic_write n d (st2\<lparr>rs_calls := rs_calls st2 @ [(n, a)]\<rparr>)
              \<lparr>rs_markers := rs_markers st2 - {n @ ''.synced''}\<rparr>)" for d a
    using assms by (simp add: view_defs map_of_atomic_write) (simp add: atomic_write_def)
  have g: "file_view n (atomic_write n d st1) = file_view n (atomic_write n d st2)" for d
    using assms by (simp add: file_view_atomic_write_same) (simp add: file_view_def)
  have k: "file_view n (st1\<lparr>rs_calls := rs_calls st1 @ [(n, a)]\<rparr>)
         = file_view n (st2\<lparr>rs_calls := rs_calls st2 @ [(n, a)]\<rparr>)" for a
    using assms by (simp add: file_view_calls) (simp add: file_view_def)
  have m: "rs_markers (atomic_write n d st) = rs_markers st" for d st
    by (simp add: atomic_write_def)
  show ?thesis
    using assms
    by (simp add: retry_one_def Let_def c w g k m split: option.splits sum.splits)
qed

lemma fold_retry_one_other:
  "n \<notin> set ns \<Longrightarrow> file_view n (fold (retry_one env) ns st) = file_view n st"
  by (induction ns arbitrary: st) (auto simp: file_view_retry_one_other)

lemma fold_retry_one_view:
  "distinct ns \<Longrightarrow> n \<in> set ns \<Longrightarrow>
   file_view n (fold (retry_one env) ns st) = file_view n (retry_one env n st)"
proof (induction ns arbitrary: st)
  case Nil
  then show ?case by simp
next
  case (Cons m ms)
  show ?case
  proof (cases "m = n")
    case True
    with Cons.prems have "n \<notin> set ms" by simp
    with True show ?thesis by (simp add: fold_retry_one_other)
  next
    case False
    with Cons.prems have d: "distinct ms" and i: "n \<in> set ms" by auto
    have "file_view n (fold (retry_one env) ms (retry_one env m st))
          = file_view n (retry_one env n (retry_one env m st))"
      by (rule Cons.IH [OF d i])
    also have "\<dots> = file_view n (retry_one env n st)"
      by (rule retry_one_view_cong) (simp add: file_view_retry_one_other False)
    finally show ?thesis by simp
  qed
qed

lemma retry_cycle_view:
  assumes "distinct (map fst (rs_files st))"
  shows "file_view n (retry_failed_speaker_id env st) =
     (if classifier_loads (re_identifier env) \<and> endswith n ''.json'' \<and> n \<in> fst ` set (rs_files st)
      then file_view n (retry_one env n st) else file_view n st)"
proof -
  let ?ns = "sort (filter (\<lambda>n. endswith n ''.json'') (map fst (rs_files st)))"
  have d: "distinct ?ns" using assms by (simp add: distinct_map_filter)
  have s: "set ?ns = {n \<in> fst ` set (rs_files st). endswith n ''.json''}" by auto
  have c: "file_view n (retry_one env n (st\<lparr>rs_retried := 0\<rparr>)) = file_view n (retry_one env n st)"
    by (rule retry_one_view_cong) simp
  show ?thesis
  proof (cases "classifier_loads (re_identifier env) \<and> endswith n ''.json'' \<and> n \<in> fst ` set (rs_files st)")
    case True
    then have "n \<in> set ?ns" using s by blast
    from fold_retry_one_view [OF d this] True c show ?thesis
      by (simp add: retry_failed_speaker_id_def)
  next
    case False
    then show ?thesis
    proof (cases "classifier_loads (re_identifier env)")
      case True
      with False have "n \<notin> set ?ns" using s by blast
      from fold_retry_one_other [OF this] True False show ?thesis
        by (auto simp: retry_failed_speaker_id_def)
    next
      case False
      then show ?thesis by (simp add: retry_failed_speaker_id_def)
    qed
  qed
qed

definition gave_up :: "transcript \<Rightarrow> transcript" where
  "gave_up data =
     data\<lparr>t_pipeline_status := Some ''complete_no_speaker_id'',
          t_speaker_id_error := Some ''max_retries_exceeded''\<rparr>"

definition not_active :: "retry_env \<Rightarrow> transcript \<Rightarrow> bool" where
  "not_active env data = (case t_file data of None \<Rightarrow> True | Some f \<Rightarrow> f \<notin> re_active_files env)"

definition idle_identifier :: identifier_env where
  "idle_identifier =
     \<lparr>speaker_id_enabled = True, classifier_loads = True, resolve = (\<lambda>a l. None),
      fails_on = (\<lambda>a. False)\<rparr>"

definition unidentified_transcript :: "int \<Rightarrow> transcript" where
  "unidentified_transcript n =
     empty_transcript\<lparr>t_file := Some ''a.wav'', t_pipeline_status := Some ''complete'',
       t_segments := [seg ''hello'' 0 12],
       t_speaker_identification := Some \<lparr>si_identified = [], si_unidentified = [''SPEAKER_00'']\<rparr>,
       t_speaker_id_retry_count := Some n\<rparr>"

definition one_file :: "transcript \<Rightarrow> retry_state" where
  "one_file data =
     \<lparr>rs_files = [(''a.json'', Some data)], rs_markers = {''a.json.synced''}, rs_writes = [],
      rs_calls = [], rs_retried = 0\<rparr>"

definition forced :: "string set \<Rightarrow> retry_env" where
  "forced inbox =
     \<lparr>re_identifier = idle_identifier, re_force_all = True, re_active_files = {},
      re_inbox = inbox\<rparr>"

lemma pipeline_status_gave_up [simp]:
  "pipeline_status_of (gave_up data) = ''complete_no_speaker_id''"
  by (simp add: gave_up_def pipeline_status_of_def get_str_def)

lemma retry_one_not_selected:
  "map_of (rs_files st) n = Some (Some data) \<Longrightarrow> \<not> needs_retry (re_force_all env) data \<Longrightarrow>
   retry_one env n st = st"
  by (simp add: retry_one_def split: option.splits)

lemma retry_one_gives_up:
  assumes "map_of (rs_files st) n = Some (Some data)" "\<not> startswith n ''.''"
    "not_active env data" "needs_retry (re_force_all env) data" "retry_count_of data \<ge> max_retries"
  shows "retry_one env n st = atomic_write n (gave_up data) st"
proof -
  from assms(4) have "pipeline_status_of data \<noteq> ''complete_no_speaker_id''"
    by (auto simp: needs_retry_def Let_def)
  with assms show ?thesis
    by (simp add: retry_one_def Let_def gave_up_def not_active_def split: option.splits)
qed

lemma retry_one_audio_absent:
  assumes "map_of (rs_files st) n = Some (Some data)"
    "retry_count_of data < max_retries" "get_str (t_file data) '''' \<notin> re_inbox env"
  shows "retry_one env n st = st"
  using assms by (simp add: retry_one_def Let_def split: option.splits)

lemma retry_one_reruns:
  assumes "map_of (rs_files st) n = Some (Some data)" "\<not> startswith n ''.''"
    "not_active env data" "needs_retry (re_force_all env) data" "retry_count_of data < max_retries"
    "t_file data = Some audio" "audio \<noteq> ''''" "audio \<in> re_inbox env"
  shows "calls_for n (retry_one env n st)
           = calls_for n st @ [(n, audio)]"
  using assms
  by (simp add: retry_one_def Let_def not_active_def get_str_def calls_for_def atomic_write_def
      split: option.splits sum.splits)

lemma in_files: "map_of xs n = Some v \<Longrightarrow> n \<in> fst ` set xs"
  by (metis domI dom_map_of_conv_image_fst)

text \<open>
  C6 (as stated, refuted). With \<open>force_all\<close>, a transcript at \<open>complete\<close> with an
  unidentified speaker and a retry count of 10 is not re-identified: the cycle makes no
  identification call and rewrites it as \<open>complete_no_speaker_id\<close>.
\<close>

theorem force_all_at_max_retries_counterexample:
  "needs_retry True (unidentified_transcript 10) \<and>
   rs_calls (retry_failed_speaker_id (forced {''a.wav''}) (one_file (unidentified_transcript 10))) = [] \<and>
   map_of (rs_files (retry_failed_speaker_id (forced {''a.wav''}) (one_file (unidentified_transcript 10))))
       ''a.json''
     = Some (Some (gave_up (unidentified_transcript 10)))"
  by (simp add: retry_failed_speaker_id_def forced_def idle_identifier_def one_file_def
      endswith_def startswith_def retry_one_def needs_retry_def Let_def retry_count_of_def
      max_retries_def unidentified_transcript_def empty_transcript_def pipeline_status_of_def
      get_str_def unidentified_of_def atomic_write_def gave_up_def)

text \<open>
  C6 (amended). For a transcript file of done/ that parses: (1) when its
  \<open>pipeline_status\<close> is \<open>complete\<close>, a retry cycle leaves the file, its marker and
  the logs of writes and identification calls about it unchanged, unless \<open>force_all\<close>
  is true and the unidentified list is non-empty; (2) a transcript is selected for retry
  when its \<open>pipeline_status\<close> is \<open>speaker_id_failed\<close> or \<open>transcribed\<close>, whatever
  \<open>force_all\<close>, and when \<open>force_all\<close> is true, the status \<open>complete\<close> and the
  unidentified list non-empty; (3) for a selected transcript, in a cycle whose encoder
  loads and that does not find the clip in the active jobs, identification is run
  (once) when the retry count is below 10 and the audio file exists in the inbox.
\<close>

theorem retry_cycle_on_complete:
  assumes "distinct (map fst (rs_files st))" "map_of (rs_files st) n = Some (Some data)"
  shows "(pipeline_status_of data = ''complete'' \<and>
            \<not> (re_force_all env \<and> unidentified_of data \<noteq> [])
          \<longrightarrow> file_view n (retry_failed_speaker_id env st) = file_view n st) \<and>
         (pipeline_status_of data \<in> {''speaker_id_failed'', ''transcribed''}
          \<longrightarrow> needs_retry True data \<and> needs_retry False data) \<and>
         (pipeline_status_of data = ''complete'' \<and> unidentified_of data \<noteq> []
          \<longrightarrow> needs_retry True data) \<and>
         (needs_retry (re_force_all env) data \<and> classifier_loads (re_identifier env) \<and>
            endswith n ''.json'' \<and> \<not> startswith n ''.'' \<and> not_active env data \<and>
            retry_count_of data < max_retries \<and>
            t_file data = Some audio \<and> audio \<noteq> '''' \<and> audio \<in> re_inbox env
          \<longrightarrow> calls_for n (retry_failed_speaker_id env st)
                = calls_for n st @ [(n, audio)])"
proof -
  note v = retry_cycle_view [OF assms(1), of n env]
  have 1: "file_view n (retry_failed_speaker_id env st) = file_view n st"
    if "pipeline_status_of data = ''complete'' \<and> \<not> (re_force_all env \<and> unidentified_of data \<noteq> [])"
  proof -
    from that have "\<not> needs_retry (re_force_all env) data"
      by (auto simp: needs_retry_def Let_def)
    from retry_one_not_selected [OF assms(2) this] v show ?thesis by simp
  qed
  have 2: "needs_retry True data \<and> needs_retry False data"
    if "pipeline_status_of data \<in> {''speaker_id_failed'', ''transcribed''}"
    using that by (auto simp: needs_retry_def Let_def)
  have 3: "needs_retry True data"
    if "pipeline_status_of data = ''complete'' \<and> unidentified_of data \<noteq> []"
    using that by (auto simp: needs_retry_def Let_def)
  have 4: "calls_for n (retry_failed_speaker_id env st)
                = calls_for n st @ [(n, audio)]"
    if h: "needs_retry (re_force_all env) data \<and> classifier_loads (re_identifier env) \<and>
            endswith n ''.json'' \<and> \<not> startswith n ''.'' \<and> not_active env data \<and>
            retry_count_of data < max_retries \<and>
            t_file data = Some audio \<and> audio \<noteq> '''' \<and> audio \<in> re_inbox env"
  proof -
    from h in_files [OF assms(2)] v
    have "file_view n (retry_failed_speaker_id env st) = file_view n (retry_one env n st)"
      by simp
    moreover from h have "calls_for n (retry_one env n st)
           = calls_for n st @ [(n, audio)]"
      by (intro retry_one_reruns [OF assms(2)]) auto
    ultimately show ?thesis by (simp add: view_components)
  qed
  from 1 2 3 4 show ?thesis by blast
qed

theorem retry_cycle_on_complete_witness:
  "distinct (map fst (rs_files (one_file (unidentified_transcript 0)))) \<and>
   needs_retry (re_force_all (forced {''a.wav''})) (unidentified_transcript 0) \<and>
   calls_for ''a.json''
      (retry_failed_speaker_id (forced {''a.wav''}) (one_file (unidentified_transcript 0)))
     = [(''a.json'', ''a.wav'')]"
proof -
  let ?st = "one_file (unidentified_transcript 0)"
  let ?env = "forced {''a.wav''}"
  have d: "distinct (map fst (rs_files ?st))" by (simp add: one_file_def)
  have m: "map_of (rs_files ?st) ''a.json'' = Some (Some (unidentified_transcript 0))"
    by (simp add: one_file_def)
  have h: "needs_retry (re_force_all ?env) (unidentified_transcript 0) \<and>
      classifier_loads (re_identifier ?env) \<and>
      endswith ''a.json'' ''.json'' \<and> \<not> startswith ''a.json'' ''.'' \<and>
      not_active ?env (unidentified_transcript 0) \<and>
      retry_count_of (unidentified_transcript 0) < max_retries \<and>
      t_file (unidentified_transcript 0) = Some ''a.wav'' \<and> ''a.wav'' \<noteq> '''' \<and>
      ''a.wav'' \<in> re_inbox ?env"
    by (simp add: forced_def idle_identifier_def needs_retry_def unidentified_transcript_def
        empty_transcript_def pipeline_status_of_def get_str_def unidentified_of_def endswith_def
        startswith_def not_active_def retry_count_of_def max_retries_def)
  from retry_cycle_on_complete [OF d m, of ?env "''a.wav''"] h
  have "calls_for ''a.json'' (retry_failed_speaker_id ?env ?st)
        = calls_for ''a.json'' ?st @ [(''a.json'', ''a.wav'')]"
    by blast
  moreover have "calls_for ''a.json'' ?st = []"
    by (simp add: view_defs one_file_def)
  ultimately show ?thesis using d h by simp
qed

text \<open>
  C7. A transcript that a cycle selects for retry (the encoder loads, the clip is not
  among the active jobs) with \<open>speaker_id_retry_count\<close> of 10 or more is not
  re-identified: the cycle makes no identification call for it, writes it once with
  \<open>pipeline_status = complete_no_speaker_id\<close> and
  \<open>speaker_id_error = max_retries_exceeded\<close>, and leaves its marker alone. Any later
  cycle, whatever its \<open>force_all\<close>, inbox and active jobs, leaves the rewritten file
  unchanged, writes nothing and calls nothing for it.
\<close>

theorem retry_cycle_gives_up:
  assumes "distinct (map fst (rs_files st))" "map_of (rs_files st) n = Some (Some data)"
    "classifier_loads (re_identifier env)" "endswith n ''.json''" "\<not> startswith n ''.''"
    "not_active env data" "needs_retry (re_force_all env) data"
    "retry_count_of data \<ge> max_retries"
  shows "file_view n (retry_failed_speaker_id env st) =
           (Some (Some (gave_up data)), writes_to n st @ [(n, gave_up data)],
            calls_for n st, marked n st) \<and>
         (\<forall>env2 st2. distinct (map fst (rs_files st2)) \<and>
              map_of (rs_files st2) n = Some (Some (gave_up data))
            \<longrightarrow> file_view n (retry_failed_speaker_id env2 st2) = file_view n st2)"
proof -
  have "file_view n (retry_failed_speaker_id env st) = file_view n (retry_one env n st)"
    using retry_cycle_view [OF assms(1), of n env] in_files [OF assms(2)] assms(3,4) by simp
  also have "\<dots> = file_view n (atomic_write n (gave_up data) st)"
    using retry_one_gives_up [OF assms(2,5,6,7,8)] by simp
  finally have first: "file_view n (retry_failed_speaker_id env st) =
           (Some (Some (gave_up data)), writes_to n st @ [(n, gave_up data)],
            calls_for n st, marked n st)"
    by (simp add: file_view_atomic_write_same)
  have later: "file_view n (retry_failed_speaker_id env2 st2) = file_view n st2"
    if "distinct (map fst (rs_files st2)) \<and> map_of (rs_files st2) n = Some (Some (gave_up data))"
    for env2 st2
  proof -
    have "\<not> needs_retry (re_force_all env2) (gave_up data)"
      by (simp add: needs_retry_def Let_def)
    with that have "retry_one env2 n st2 = st2"
      by (intro retry_one_not_selected) auto
    with that retry_cycle_view [of st2 n env2] show ?thesis by simp
  qed
  from first later show ?thesis by blast
qed

definition failed_transcript :: "int \<Rightarrow> transcript" where
  "failed_transcript n =
     empty_transcript\<lparr>t_file := Some ''a.wav'', t_pipeline_status := Some ''speaker_id_failed'',
       t_segments := [seg ''hello'' 0 12], t_speaker_id_retry_count := Some n\<rparr>"

theorem retry_cycle_gives_up_witness:
  "needs_retry (re_force_all (forced {''a.wav''})) (failed_transcript 10) \<and>
   retry_count_of (failed_transcript 10) \<ge> max_retries \<and>
   file_view ''a.json'' (retry_failed_speaker_id (forced {''a.wav''}) (one_file (failed_transcript 10)))
     = (Some (Some (gave_up (failed_transcript 10))), [(''a.json'', gave_up (failed_transcript 10))],
        [], True)"
proof -
  let ?st = "one_file (failed_transcript 10)"
  let ?env = "forced {''a.wav''}"
  have d: "distinct (map fst (rs_files ?st))" by (simp add: one_file_def)
  have m: "map_of (rs_files ?st) ''a.json'' = Some (Some (failed_transcript 10))"
    by (simp add: one_file_def)
  have c: "classifier_loads (re_identifier ?env)" by (simp add: forced_def idle_identifier_def)
  have e: "endswith ''a.json'' ''.json''" by (simp add: endswith_def)
  have s: "\<not> startswith ''a.json'' ''.''" by (simp add: startswith_def)
  have a: "not_active ?env (failed_transcript 10)" by (simp add: not_active_def forced_def split: option.splits)
  have r: "needs_retry (re_force_all ?env) (failed_transcript 10)"
    by (simp add: needs_retry_def failed_transcript_def empty_transcript_def pipeline_status_of_def
        get_str_def)
  have k: "retry_count_of (failed_transcript 10) \<ge> max_retries"
    by (simp add: retry_count_of_def failed_transcript_def max_retries_def)
  have v: "file_view ''a.json'' ?st = (Some (Some (failed_transcript 10)), [], [], True)"
    by (simp add: view_defs one_file_def)
  from retry_cycle_gives_up [OF d m c e s a r k] v r k show ?thesis by (simp add: file_view_def)
qed

text \<open>
  C10. A transcript selected for retry whose \<open>speaker_id_retry_count\<close> is below 10 and
  whose audio file is not in the inbox is left completely unchanged by a retry cycle:
  the file content (so its retry count and status), its marker, and the logs of writes
  and of identification calls about it are what they were. Since nothing changed, the
  same holds for every later cycle while the audio stays absent.
\<close>

theorem retry_cycle_audio_absent:
  assumes "distinct (map fst (rs_files st))" "map_of (rs_files st) n = Some (Some data)"
    "needs_retry (re_force_all env) data" "retry_count_of data < max_retries"
    "get_str (t_file data) '''' \<notin> re_inbox env"
  shows "file_view n (retry_failed_speaker_id env st) = file_view n st"
  using retry_cycle_view [OF assms(1), of n env] retry_one_audio_absent [OF assms(2,4,5)]
  by simp

theorem retry_cycle_audio_absent_witness:
  "needs_retry (re_force_all (forced {})) (failed_transcript 3) \<and>
   retry_count_of (failed_transcript 3) < max_retries \<and>
   get_str (t_file (failed_transcript 3)) '''' \<notin> re_inbox (forced {}) \<and>
   file_view ''a.json'' (retry_failed_speaker_id (forced {}) (one_file (failed_transcript 3)))
     = (Some (Some (failed_transcript 3)), [], [], True)"
proof -
  let ?st = "one_file (failed_transcript 3)"
  have d: "distinct (map fst (rs_files ?st))" by (simp add: one_file_def)
  have m: "map_of (rs_files ?st) ''a.json'' = Some (Some (failed_transcript 3))"
    by (simp add: one_file_def)
  have r: "needs_retry (re_force_all (forced {})) (failed_transcript 3)"
    by (simp add: needs_retry_def failed_transcript_def empty_transcript_def pipeline_status_of_def
        get_str_def)
  have k: "retry_count_of (failed_transcript 3) < max_retries"
    by (simp add: retry_count_of_def failed_transcript_def max_retries_def)
  have i: "get_str (t_file (failed_transcript 3)) '''' \<notin> re_inbox (forced {})"
    by (simp add: forced_def)
  have v: "file_view ''a.json'' ?st = (Some (Some (failed_transcript 3)), [], [], True)"
    by (simp add: view_defs one_file_def)
  from retry_cycle_audio_absent [OF d m r k i] v r k i show ?thesis by (simp add: file_view_def)
qed

section \<open>The pipeline worker\<close>

text \<open>
  \<open>submit_and_process\<close> of assemblyai_transcriber.py, for one clip. What the worker
  cannot decide itself is given by the environment: the API key, the result of the
  WAV header probe \<open>_get_wav_duration\<close> (\<open>None\<close> when the header cannot be read),
  whether the file can be read for the upload, whether \<open>speaker_verify\<close> imports,
  and whether the installed voice-command callback raises. The worker's effects are the
  requests it sends (in the world), the transcripts it writes to done/, the listener
  counters and the active-jobs map. The cost file and the logging are left out.
\<close>

record listener_state =
  ls_failed :: nat
  ls_skipped_short :: nat
  ls_submitted :: nat
  ls_pending :: int
  ls_completed :: nat
  ls_cost_usd :: real
  ls_hours :: real

record worker_env =
  we_api_key :: string
  we_min_transcribe_seconds :: real
  we_wav_duration :: "real option"
  we_wav_readable :: bool
  we_now :: string
  we_identifier :: identifier_env
  we_importable :: bool
  we_callback_raises :: bool

record worker_state =
  ws_world :: world
  ws_writes :: "(string \<times> transcript) list"
  ws_listener :: listener_state
  ws_jobs :: "(string option \<times> string \<times> string) list"

definition COST_PER_HOUR :: real where "COST_PER_HOUR = 0.17"

text \<open>\<open>f"SPEAKER_{speaker_counter:02d}"\<close>\<close>

definition speaker_label :: "nat \<Rightarrow> string" where
  "speaker_label n = ''SPEAKER_'' @ (if n < 10 then ''0'' else '''') @ string_of_nat n"

definition ms_to_seconds :: "real option \<Rightarrow> real" where
  "ms_to_seconds v = (case v of None \<Rightarrow> 0 | Some x \<Rightarrow> x) / 1000"

text \<open>The loop over the utterances; \<open>m\<close> is \<open>speaker_map\<close>, in insertion order.\<close>

fun convert_utterances :: "utterance list \<Rightarrow> (string \<times> string) list \<Rightarrow> segment list" where
  "convert_utterances [] m = []"
| "convert_utterances (u # us) m =
     (let aai_speaker = get_str (u_speaker u) ''A'';
          m' = (if aai_speaker \<in> fst ` set m then m
                else m @ [(aai_speaker, speaker_label (length m))])
      in \<lparr>seg_start = Some (ms_to_seconds (u_start u)), seg_end = Some (ms_to_seconds (u_end u)),
          seg_text = Some (get_str (u_text u) ''''), seg_speaker = map_of m' aai_speaker,
          seg_speaker_name = None\<rparr>
         # convert_utterances us m')"

definition convert_response :: "string \<Rightarrow> response \<Rightarrow> string \<Rightarrow> transcript" where
  "convert_response now response wav_filename =
     (let audio_duration = (case r_audio_duration response of None \<Rightarrow> 0 | Some d \<Rightarrow> d);
          hours = audio_duration / 3600;
          cost_usd = py_round_to 4 (hours * COST_PER_HOUR)
      in \<lparr>t_file = Some wav_filename, t_timestamp = Some now,
          t_pipeline_status = Some ''transcribed'',
          t_segments = convert_utterances (r_utterances response) [],
          t_diarization = True, t_model = Some ''assemblyai-universal-2'',
          t_assemblyai = Some \<lparr>aai_status = None, aai_audio_duration = Some audio_duration,
             aai_confidence = Some (case r_confidence response of None \<Rightarrow> 0 | Some c \<Rightarrow> c),
             aai_cost_usd = Some cost_usd\<rparr>,
          t_speaker_identification = None, t_speaker_id_error = None,
          t_speaker_id_retry_count = None, t_speaker_id_skipped = False, t_duration = None\<rparr>)"

definition exn_text :: "exn \<Rightarrow> string" where
  "exn_text e = (case e of RuntimeError s \<Rightarrow> s | HTTP c \<Rightarrow> ''HTTP Error'' | RequestFailed \<Rightarrow> ''request failed''
     | AttributeError \<Rightarrow> ''NoneType object has no attribute get'' | OSError \<Rightarrow> ''OSError'')"

definition run_speaker_identification :: "worker_env \<Rightarrow> string \<Rightarrow> transcript \<Rightarrow> transcript" where
  "run_speaker_identification env wav_path t =
     (if \<not> we_importable env
        then t\<lparr>t_pipeline_status := Some ''complete_no_speaker_id'', t_speaker_id_skipped := True\<rparr>
      else case identify_all_speakers (we_identifier env) wav_path t of
        Inr t' \<Rightarrow> if t_pipeline_status t' = Some ''transcribed''
                   then t'\<lparr>t_pipeline_status := Some ''complete''\<rparr> else t'
      | Inl e \<Rightarrow> t\<lparr>t_pipeline_status := Some ''speaker_id_failed'',
                    t_speaker_id_error := Some (exn_text e)\<rparr>)"

definition save_transcript :: "transcript \<Rightarrow> string \<Rightarrow> worker_state \<Rightarrow> worker_state" where
  "save_transcript t wav_filename st =
     st\<lparr>ws_writes := ws_writes st @ [(path_stem wav_filename @ ''.json'', t)]\<rparr>"

definition set_job :: "string option \<Rightarrow> string \<Rightarrow> string \<Rightarrow> worker_state \<Rightarrow> worker_state" where
  "set_job tid file status st = st\<lparr>ws_jobs := AList.update tid (file, status) (ws_jobs st)\<rparr>"

definition bump :: "(listener_state \<Rightarrow> listener_state) \<Rightarrow> worker_state \<Rightarrow> worker_state" where
  "bump f st = st\<lparr>ws_listener := f (ws_listener st)\<rparr>"

text \<open>
  The body of the \<open>try\<close> block. It returns the exception that left the block, if any,
  the value of \<open>transcript_id\<close> at that moment, and the state.
\<close>

definition try_pipeline :: "worker_env \<Rightarrow> string \<Rightarrow> worker_state \<Rightarrow> exn option \<times> string option \<times> worker_state" where
  "try_pipeline env filename st =
     (case upload_audio (we_wav_readable env) (ws_world st) of
        (Inl e, w1) \<Rightarrow> (Some e, None, st\<lparr>ws_world := w1\<rparr>)
      | (Inr upload_url, w1) \<Rightarrow>
          (case submit_transcription upload_url w1 of
             (Inl e, w2) \<Rightarrow> (Some e, None, st\<lparr>ws_world := w2\<rparr>)
           | (Inr transcript_id, w2) \<Rightarrow>
               let st2 = set_job transcript_id filename ''processing'' (st\<lparr>ws_world := w2\<rparr>) in
               (case poll_transcript transcript_id w2 of
                  (Inl e, w3) \<Rightarrow> (Some e, transcript_id, st2\<lparr>ws_world := w3\<rparr>)
                | (Inr response, w3) \<Rightarrow>
                    let transcript = run_speaker_identification env filename
                                       (convert_response (we_now env) response filename);
                        st3 = save_transcript transcript filename (st2\<lparr>ws_world := w3\<rparr>)
                    in if we_callback_raises env \<and> t_segments transcript \<noteq> []
                       then (Some (RuntimeError ''voice command callback''), transcript_id, st3)
                       else
                         let aai = t_assemblyai transcript;
                             cost = (case aai of None \<Rightarrow> 0
                                     | Some a \<Rightarrow> (case aai_cost_usd a of None \<Rightarrow> 0 | Some c \<Rightarrow> c));
                             hours = (case aai of None \<Rightarrow> 0
                                      | Some a \<Rightarrow> (case aai_audio_duration a of None \<Rightarrow> 0 | Some d \<Rightarrow> d))
                                     / 3600;
                             st4 = bump (\<lambda>l. l\<lparr>ls_cost_usd := ls_cost_usd l + cost,
                                                ls_hours := ls_hours l + hours,
                                                ls_completed := ls_completed l + 1\<rparr>) st3
                         in (None, transcript_id, set_job transcript_id filename ''completed'' st4))))"

text \<open>The \<open>except Exception\<close> and \<open>finally\<close> clauses that follow the \<open>try\<close> block.\<close>

definition finish_pipeline :: "exn option \<Rightarrow> string option \<Rightarrow> string \<Rightarrow> worker_state \<Rightarrow> worker_state" where
  "finish_pipeline raised transcript_id filename st =
     bump (\<lambda>l. l\<lparr>ls_pending := max 0 (ls_pending l - 1)\<rparr>)
       (case raised of
          None \<Rightarrow> st
        | Some e \<Rightarrow>
            let st' = bump (\<lambda>l. l\<lparr>ls_failed := ls_failed l + 1\<rparr>) st in
            if truthy transcript_id \<and> transcript_id \<in> fst ` set (ws_jobs st')
            then set_job transcript_id filename ''failed'' st' else st')"

definition submit_and_process :: "worker_env \<Rightarrow> string \<Rightarrow> worker_state \<Rightarrow> worker_state" where
  "submit_and_process env filename st =
     (if we_api_key env = '''' then bump (\<lambda>l. l\<lparr>ls_failed := ls_failed l + 1\<rparr>) st
      else case (case we_wav_duration env of
                   None \<Rightarrow> None
                 | Some d \<Rightarrow> if d < we_min_transcribe_seconds env then Some d else None) of
        Some duration \<Rightarrow>
          save_transcript
            (empty_transcript\<lparr>t_file := Some filename, t_timestamp := Some (we_now env),
               t_pipeline_status := Some ''skipped_too_short'',
               t_duration := Some (py_round_to 2 duration), t_segments := []\<rparr>)
            filename
            (bump (\<lambda>l. l\<lparr>ls_skipped_short := ls_skipped_short l + 1\<rparr>) st)
      | None \<Rightarrow>
          let st1 = bump (\<lambda>l. l\<lparr>ls_submitted := ls_submitted l + 1,
                                ls_pending := ls_pending l + 1\<rparr>) st;
              (raised, transcript_id, st2) = try_pipeline env filename st1
          in finish_pipeline raised transcript_id filename st2)"

text \<open>Vocabulary for the statements about one run of the worker.\<close>

definition requests_sent :: "worker_state \<Rightarrow> worker_state \<Rightarrow> (string \<times> string) list" where
  "requests_sent st st' = drop (length (sent (ws_world st))) (sent (ws_world st'))"

definition new_writes :: "worker_state \<Rightarrow> worker_state \<Rightarrow> (string \<times> transcript) list" where
  "new_writes st st' = drop (length (ws_writes st)) (ws_writes st')"

definition upload_accepted :: "worker_env \<Rightarrow> worker_state \<Rightarrow> bool" where
  "upload_accepted env st = (\<not> isl (fst (upload_audio (we_wav_readable env) (ws_world st))))"

definition accepting_service :: world where
  "accepting_service =
     \<lparr>reply = (\<lambda>k. Replied \<lparr>r_upload_url = Some ''u'', r_id = Some ''t1'',
                               r_status = Some ''completed'', r_error = None,
                               r_audio_duration = Some 30, r_confidence = Some 1,
                               r_utterances = []\<rparr>),
      sent = [], slept = [], clock = 0\<rparr>"

definition unprobed_clip :: worker_env where
  "unprobed_clip =
     \<lparr>we_api_key = ''key'', we_min_transcribe_seconds = 10, we_wav_duration = None,
      we_wav_readable = True, we_now = ''2024-01-01T12:00:00+00:00'',
      we_identifier = idle_identifier, we_importable = True, we_callback_raises = False\<rparr>"

definition fresh_worker :: worker_state where
  "fresh_worker =
     \<lparr>ws_world = accepting_service, ws_writes = [],
      ws_listener = \<lparr>ls_failed = 0, ls_skipped_short = 0, ls_submitted = 0, ls_pending = 0,
                     ls_completed = 0, ls_cost_usd = 0, ls_hours = 0\<rparr>,
      ws_jobs = []\<rparr>"

subsection \<open>What the worker sends and writes\<close>

lemma status_after_identification:
  assumes "t_pipeline_status t = Some ''transcribed''"
  shows "t_pipeline_status (run_speaker_identification env p t)
           \<in> {Some ''complete_no_speaker_id'', Some ''speaker_id_failed'', Some ''complete''}"
  using assms
  by (auto simp: run_speaker_identification_def identify_all_speakers_def Let_def
      split: sum.splits if_splits)

lemma status_convert_response [simp]:
  "t_pipeline_status (convert_response now r f) = Some ''transcribed''"
  by (simp add: convert_response_def Let_def)

lemma sent_api_request:
  "\<exists>k. 1 \<le> k \<and> k \<le> MAX_RETRIES \<and> sent (snd (api_request m p w)) = sent w @ replicate k (m, p)"
  by (auto simp: api_request_unrolled after_def MAX_RETRIES_def)

lemma sent_poll_loop: "\<exists>xs. sent (snd (poll_loop path s w)) = sent w @ xs"
proof (induction path s w rule: poll_loop.induct)
  case (1 path start_time w)
  obtain res w1 where eq: "api_request ''GET'' path w = (res, w1)"
    by (cases "api_request ''GET'' path w")
  from sent_api_request [of "''GET''" path w] eq
  obtain k where k: "sent w1 = sent w @ replicate k (''GET'', path)" by auto
  show ?case
  proof (cases "clock w - start_time < POLL_TIMEOUT")
    case False
    then show ?thesis by (subst poll_loop.simps) simp
  next
    case True
    show ?thesis
    proof (cases res)
      case (Inl e)
      with True eq k show ?thesis by (subst poll_loop.simps) simp
    next
      case (Inr ro)
      show ?thesis
      proof (cases ro)
        case None
        with True eq k Inr show ?thesis by (subst poll_loop.simps) simp
      next
        case (Some r)
        show ?thesis
        proof (cases "r_status r = Some ''completed'' \<or> r_status r = Some ''error''")
          case True
          with \<open>clock w - start_time < POLL_TIMEOUT\<close> eq k Inr Some show ?thesis
            by (subst poll_loop.simps) auto
        next
          case False
          then have "r_status r \<noteq> Some ''completed''" "r_status r \<noteq> Some ''error''" by auto
          from "1.IH" [OF \<open>clock w - start_time < POLL_TIMEOUT\<close> eq [symmetric] Inr Some this]
          obtain xs where "sent (snd (poll_loop path start_time (sleep POLL_INTERVAL w1)))
                = sent (sleep POLL_INTERVAL w1) @ xs"
            by auto
          with False \<open>clock w - start_time < POLL_TIMEOUT\<close> eq k Inr Some show ?thesis
            by (subst poll_loop.simps) (simp add: sleep_def)
        qed
      qed
    qed
  qed
qed

lemma sent_poll_transcript: "\<exists>xs. sent (snd (poll_transcript tid w)) = sent w @ xs"
  unfolding poll_transcript_def by (rule sent_poll_loop)

lemma snd_upload_audio:
  "snd (upload_audio True w) = snd (api_request ''POST'' ''/upload'' w)"
  by (simp add: upload_audio_def split: prod.splits sum.splits option.splits)

lemma snd_submit_transcription:
  "snd (submit_transcription u w) = snd (api_request ''POST'' ''/transcript'' w)"
  by (simp add: submit_transcription_def split: prod.splits sum.splits option.splits)

lemma ws_world_simps [simp]:
  "ws_world (bump g st) = ws_world st"
  "ws_world (set_job tid f s st) = ws_world st"
  "ws_world (save_transcript t f st) = ws_world st"
  by (simp_all add: bump_def set_job_def save_transcript_def)

lemma ws_writes_simps [simp]:
  "ws_writes (bump g st) = ws_writes st"
  "ws_writes (set_job tid f s st) = ws_writes st"
  "ws_writes (save_transcript t f st) = ws_writes st @ [(path_stem f @ ''.json'', t)]"
  by (simp_all add: bump_def set_job_def save_transcript_def)

lemma ws_listener_simps [simp]:
  "ws_listener (bump g st) = g (ws_listener st)"
  "ws_listener (set_job tid f s st) = ws_listener st"
  "ws_listener (save_transcript t f st) = ws_listener st"
  by (simp_all add: bump_def set_job_def save_transcript_def)

lemma try_pipeline_requests:
  assumes "we_wav_readable env"
  shows "\<exists>k rest. 1 \<le> k \<and> k \<le> MAX_RETRIES \<and>
           requests_sent st (snd (snd (try_pipeline env f st)))
             = replicate k (''POST'', ''/upload'') @ rest \<and>
           (upload_accepted env st \<longrightarrow> (\<exists>rest'. rest = (''POST'', ''/transcript'') # rest'))"
proof -
  obtain r1 w1 where u: "upload_audio True (ws_world st) = (r1, w1)"
    by (cases "upload_audio True (ws_world st)")
  from sent_api_request [of "''POST''" "''/upload''" "ws_world st"] u snd_upload_audio [of "ws_world st"]
  obtain k where k: "1 \<le> k" "k \<le> MAX_RETRIES"
      "sent w1 = sent (ws_world st) @ replicate k (''POST'', ''/upload'')"
    by auto
  show ?thesis
  proof (cases r1)
    case (Inl e)
    with u assms have "try_pipeline env f st = (Some e, None, st\<lparr>ws_world := w1\<rparr>)"
      by (simp add: try_pipeline_def)
    moreover from Inl u assms have "\<not> upload_accepted env st"
      by (simp add: upload_accepted_def)
    ultimately show ?thesis using k
      by (intro exI [of _ k] exI [of _ "[]"]) (simp add: requests_sent_def)
  next
    case (Inr url)
    obtain r2 w2 where s: "submit_transcription url w1 = (r2, w2)"
      by (cases "submit_transcription url w1")
    from sent_api_request [of "''POST''" "''/transcript''" w1] s snd_submit_transcription [of url w1]
    obtain k2 where k2: "1 \<le> k2" "sent w2 = sent w1 @ replicate k2 (''POST'', ''/transcript'')"
      by auto
    from k2(1) have r: "replicate k2 (''POST'', ''/transcript'')
        = (''POST'', ''/transcript'') # replicate (k2 - 1) (''POST'', ''/transcript'')"
      by (cases k2) simp_all
    show ?thesis
    proof (cases r2)
      case (Inl e)
      with u s Inr assms have "try_pipeline env f st = (Some e, None, st\<lparr>ws_world := w2\<rparr>)"
        by (simp add: try_pipeline_def)
      then show ?thesis using k k2 r
        by (intro exI [of _ k] exI [of _ "replicate k2 (''POST'', ''/transcript'')"])
           (simp add: requests_sent_def)
    next
      case (Inr tid)
      obtain r3 w3 where p: "poll_transcript tid w2 = (r3, w3)"
        by (cases "poll_transcript tid w2")
      from sent_poll_transcript [of tid w2] p obtain xs where xs: "sent w3 = sent w2 @ xs"
        by auto
      from u s p \<open>r1 = Inr url\<close> Inr assms
      have "ws_world (snd (snd (try_pipeline env f st))) = w3"
        by (simp add: try_pipeline_def Let_def split: sum.splits)
      then show ?thesis using k k2 r xs
        by (intro exI [of _ k] exI [of _ "replicate k2 (''POST'', ''/transcript'') @ xs"])
           (simp add: requests_sent_def)
    qed
  qed
qed

lemma try_pipeline_writes:
  "(n, t) \<in> set (new_writes st (snd (snd (try_pipeline env f st))))
   \<Longrightarrow> t_pipeline_status t \<noteq> Some ''skipped_too_short''"
proof -
  have a: "t_pipeline_status (run_speaker_identification env f (convert_response now r f))
             \<noteq> Some ''skipped_too_short''" for now r
    using status_after_identification [of "convert_response now r f" env f] by auto
  assume "(n, t) \<in> set (new_writes st (snd (snd (try_pipeline env f st))))"
  then show ?thesis
    using a
    by (auto simp: try_pipeline_def new_writes_def Let_def split: prod.splits sum.splits if_splits)
qed

lemma try_pipeline_counters:
  "ls_skipped_short (ws_listener (snd (snd (try_pipeline env f st))))
     = ls_skipped_short (ws_listener st) \<and>
   ls_submitted (ws_listener (snd (snd (try_pipeline env f st)))) = ls_submitted (ws_listener st)"
  by (simp add: try_pipeline_def Let_def split: prod.splits sum.splits)

lemma finish_pipeline_frame:
  "ws_world (finish_pipeline r tid f s) = ws_world s \<and>
   ws_writes (finish_pipeline r tid f s) = ws_writes s \<and>
   ls_skipped_short (ws_listener (finish_pipeline r tid f s)) = ls_skipped_short (ws_listener s) \<and>
   ls_submitted (ws_listener (finish_pipeline r tid f s)) = ls_submitted (ws_listener s)"
  by (simp add: finish_pipeline_def Let_def split: option.splits)

lemma submit_and_process_ungated:
  assumes "we_api_key env \<noteq> ''''"
    and "we_wav_duration env = None \<or>
         (\<exists>d. we_wav_duration env = Some d \<and> \<not> d < we_min_transcribe_seconds env)"
  shows "\<exists>r tid. submit_and_process env f st =
           finish_pipeline r tid f (snd (snd (try_pipeline env f
              (bump (\<lambda>l. l\<lparr>ls_submitted := ls_submitted l + 1, ls_pending := ls_pending l + 1\<rparr>) st))))"
  using assms by (auto simp: submit_and_process_def Let_def split: option.splits prod.splits)

text \<open>
  C9. With an API key configured: (1) a \<open>skipped_too_short\<close> transcript is written
  exactly when the duration probe returned a number below \<open>MIN_TRANSCRIBE_SECONDS\<close>;
  (2) when the probe failed (\<open>None\<close>) the gate is bypassed: the skip counter stays,
  the clip is counted as submitted, and, the file being readable, the requests the worker
  sends start with the upload (one to three \<open>POST /upload\<close> attempts), followed, when
  the service accepted the upload, by the submission \<open>POST /transcript\<close>.
\<close>

theorem unprobed_clip_bypasses_gate:
  assumes "we_api_key env \<noteq> ''''"
  shows "((\<exists>w \<in> set (new_writes st (submit_and_process env f st)).
             t_pipeline_status (snd w) = Some ''skipped_too_short'')
          \<longleftrightarrow> (\<exists>d. we_wav_duration env = Some d \<and> d < we_min_transcribe_seconds env)) \<and>
         (we_wav_duration env = None \<longrightarrow>
            ls_skipped_short (ws_listener (submit_and_process env f st))
              = ls_skipped_short (ws_listener st) \<and>
            ls_submitted (ws_listener (submit_and_process env f st))
              = ls_submitted (ws_listener st) + 1 \<and>
            (we_wav_readable env \<longrightarrow>
               (\<exists>k rest. 1 \<le> k \<and> k \<le> MAX_RETRIES \<and>
                  requests_sent st (submit_and_process env f st)
                    = replicate k (''POST'', ''/upload'') @ rest \<and>
                  (upload_accepted env st \<longrightarrow>
                     (\<exists>rest'. rest = (''POST'', ''/transcript'') # rest')))))"
proof -
  let ?st1 = "bump (\<lambda>l. l\<lparr>ls_submitted := ls_submitted l + 1, ls_pending := ls_pending l + 1\<rparr>) st"
  let ?r = "snd (snd (try_pipeline env f ?st1))"
  have gated: "\<exists>w \<in> set (new_writes st (submit_and_process env f st)).
             t_pipeline_status (snd w) = Some ''skipped_too_short''"
    if "\<exists>d. we_wav_duration env = Some d \<and> d < we_min_transcribe_seconds env"
    using that assms by (auto simp: submit_and_process_def new_writes_def)
  have ungated: "\<not> (\<exists>w \<in> set (new_writes st (submit_and_process env f st)).
             t_pipeline_status (snd w) = Some ''skipped_too_short'')"
    if n: "\<not> (\<exists>d. we_wav_duration env = Some d \<and> d < we_min_transcribe_seconds env)"
  proof -
    from n have "we_wav_duration env = None \<or>
         (\<exists>d. we_wav_duration env = Some d \<and> \<not> d < we_min_transcribe_seconds env)"
      by (cases "we_wav_duration env") auto
    from submit_and_process_ungated [OF assms this, of f st]
    obtain r tid where "submit_and_process env f st = finish_pipeline r tid f ?r"
      by blast
    then have "new_writes st (submit_and_process env f st) = new_writes ?st1 ?r"
      by (simp add: new_writes_def finish_pipeline_frame)
    with try_pipeline_writes [of _ _ ?st1 env f] show ?thesis by fastforce
  qed
  have bypass: "ls_skipped_short (ws_listener (submit_and_process env f st))
              = ls_skipped_short (ws_listener st) \<and>
            ls_submitted (ws_listener (submit_and_process env f st))
              = ls_submitted (ws_listener st) + 1 \<and>
            (we_wav_readable env \<longrightarrow>
               (\<exists>k rest. 1 \<le> k \<and> k \<le> MAX_RETRIES \<and>
                  requests_sent st (submit_and_process env f st)
                    = replicate k (''POST'', ''/upload'') @ rest \<and>
                  (upload_accepted env st \<longrightarrow>
                     (\<exists>rest'. rest = (''POST'', ''/transcript'') # rest'))))"
    if n: "we_wav_duration env = None"
  proof -
    from n submit_and_process_ungated [OF assms, of f st]
    obtain r tid where h: "submit_and_process env f st = finish_pipeline r tid f ?r"
      by blast
    have c: "ls_skipped_short (ws_listener (submit_and_process env f st))
              = ls_skipped_short (ws_listener st) \<and>
            ls_submitted (ws_listener (submit_and_process env f st))
              = ls_submitted (ws_listener st) + 1"
      using h try_pipeline_counters [of env f ?st1] by (simp add: finish_pipeline_frame)
    have q: "requests_sent st (submit_and_process env f st) = requests_sent ?st1 ?r"
      using h by (simp add: requests_sent_def finish_pipeline_frame)
    have a: "upload_accepted env ?st1 = upload_accepted env st"
      by (simp add: upload_accepted_def)
    have "\<exists>k rest. 1 \<le> k \<and> k \<le> MAX_RETRIES \<and>
                  requests_sent st (submit_and_process env f st)
                    = replicate k (''POST'', ''/upload'') @ rest \<and>
                  (upload_accepted env st \<longrightarrow>
                     (\<exists>rest'. rest = (''POST'', ''/transcript'') # rest'))"
      if rd: "we_wav_readable env"
      using try_pipeline_requests [OF rd, of ?st1 f] q a by simp
    with c show ?thesis by blast
  qed
  from gated ungated bypass show ?thesis by blast
qed

lemma unprobed_clip_run:
  "requests_sent fresh_worker (submit_and_process unprobed_clip ''a.wav'' fresh_worker)
     = [(''POST'', ''/upload''), (''POST'', ''/transcript''), (''GET'', ''/transcript/t1'')] \<and>
   map (\<lambda>w. (fst w, t_pipeline_status (snd w)))
       (ws_writes (submit_and_process unprobed_clip ''a.wav'' fresh_worker))
     = [(''a.json'', Some ''complete'')]"
  by (simp add: submit_and_process_def unprobed_clip_def fresh_worker_def accepting_service_def
      try_pipeline_def upload_audio_def submit_transcription_def poll_transcript_def
      poll_loop.simps api_request_unrolled attempt_outcome_def retryable_def after_def
      POLL_TIMEOUT_def Let_def requests_sent_def finish_pipeline_def bump_def set_job_def
      save_transcript_def run_speaker_identification_def identify_all_speakers_def
      idle_identifier_def convert_response_def path_stem_def rfind_dot_def upt_rec)

theorem unprobed_clip_bypasses_gate_witness:
  "we_api_key unprobed_clip \<noteq> '''' \<and> we_wav_duration unprobed_clip = None \<and>
   we_wav_readable unprobed_clip \<and> upload_accepted unprobed_clip fresh_worker \<and>
   ls_skipped_short (ws_listener (submit_and_process unprobed_clip ''a.wav'' fresh_worker)) = 0 \<and>
   ls_submitted (ws_listener (submit_and_process unprobed_clip ''a.wav'' fresh_worker)) = 1 \<and>
   (\<exists>k rest'. requests_sent fresh_worker (submit_and_process unprobed_clip ''a.wav'' fresh_worker)
       = replicate k (''POST'', ''/upload'') @ (''POST'', ''/transcript'') # rest')"
proof -
  have k: "we_api_key unprobed_clip \<noteq> ''''" by (simp add: unprobed_clip_def)
  have d: "we_wav_duration unprobed_clip = None" by (simp add: unprobed_clip_def)
  have r: "we_wav_readable unprobed_clip" by (simp add: unprobed_clip_def)
  have a: "upload_accepted unprobed_clip fresh_worker"
    by (simp add: upload_accepted_def unprobed_clip_def fresh_worker_def accepting_service_def
        upload_audio_def api_request_unrolled attempt_outcome_def retryable_def)
  have z: "ls_skipped_short (ws_listener fresh_worker) = 0" "ls_submitted (ws_listener fresh_worker) = 0"
    by (simp_all add: fresh_worker_def)
  from unprobed_clip_bypasses_gate [OF k, of fresh_worker "''a.wav''"] d r a z k
  show ?thesis by auto
qed

section \<open>The unknown-speaker tracker: promoting a cluster to a candidate\<close>

text \<open>
  An embedding is a vector of numbers, modelled as a list of reals with exact
  arithmetic. The one place where numpy's floating point shows through exact
  arithmetic is a division by zero: \<open>np.dot(a, b) / (norm(a) * norm(b))\<close> is
  \<open>0.0 / 0.0 = nan\<close> when a vector is all zero, the mean of an empty array is
  \<open>nan\<close>, and every comparison with \<open>nan\<close> is false. The model keeps that case:
  a computed number is \<open>Num x\<close> or \<open>NaN\<close>.
\<close>

datatype npfloat = Num real | NaN

type_synonym embedding = "real list"

definition gt :: "npfloat \<Rightarrow> real \<Rightarrow> bool" where
  "gt a b = (case a of NaN \<Rightarrow> False | Num x \<Rightarrow> x > b)"

definition dot :: "embedding \<Rightarrow> embedding \<Rightarrow> real" where
  "dot a b = sum_list (map2 (*) a b)"

definition l2norm :: "embedding \<Rightarrow> real" where
  "l2norm a = sqrt (dot a a)"

definition cosine_distance :: "embedding \<Rightarrow> embedding \<Rightarrow> npfloat" where
  "cosine_distance a b =
     (if l2norm a * l2norm b = 0 then NaN else Num (1 - dot a b / (l2norm a * l2norm b)))"

definition npmean :: "npfloat list \<Rightarrow> npfloat" where
  "npmean xs =
     (if xs = [] \<or> NaN \<in> set xs then NaN
      else Num (sum_list (map (\<lambda>x. case x of Num r \<Rightarrow> r | NaN \<Rightarrow> 0) xs) / real (length xs)))"

text \<open>The double loop \<open>for i in range(n): for j in range(i + 1, n)\<close>.\<close>

fun pairwise_distances :: "embedding list \<Rightarrow> npfloat list" where
  "pairwise_distances [] = []"
| "pairwise_distances (e # es) = map (cosine_distance e) es @ pairwise_distances es"

definition compute_self_consistency :: "embedding list \<Rightarrow> npfloat option" where
  "compute_self_consistency embeddings =
     (if length embeddings < 2 then None else Some (npmean (pairwise_distances embeddings)))"

definition column :: "embedding list \<Rightarrow> nat \<Rightarrow> real list" where
  "column embeddings k = map (\<lambda>e. e ! k) embeddings"

definition mean :: "real list \<Rightarrow> real" where
  "mean xs = sum_list xs / real (length xs)"

text \<open>\<open>np.var\<close> of one column: the population variance.\<close>

definition var_pop :: "real list \<Rightarrow> real" where
  "var_pop xs = mean (map (\<lambda>x. (x - mean xs)\<^sup>2) xs)"

text \<open>\<open>np.var(embeddings, axis=0).mean()\<close>, for a non-empty list of vectors of one
  dimension.\<close>

definition variance_of :: "embedding list \<Rightarrow> npfloat" where
  "variance_of embeddings =
     (let d = length (hd embeddings) in
      if d = 0 then NaN else Num (mean (map (\<lambda>k. var_pop (column embeddings k)) [0..<d])))"

definition centroid :: "embedding list \<Rightarrow> embedding" where
  "centroid embeddings =
     (let avg = map (\<lambda>k. mean (column embeddings k)) [0..<length (hd embeddings)];
          norm = l2norm avg
      in if norm > 0 then map (\<lambda>x. x / norm) avg else avg)"

text \<open>\<open>round(max(0.20, min(0.50, consistency * 3)), 2)\<close>; with \<open>nan\<close> the \<open>min\<close>
  keeps 0.50.\<close>

definition auto_threshold :: "npfloat option \<Rightarrow> real" where
  "auto_threshold consistency =
     (case consistency of
        None \<Rightarrow> 0.35
      | Some NaN \<Rightarrow> py_round_to 2 0.50
      | Some (Num c) \<Rightarrow> py_round_to 2 (max 0.20 (min 0.50 (c * 3))))"

definition round_consistency :: "npfloat \<Rightarrow> npfloat" where
  "round_consistency c = (case c of NaN \<Rightarrow> NaN | Num x \<Rightarrow> Num (py_round_to 4 x))"

record candidate =
  c_speaker_id :: string
  c_num_samples :: nat
  c_avg_embedding :: embedding
  c_variance :: npfloat
  c_self_consistency :: "npfloat option"
  c_auto_threshold :: real
  c_status :: string
  c_suggested_name :: "string option"

text \<open>
  The tracker's directories: the vectors of the \<open>*.npy\<close> files of each cluster
  directory, in the order \<open>glob\<close> lists them, and the candidate files. The creation
  time and the copied sample metadata of a candidate are left out.
\<close>

record tracker =
  tr_embeddings :: "string \<Rightarrow> embedding list"
  tr_candidates :: "string \<Rightarrow> candidate option"

definition min_samples :: nat where "min_samples = 10"

definition same_dimension :: "embedding list \<Rightarrow> bool" where
  "same_dimension embeddings = (\<forall>e \<in> set embeddings. length e = length (hd embeddings))"

text \<open>
  \<open>UnknownSpeakerTracker._check_candidate\<close> of speaker_verify.py. The result is the
  candidate the call writes, if it writes one. numpy raises on vectors of different
  dimensions; nothing is written then.
\<close>

definition check_candidate :: "real \<Rightarrow> tracker \<Rightarrow> string \<Rightarrow> candidate option" where
  "check_candidate max_variance tr speaker_id =
     (let embeddings = tr_embeddings tr speaker_id in
      if length embeddings < min_samples then None
      else if tr_candidates tr speaker_id \<noteq> None then None
      else if \<not> same_dimension embeddings then None
      else let variance = variance_of embeddings in
        if gt variance max_variance then None
        else let self_consistency = compute_self_consistency embeddings in
          if (case self_consistency of None \<Rightarrow> False | Some c \<Rightarrow> gt c 0.15) then None
          else Some \<lparr>c_speaker_id = speaker_id, c_num_samples = length embeddings,
                     c_avg_embedding = centroid embeddings, c_variance = variance,
                     c_self_consistency = map_option round_consistency self_consistency,
                     c_auto_threshold = (if self_consistency \<noteq> None
                                         then auto_threshold self_consistency else 0.25),
                     c_status = ''pending_review'', c_suggested_name = None\<rparr>)"

text \<open>
  The same gate in scripts/voice/unknown_speaker_tracker.py, split there into
  \<open>_check_candidate_ready\<close> and \<open>_create_candidate\<close>.
\<close>

definition create_candidate :: "real \<Rightarrow> string \<Rightarrow> embedding list \<Rightarrow> candidate option" where
  "create_candidate max_candidate_variance speaker_id embeddings =
     (if \<not> same_dimension embeddings then None
      else let variance = variance_of embeddings in
        if gt variance max_candidate_variance then None
        else let self_consistency = compute_self_consistency embeddings in
          if (case self_consistency of None \<Rightarrow> False | Some c \<Rightarrow> gt c 0.15) then None
          else let threshold = (case self_consistency of
                                  None \<Rightarrow> 0.25
                                | Some c \<Rightarrow> auto_threshold (Some c))
            in Some \<lparr>c_speaker_id = speaker_id, c_num_samples = length embeddings,
                       c_avg_embedding = centroid embeddings, c_variance = variance,
                       c_self_consistency = map_option round_consistency self_consistency,
                       c_auto_threshold = threshold,
                       c_status = ''pending_review'', c_suggested_name = None\<rparr>)"

definition check_candidate_ready :: "real \<Rightarrow> tracker \<Rightarrow> string \<Rightarrow> candidate option" where
  "check_candidate_ready max_candidate_variance tr speaker_id =
     (let embedding_files = tr_embeddings tr speaker_id in
      if length embedding_files \<ge> min_samples
      then (if tr_candidates tr speaker_id = None
            then create_candidate max_candidate_variance speaker_id embedding_files else None)
      else None)"

text \<open>\<open>add_sample\<close>: save the vector in the cluster directory, then run the check.\<close>

definition add_sample :: "real \<Rightarrow> tracker \<Rightarrow> string \<Rightarrow> embedding \<Rightarrow> tracker" where
  "add_sample max_variance tr speaker_id embedding =
     (let tr1 = tr\<lparr>tr_embeddings := (tr_embeddings tr)
                      (speaker_id := tr_embeddings tr speaker_id @ [embedding])\<rparr>
      in case check_candidate max_variance tr1 speaker_id of
           None \<Rightarrow> tr1
         | Some c \<Rightarrow> tr1\<lparr>tr_candidates := (tr_candidates tr1)(speaker_id := Some c)\<rparr>)"

text \<open>Vocabulary: the quality a candidate file records, and non-zero vectors.\<close>

definition records_quality :: "real \<Rightarrow> candidate \<Rightarrow> bool" where
  "records_quality max_variance c =
     ((\<exists>v. c_variance c = Num v \<and> v \<le> max_variance) \<and>
      (\<exists>s. c_self_consistency c = Some (Num s) \<and> s \<le> 0.15))"

definition nonzero :: "embedding \<Rightarrow> bool" where
  "nonzero e = (\<exists>x \<in> set e. x \<noteq> 0)"

definition pending_candidates_ok :: "real \<Rightarrow> tracker \<Rightarrow> bool" where
  "pending_candidates_ok max_variance tr =
     (\<forall>sid c. tr_candidates tr sid = Some c \<and> c_status c = ''pending_review''
        \<longrightarrow> records_quality max_variance c)"

definition ten :: "'a \<Rightarrow> 'a list" where
  "ten x = [x, x, x, x, x, x, x, x, x, x]"

definition steady_cluster :: tracker where
  "steady_cluster =
     \<lparr>tr_embeddings = (\<lambda>sid. if sid = ''unknown_A'' then ten [1, 0] else []),
      tr_candidates = (\<lambda>sid. None)\<rparr>"

subsection \<open>The gate\<close>

lemma create_candidate_same:
  "check_candidate_ready mv tr sid = check_candidate mv tr sid"
  by (auto simp: check_candidate_ready_def check_candidate_def create_candidate_def Let_def
      split: option.splits)

lemma py_round_le:
  assumes "x \<le> of_int n"
  shows "py_round x \<le> n"
proof (cases "\<lfloor>x\<rfloor> = n")
  case True
  with assms have "x = of_int n" by linarith
  then show ?thesis by (simp add: py_round_def)
next
  case False
  with assms have "\<lfloor>x\<rfloor> < n" by (simp add: floor_le_iff order.strict_iff_order)
  then show ?thesis by (auto simp: py_round_def Let_def)
qed

lemma py_round_to_4_le:
  assumes "s \<le> 0.15"
  shows "py_round_to 4 s \<le> 0.15"
proof -
  from assms have "s * 10 ^ 4 \<le> of_int 1500" by simp
  then have "py_round (s * 10 ^ 4) \<le> 1500" by (rule py_round_le)
  then have "real_of_int (py_round (s * 10 ^ 4)) \<le> 1500" by linarith
  then show ?thesis by (simp add: py_round_to_def)
qed

lemma dot_self_nonneg: "0 \<le> dot a a"
  unfolding dot_def by (induction a) auto

lemma dot_self_pos: "nonzero a \<Longrightarrow> 0 < dot a a"
  unfolding dot_def nonzero_def
proof (induction a)
  case Nil
  then show ?case by simp
next
  case (Cons x xs)
  have nn: "0 \<le> sum_list (map2 (*) xs xs)" using dot_self_nonneg [of xs] by (simp add: dot_def)
  show ?case
  proof (cases "x = 0")
    case True
    with Cons show ?thesis by auto
  next
    case False
    then have "0 < x * x" by (auto simp: zero_less_mult_iff)
    with nn show ?thesis by simp
  qed
qed

lemma l2norm_pos: "nonzero a \<Longrightarrow> 0 < l2norm a"
  by (simp add: l2norm_def dot_self_pos)

lemma cosine_distance_Num:
  "nonzero a \<Longrightarrow> nonzero b \<Longrightarrow> \<exists>r. cosine_distance a b = Num r"
  using l2norm_pos [of a] l2norm_pos [of b] by (simp add: cosine_distance_def)

lemma pairwise_distances_Num:
  "\<forall>e \<in> set es. nonzero e \<Longrightarrow> NaN \<notin> set (pairwise_distances es)"
proof (induction es)
  case Nil
  then show ?case by simp
next
  case (Cons e es)
  have "NaN \<noteq> cosine_distance e b" if "b \<in> set es" for b
    using cosine_distance_Num [of e b] Cons.prems that by auto
  with Cons show ?case by auto
qed

lemma pairwise_distances_nonempty:
  assumes "2 \<le> length es"
  shows "pairwise_distances es \<noteq> []"
proof -
  from assms obtain a b rest where "es = a # b # rest"
    by (cases es; cases "tl es") auto
  then show ?thesis by simp
qed

lemma self_consistency_Num:
  assumes "2 \<le> length es" "\<forall>e \<in> set es. nonzero e"
  shows "\<exists>s. compute_self_consistency es = Some (Num s)"
  using assms pairwise_distances_Num [of es] pairwise_distances_nonempty [of es]
  by (simp add: compute_self_consistency_def npmean_def)

lemma variance_Num:
  assumes "es \<noteq> []" "\<forall>e \<in> set es. nonzero e"
  shows "\<exists>v. variance_of es = Num v"
proof -
  from assms have "nonzero (hd es)" by simp
  then have "hd es \<noteq> []" by (auto simp: nonzero_def)
  then show ?thesis by (simp add: variance_of_def Let_def)
qed

lemma check_candidate_gate:
  assumes "check_candidate mv tr sid = Some c"
  shows "min_samples \<le> length (tr_embeddings tr sid) \<and> tr_candidates tr sid = None \<and>
         c_status c = ''pending_review'' \<and> \<not> gt (variance_of (tr_embeddings tr sid)) mv \<and>
         (\<forall>s. compute_self_consistency (tr_embeddings tr sid) = Some s \<longrightarrow> \<not> gt s 0.15) \<and>
         c_variance c = variance_of (tr_embeddings tr sid) \<and>
         c_self_consistency c
           = map_option round_consistency (compute_self_consistency (tr_embeddings tr sid))"
  using assms
  by (auto simp: check_candidate_def Let_def split: if_splits option.splits)

lemma check_candidate_quality:
  assumes c: "check_candidate mv tr sid = Some c"
    and nz: "\<forall>e \<in> set (tr_embeddings tr sid). nonzero e"
  shows "\<exists>v s. variance_of (tr_embeddings tr sid) = Num v \<and> v \<le> mv \<and>
           compute_self_consistency (tr_embeddings tr sid) = Some (Num s) \<and> s \<le> 0.15 \<and>
           c_variance c = Num v \<and> c_self_consistency c = Some (Num (py_round_to 4 s)) \<and>
           py_round_to 4 s \<le> 0.15"
proof -
  let ?es = "tr_embeddings tr sid"
  note g = check_candidate_gate [OF c]
  from g have n: "10 \<le> length ?es" by (simp add: min_samples_def)
  then have ne: "?es \<noteq> []" by auto
  from variance_Num [OF ne nz] obtain v where v: "variance_of ?es = Num v" by blast
  from n have "2 \<le> length ?es" by simp
  from self_consistency_Num [OF this nz] obtain s
    where s: "compute_self_consistency ?es = Some (Num s)" by blast
  from g v have vle: "v \<le> mv" by (simp add: gt_def)
  from g s have sle: "s \<le> 0.15" by (auto simp: gt_def)
  from g v s have "c_variance c = Num v" "c_self_consistency c = Some (Num (py_round_to 4 s))"
    by (simp_all add: round_consistency_def)
  with v s vle sle py_round_to_4_le [OF sle] show ?thesis by blast
qed

lemma add_sample_keeps_quality:
  assumes inv: "pending_candidates_ok mv tr"
    and nz: "\<forall>x \<in> set (tr_embeddings tr sid @ [e]). nonzero x"
  shows "pending_candidates_ok mv (add_sample mv tr sid e)"
proof -
  let ?tr1 = "tr\<lparr>tr_embeddings := (tr_embeddings tr)(sid := tr_embeddings tr sid @ [e])\<rparr>"
  show ?thesis
  proof (cases "check_candidate mv ?tr1 sid")
    case None
    with inv show ?thesis by (simp add: add_sample_def pending_candidates_ok_def)
  next
    case (Some c)
    from nz have "\<forall>x \<in> set (tr_embeddings ?tr1 sid). nonzero x" by simp
    from check_candidate_quality [OF Some this] have "records_quality mv c"
      by (auto simp: records_quality_def)
    with inv Some show ?thesis
      by (auto simp: add_sample_def pending_candidates_ok_def)
  qed
qed

text \<open>
  What the gate ensures. A call of the check writes a candidate, with status
  \<open>pending_review\<close>, only for a cluster that has at least \<open>min_samples\<close> = 10 vectors
  and no candidate file yet, whose variance is not above \<open>max_variance\<close> and whose
  self-consistency is not above 0.15, both in the sense of the comparison \<open>>\<close> of the
  source, which is false for \<open>nan\<close>; the tracker of scripts/voice decides the same.
  For a cluster of non-zero vectors both quantities are numbers: the variance is at most
  \<open>max_variance\<close>, the self-consistency at most 0.15, and the file records that
  variance and the self-consistency rounded to four decimals, again at most 0.15.
\<close>

lemma check_candidate_bounds:
  "(check_candidate mv tr sid = Some c \<longrightarrow>
      min_samples \<le> length (tr_embeddings tr sid) \<and> tr_candidates tr sid = None \<and>
      c_status c = ''pending_review'' \<and> \<not> gt (variance_of (tr_embeddings tr sid)) mv \<and>
      (\<forall>s. compute_self_consistency (tr_embeddings tr sid) = Some s \<longrightarrow> \<not> gt s 0.15) \<and>
      ((\<forall>e \<in> set (tr_embeddings tr sid). nonzero e) \<longrightarrow>
         (\<exists>v s. variance_of (tr_embeddings tr sid) = Num v \<and> v \<le> mv \<and>
            compute_self_consistency (tr_embeddings tr sid) = Some (Num s) \<and> s \<le> 0.15 \<and>
            c_variance c = Num v \<and> c_self_consistency c = Some (Num (py_round_to 4 s)) \<and>
            py_round_to 4 s \<le> 0.15))) \<and>
   check_candidate_ready mv tr sid = check_candidate mv tr sid \<and>
   (pending_candidates_ok mv tr \<and> (\<forall>x \<in> set (tr_embeddings tr sid @ [e]). nonzero x)
      \<longrightarrow> pending_candidates_ok mv (add_sample mv tr sid e))"
  using check_candidate_gate [of mv tr sid c] check_candidate_quality [of mv tr sid c]
    create_candidate_same [of mv tr sid] add_sample_keeps_quality [of mv tr sid e]
  by blast

lemma steady_cluster_values:
  "variance_of (ten [1, 0]) = Num 0 \<and> compute_self_consistency (ten [1, 0]) = Some (Num 0) \<and>
   centroid (ten [1, 0]) = [1, 0] \<and> same_dimension (ten [1, 0])"
  by (simp add: ten_def variance_of_def compute_self_consistency_def npmean_def
      cosine_distance_def l2norm_def dot_def centroid_def same_dimension_def column_def
      mean_def var_pop_def upt_rec Let_def)

lemma steady_cluster_candidate:
  "check_candidate 20 steady_cluster ''unknown_A'' =
     Some \<lparr>c_speaker_id = ''unknown_A'', c_num_samples = 10, c_avg_embedding = [1, 0],
           c_variance = Num 0, c_self_consistency = Some (Num 0), c_auto_threshold = 0.2,
           c_status = ''pending_review'', c_suggested_name = None\<rparr>"
  using steady_cluster_values
  by (simp add: check_candidate_def steady_cluster_def min_samples_def gt_def Let_def
      round_consistency_def auto_threshold_def py_round_to_def py_round_def)
     (simp add: ten_def)

subsection \<open>A cluster of zero vectors\<close>

text \<open>Nine zero vectors collected for a cluster, and the tenth arriving.\<close>

definition nine_zeros :: tracker where
  "nine_zeros =
     \<lparr>tr_embeddings = (\<lambda>sid. if sid = ''unknown_Z''
          then [[0, 0], [0, 0], [0, 0], [0, 0], [0, 0], [0, 0], [0, 0], [0, 0], [0, 0]] else []),
      tr_candidates = (\<lambda>sid. None)\<rparr>"

definition zero_candidate :: candidate where
  "zero_candidate =
     \<lparr>c_speaker_id = ''unknown_Z'', c_num_samples = 10, c_avg_embedding = [0, 0],
      c_variance = Num 0, c_self_consistency = Some NaN, c_auto_threshold = 0.5,
      c_status = ''pending_review'', c_suggested_name = None\<rparr>"

lemma zero_cluster_values:
  "variance_of (ten [0, 0]) = Num 0 \<and> compute_self_consistency (ten [0, 0]) = Some NaN \<and>
   centroid (ten [0, 0]) = [0, 0] \<and> same_dimension (ten [0, 0])"
  by (simp add: ten_def variance_of_def compute_self_consistency_def npmean_def
      cosine_distance_def l2norm_def dot_def centroid_def same_dimension_def column_def
      mean_def var_pop_def upt_rec Let_def)

lemma zero_cluster_check:
  "check_candidate 20 (tr\<lparr>tr_embeddings := (tr_embeddings tr)(''unknown_Z'' := ten [0, 0]),
                          tr_candidates := (\<lambda>sid. None)\<rparr>) ''unknown_Z''
     = Some zero_candidate"
  using zero_cluster_values
  by (simp add: check_candidate_def min_samples_def gt_def Let_def zero_candidate_def
      round_consistency_def auto_threshold_def py_round_to_def py_round_def)
     (simp add: ten_def)

text \<open>
  C8. The claim does not hold of the code for a cluster of zero vectors. When the tenth
  zero vector is added, the variance of the cluster is 0 and its self-consistency is
  \<open>nan\<close> (every cosine is \<open>0.0 / 0.0\<close>); \<open>nan > 0.15\<close> is false, so the gate lets the
  cluster pass, and \<open>add_sample\<close> writes a candidate with status \<open>pending_review\<close>
  whose recorded \<open>self_consistency\<close> is \<open>nan\<close>, not a number of at most 0.15. The
  tracker of scripts/voice writes the same candidate.
\<close>

theorem zero_cluster_becomes_candidate:
  "length (tr_embeddings nine_zeros ''unknown_Z'') = 9 \<and>
   tr_candidates nine_zeros ''unknown_Z'' = None \<and>
   variance_of (tr_embeddings nine_zeros ''unknown_Z'' @ [[0, 0]]) = Num 0 \<and>
   compute_self_consistency (tr_embeddings nine_zeros ''unknown_Z'' @ [[0, 0]]) = Some NaN \<and>
   tr_candidates (add_sample 20 nine_zeros ''unknown_Z'' [0, 0]) ''unknown_Z'' = Some zero_candidate \<and>
   check_candidate_ready 20
       (nine_zeros\<lparr>tr_embeddings := (tr_embeddings nine_zeros)
            (''unknown_Z'' := tr_embeddings nine_zeros ''unknown_Z'' @ [[0, 0]])\<rparr>) ''unknown_Z''
     = Some zero_candidate \<and>
   c_status zero_candidate = ''pending_review'' \<and>
   c_self_consistency zero_candidate = Some NaN \<and>
   \<not> records_quality 20 zero_candidate"
proof -
  have e: "tr_embeddings nine_zeros ''unknown_Z'' @ [[0, 0]] = ten [0, 0]"
    by (simp add: nine_zeros_def ten_def)
  have t: "nine_zeros\<lparr>tr_embeddings := (tr_embeddings nine_zeros)
            (''unknown_Z'' := tr_embeddings nine_zeros ''unknown_Z'' @ [[0, 0]])\<rparr>
      = nine_zeros\<lparr>tr_embeddings := (tr_embeddings nine_zeros)(''unknown_Z'' := ten [0, 0]),
                   tr_candidates := (\<lambda>sid. None)\<rparr>"
    by (simp add: e) (simp add: nine_zeros_def)
  have c: "check_candidate 20 (nine_zeros\<lparr>tr_embeddings := (tr_embeddings nine_zeros)
            (''unknown_Z'' := tr_embeddings nine_zeros ''unknown_Z'' @ [[0, 0]])\<rparr>) ''unknown_Z''
      = Some zero_candidate"
    unfolding t by (rule zero_cluster_check)
  have a: "tr_candidates (add_sample 20 nine_zeros ''unknown_Z'' [0, 0]) ''unknown_Z''
      = Some zero_candidate"
    by (simp add: add_sample_def Let_def c)
  have r: "check_candidate_ready 20 (nine_zeros\<lparr>tr_embeddings := (tr_embeddings nine_zeros)
            (''unknown_Z'' := tr_embeddings nine_zeros ''unknown_Z'' @ [[0, 0]])\<rparr>) ''unknown_Z''
      = Some zero_candidate"
    by (simp add: create_candidate_same c)
  have n: "length (tr_embeddings nine_zeros ''unknown_Z'') = 9"
    "tr_candidates nine_zeros ''unknown_Z'' = None"
    by (simp_all add: nine_zeros_def)
  have q: "c_status zero_candidate = ''pending_review''"
    "c_self_consistency zero_candidate = Some NaN" "\<not> records_quality 20 zero_candidate"
    by (simp_all add: zero_candidate_def records_quality_def)
  from zero_cluster_values e have v: "variance_of (tr_embeddings nine_zeros ''unknown_Z'' @ [[0, 0]]) = Num 0"
    "compute_self_consistency (tr_embeddings nine_zeros ''unknown_Z'' @ [[0, 0]]) = Some NaN"
    by simp_all
  from n v a r q show ?thesis by simp
qed

section \<open>The orchestrator\<close>

subsection \<open>More Python helpers\<close>

text \<open>
  \<open>str.isspace\<close> of one character, by its code point: the characters CPython
  counts as white space, which are the ones \<open>str.strip()\<close> removes. A \<open>char\<close>
  holds a code point below 256, so that of these only the ones up to \<open>0xA0\<close> occur in a
  \<open>string\<close>.
\<close>

definition is_space_code :: "nat \<Rightarrow> bool" where
  "is_space_code n =
     ((0x09 \<le> n \<and> n \<le> 0x0D) \<or> (0x1C \<le> n \<and> n \<le> 0x20) \<or> n = 0x85 \<or> n = 0xA0 \<or>
      n = 0x1680 \<or> (0x2000 \<le> n \<and> n \<le> 0x200A) \<or> n = 0x2028 \<or> n = 0x2029 \<or>
      n = 0x202F \<or> n = 0x205F \<or> n = 0x3000)"

definition is_space :: "char \<Rightarrow> bool" where
  "is_space c = is_space_code (of_char c)"

text \<open>\<open>str.strip()\<close>\<close>

definition py_strip :: "string \<Rightarrow> string" where
  "py_strip s = rev (dropWhile is_space (rev (dropWhile is_space s)))"

fun join :: "string \<Rightarrow> string list \<Rightarrow> string" where
  "join sep [] = []"
| "join sep [x] = x"
| "join sep (x # y # ys) = x @ sep @ join sep (y # ys)"

text \<open>\<open>max(xs, default=0)\<close>\<close>

fun max_list :: "real list \<Rightarrow> real" where
  "max_list [] = 0"
| "max_list [x] = x"
| "max_list (x # y # ys) = max x (max_list (y # ys))"

subsection \<open>Job entries, the manifest and the directories\<close>

record stages =
  sg_ingested :: "string option"
  sg_transcribed :: "string option"
  sg_speaker_id :: "string option"
  sg_curator_synced :: "string option"

record job_entry =
  j_source :: string
  j_audioFile :: string
  j_createdAt :: string
  j_status :: string
  j_stages :: stages
  j_pipelineStatus :: string
  j_identified :: "(string \<times> string) list"
  j_unidentified :: "string list"
  j_playbackFile :: "string option"
  j_curatorPath :: "string option"
  j_error :: "string option"

text \<open>A parsed time stamp: what \<open>isoformat()\<close>, \<open>strftime("%Y/%m/%d")\<close> and
  \<open>strftime("%H-%M-%S")\<close> give for it.\<close>

record stamp =
  ts_iso :: string
  ts_ymd :: string
  ts_hms :: string

record curator_doc =
  cd_timestamp :: string
  cd_duration :: int
  cd_transcript :: string
  cd_audioPath :: "string option"
  cd_speakers :: "(string \<times> string option) list"
  cd_numSpeakers :: nat
  cd_utterances :: "(string \<times> string \<times> real \<times> real) list"
  cd_source :: string
  cd_model :: string
  cd_diarization :: bool
  cd_pipeline_status :: string
  cd_speaker_id_error :: "string option"
  cd_speaker_id_retry_count :: int

text \<open>
  What a cycle reads from outside: the clock, the parser of ISO time stamps
  (\<open>datetime.fromisoformat\<close>, \<open>None\<close> for \<open>ValueError\<close>) and the two settings.
  One cycle sees one value of the clock.
\<close>

record orch_env =
  oe_now_iso :: string
  oe_now :: stamp
  oe_time :: real
  oe_fromisoformat :: "string \<Rightarrow> stamp option"
  oe_min_playback_duration :: real
  oe_orphan_age_hours :: nat

text \<open>
  The state of a cycle. The job entries are Python dicts, held by reference: \<open>jobs\<close>
  maps a stem to the address of its entry and \<open>heap\<close> gives the entry at an
  address, so that two names of one dict read the same entry. The directories:
  inbox/ (file name and modification time), done/ (file name, modification time and
  parsed JSON, \<open>None\<close> when the file does not parse), the markers
  \<open>done/<stem>.json.synced\<close> with their modification time, playback/, and the
  curator tree and its \<open>_pending\<close> tree, each a map from the date directory to its
  files in the order \<open>glob\<close> lists them (\<open>None\<close> for a file that does not parse).
\<close>

record orch =
  heap :: "nat \<Rightarrow> job_entry"
  next_ref :: nat
  jobs :: "string \<Rightarrow> nat option"
  changed :: bool
  inbox :: "(string \<times> real) list"
  done_dir :: "(string \<times> real \<times> transcript option) list"
  markers :: "string \<Rightarrow> real option"
  playback :: "string set"
  curator :: "string \<Rightarrow> (string \<times> curator_doc option) list"
  pending :: "string \<Rightarrow> (string \<times> curator_doc option) list"

definition get_transcript_data :: "orch \<Rightarrow> string \<Rightarrow> transcript option" where
  "get_transcript_data st stem =
     (case map_of (done_dir st) (stem @ ''.json'') of
        None \<Rightarrow> None
      | Some (mtime, content) \<Rightarrow> content)"

definition get_duration :: "transcript \<Rightarrow> real" where
  "get_duration data =
     (case (case t_assemblyai data of None \<Rightarrow> None | Some a \<Rightarrow> aai_audio_duration a) of
        Some d \<Rightarrow> if d \<noteq> 0 then d
                  else if t_segments data \<noteq> []
                    then max_list (map (\<lambda>s. case seg_end s of None \<Rightarrow> 0 | Some e \<Rightarrow> e) (t_segments data))
                  else 0
      | None \<Rightarrow> if t_segments data \<noteq> []
                  then max_list (map (\<lambda>s. case seg_end s of None \<Rightarrow> 0 | Some e \<Rightarrow> e) (t_segments data))
                else 0)"

definition get_source :: "string \<Rightarrow> string" where
  "get_source stem = (if startswith stem ''gdrive_'' then ''watch_folder'' else ''microphone'')"

text \<open>\<open>data.get("timestamp") or now_iso()\<close>\<close>

definition timestamp_or_now :: "orch_env \<Rightarrow> transcript \<Rightarrow> string" where
  "timestamp_or_now env data = (if truthy (t_timestamp data) then the (t_timestamp data) else oe_now_iso env)"

definition fresh_entry :: "orch_env \<Rightarrow> string \<Rightarrow> transcript \<Rightarrow> job_entry" where
  "fresh_entry env stem data =
     \<lparr>j_source = get_source stem, j_audioFile = stem @ ''.wav'',
      j_createdAt = timestamp_or_now env data, j_status = '''',
      j_stages = \<lparr>sg_ingested = None, sg_transcribed = None, sg_speaker_id = None,
                   sg_curator_synced = None\<rparr>,
      j_pipelineStatus = '''', j_identified = [], j_unidentified = [],
      j_playbackFile = None, j_curatorPath = None, j_error = None\<rparr>"

text \<open>The assignments \<open>build_job_entry\<close> makes to the dict \<open>entry\<close>.\<close>

definition update_entry :: "orch_env \<Rightarrow> orch \<Rightarrow> string \<Rightarrow> transcript \<Rightarrow> job_entry \<Rightarrow> job_entry" where
  "update_entry env st stem data entry =
     (let s0 = j_stages entry;
          s1 = (if \<not> truthy (sg_ingested s0)
                then s0\<lparr>sg_ingested := Some (timestamp_or_now env data)\<rparr> else s0);
          s2 = (if aai_status_of data = Some ''completed'' \<and> \<not> truthy (sg_transcribed s1)
                then s1\<lparr>sg_transcribed := Some (oe_now_iso env)\<rparr> else s1);
          s3 = (if pipeline_status_of data \<in> {''complete'', ''complete_no_speaker_id'',
                     ''speaker_id_failed''} \<and> \<not> truthy (sg_speaker_id s2)
                then s2\<lparr>sg_speaker_id := Some (oe_now_iso env)\<rparr> else s2)
      in entry\<lparr>j_status := determine_status data,
               j_pipelineStatus := pipeline_status_of data,
               j_identified := identified_of data,
               j_unidentified := unidentified_of data,
               j_error := t_speaker_id_error data,
               j_stages := s3,
               j_playbackFile := (if stem @ ''.wav'' \<in> playback st then Some (stem @ ''.wav'')
                                  else None)\<rparr>)"

text \<open>
  \<open>build_job_entry(stem, data, existing)\<close>. The line \<open>entry = existing or {...}\<close>
  binds \<open>entry\<close> to the dict \<open>existing\<close> itself when there is one (a job entry is a
  non-empty dict, hence true), and to a new dict otherwise; the assignments then write
  into that dict. The result is the address of \<open>entry\<close>: the address given, with the
  entry there updated in place, or a newly allocated one.
\<close>

definition build_job_entry :: "orch_env \<Rightarrow> string \<Rightarrow> transcript \<Rightarrow> nat option \<Rightarrow> orch \<Rightarrow> nat \<times> orch" where
  "build_job_entry env stem data existing st =
     (case existing of
        Some r \<Rightarrow> (r, st\<lparr>heap := (heap st)(r := update_entry env st stem data (heap st r))\<rparr>)
      | None \<Rightarrow>
          (next_ref st,
           st\<lparr>heap := (heap st)(next_ref st := update_entry env st stem data (fresh_entry env stem data)),
              next_ref := next_ref st + 1\<rparr>))"

subsection \<open>Publication to the curator tree\<close>

text \<open>The loop of \<open>convert_to_curator_format\<close> that collects the speakers.\<close>

fun collect_speakers :: "segment list \<Rightarrow> (string \<times> string option) list \<Rightarrow> (string \<times> string option) list" where
  "collect_speakers [] m = m"
| "collect_speakers (s # ss) m =
     (if py_strip (get_str (seg_text s) '''') = '''' then collect_speakers ss m
      else let sid = get_str (seg_speaker s) ''unknown''; sname = seg_speaker_name s in
        collect_speakers ss
          (case map_of m sid of
             None \<Rightarrow> m @ [(sid, sname)]
           | Some name \<Rightarrow> if truthy sname \<and> \<not> truthy name then AList.update sid sname m else m))"

definition utterance_of :: "segment \<Rightarrow> string \<times> string \<times> real \<times> real" where
  "utterance_of s =
     ((if truthy (seg_speaker_name s) then the (seg_speaker_name s)
       else get_str (seg_speaker s) ''unknown''),
      py_strip (get_str (seg_text s) ''''),
      (case seg_start s of None \<Rightarrow> 0 | Some x \<Rightarrow> x),
      (case seg_end s of None \<Rightarrow> 0 | Some x \<Rightarrow> x))"

definition parse_timestamp :: "orch_env \<Rightarrow> transcript \<Rightarrow> stamp" where
  "parse_timestamp env data =
     (if truthy (t_timestamp data)
      then (case oe_fromisoformat env (the (t_timestamp data)) of
              Some ts \<Rightarrow> ts | None \<Rightarrow> oe_now env)
      else oe_now env)"

definition full_text :: "transcript \<Rightarrow> string" where
  "full_text data =
     py_strip (join '' '' (map (\<lambda>s. py_strip (get_str (seg_text s) '''')) (t_segments data)))"

definition convert_to_curator_format :: "orch_env \<Rightarrow> transcript \<Rightarrow> curator_doc \<times> stamp" where
  "convert_to_curator_format env data =
     (let segments = t_segments data;
          duration = max_list (map (\<lambda>s. case seg_end s of None \<Rightarrow> 0 | Some e \<Rightarrow> e) segments);
          speakers_map = collect_speakers segments [];
          spoken = filter (\<lambda>s. py_strip (get_str (seg_text s) '''') \<noteq> '''') segments;
          ts = parse_timestamp env data
      in (\<lparr>cd_timestamp = (if endswith (ts_iso ts) ''Z'' then ts_iso ts else ts_iso ts @ ''Z''),
           cd_duration = py_round duration,
           cd_transcript = full_text data,
           cd_audioPath = Some (get_str (t_file data) ''''),
           cd_speakers = speakers_map,
           cd_numSpeakers = length speakers_map,
           cd_utterances = map utterance_of spoken,
           cd_source = ''voice-passive'',
           cd_model = get_str (t_model data) ''unknown'',
           cd_diarization = t_diarization data,
           cd_pipeline_status = get_str (t_pipeline_status data) ''legacy'',
           cd_speaker_id_error = t_speaker_id_error data,
           cd_speaker_id_retry_count = retry_count_of data\<rparr>, ts))"

text \<open>\<open>date_dir.glob(f"{time_prefix}*.json")\<close>\<close>

definition glob_match :: "string \<Rightarrow> string \<Rightarrow> bool" where
  "glob_match time_prefix name =
     (startswith name time_prefix \<and> endswith (drop (length time_prefix) name) ''.json'')"

text \<open>The first file of a listing, in its order, that the glob matches, that parses and
  whose \<open>audioPath\<close> is the audio file.\<close>

definition same_audio :: "string \<Rightarrow> string \<Rightarrow> bool \<Rightarrow> string \<times> curator_doc option \<Rightarrow> bool" where
  "same_audio time_prefix audio_file skip_index f =
     (glob_match time_prefix (fst f) \<and> \<not> (skip_index \<and> fst f = ''conversations.json'') \<and>
      (case snd f of None \<Rightarrow> False | Some d \<Rightarrow> cd_audioPath d = Some audio_file))"

definition numbered :: "string \<Rightarrow> nat \<Rightarrow> string" where
  "numbered base counter = base @ ''-'' @ string_of_nat counter @ ''.json''"

subsection \<open>The decimal numeral of a counter determines the counter\<close>

definition digit_val :: "char \<Rightarrow> nat" where
  "digit_val c =
     (if c = CHR ''1'' then 1 else if c = CHR ''2'' then 2 else if c = CHR ''3'' then 3
      else if c = CHR ''4'' then 4 else if c = CHR ''5'' then 5 else if c = CHR ''6'' then 6
      else if c = CHR ''7'' then 7 else if c = CHR ''8'' then 8 else if c = CHR ''9'' then 9
      else 0)"

definition nat_of_string :: "string \<Rightarrow> nat" where
  "nat_of_string s = foldl (\<lambda>a c. 10 * a + digit_val c) 0 s"

lemma lt10: "(d < (10::nat)) = (d = 0 \<or> d = 1 \<or> d = 2 \<or> d = 3 \<or> d = 4 \<or> d = 5 \<or> d = 6 \<or> d = 7 \<or> d = 8 \<or> d = 9)"
  by auto

lemma digit_val_digit_char: "d < 10 \<Longrightarrow> digit_val (digit_char d) = d"
  by (auto simp: lt10 digit_char_def digit_val_def)

lemma nat_of_string_of_nat: "nat_of_string (string_of_nat n) = n"
proof (induction n rule: string_of_nat.induct)
  case (1 n)
  show ?case
  proof (cases "n < 10")
    case True
    then show ?thesis
      by (subst string_of_nat.simps) (simp add: nat_of_string_def digit_val_digit_char)
  next
    case False
    with 1 have "nat_of_string (string_of_nat (n div 10)) = n div 10" by simp
    with False show ?thesis
      by (subst string_of_nat.simps) (simp add: nat_of_string_def digit_val_digit_char)
  qed
qed

lemma inj_string_of_nat: "inj string_of_nat"
  by (rule inj_on_inverseI [of _ nat_of_string]) (rule nat_of_string_of_nat)

lemma inj_numbered: "inj (numbered base)"
  by (rule injI) (simp add: numbered_def inj_string_of_nat [THEN injD])

lemma finite_numbered: "finite {k. numbered base k \<in> set names}"
proof -
  have "finite (numbered base -` set names)"
    by (rule finite_vimageI [OF _ inj_numbered]) simp
  then show ?thesis by (simp add: vimage_def)
qed

text \<open>
  The loop \<open>while out_file.exists()\<close> that appends a counter, entered with
  \<open>counter = 1\<close> when the plain name is taken. It ends because a directory has
  finitely many files and different counters give different names.
\<close>

function first_free :: "string list \<Rightarrow> string \<Rightarrow> nat \<Rightarrow> string" where
  "first_free names base counter =
     (if numbered base counter \<in> set names then first_free names base (counter + 1)
      else numbered base counter)"
  by pat_completeness auto
termination
proof (relation "measure (\<lambda>(names, base, counter).
         card {k. counter \<le> k \<and> numbered base k \<in> set names})", goal_cases)
  case 1
  show ?case by simp
next
  case (2 names base counter)
  have f: "finite {k. counter \<le> k \<and> numbered base k \<in> set names}"
    by (rule finite_subset [OF _ finite_numbered [of base names]]) auto
  let ?A = "{k. counter + 1 \<le> k \<and> numbered base k \<in> set names}"
  let ?B = "{k. counter \<le> k \<and> numbered base k \<in> set names}"
  have i: "counter \<in> ?B" using 2 by simp
  have o: "counter \<notin> ?A" by simp
  have "?A \<subseteq> ?B" by auto
  moreover from i o have "?A \<noteq> ?B" by metis
  ultimately have "?A \<subset> ?B" by (rule psubsetI)
  from psubset_card_mono [OF f this] show ?case by simp
qed

declare first_free.simps [simp del]

text \<open>
  \<open>sync_to_curator(stem, data)\<close>. Nothing is published for a transcript without
  text. Otherwise the file to write is, in this order: the file of the date directory
  that already holds the same audio; the file of that name promoted from
  \<open>_pending\<close>; the plain name \<open>HH-MM-SS[-diarized].json\<close>, or, when that is taken,
  the first free numbered name. The marker is touched after the write.
\<close>

definition choose_out_file :: "string \<Rightarrow> string \<Rightarrow> string \<Rightarrow> (string \<times> curator_doc option) list
    \<Rightarrow> (string \<times> curator_doc option) list \<Rightarrow> string \<times> bool" where
  "choose_out_file time_prefix suffix audio_file listing pending_listing =
     (case find (same_audio time_prefix audio_file True) listing of
        Some existing \<Rightarrow> (fst existing, False)
      | None \<Rightarrow>
          (case find (same_audio time_prefix audio_file False) pending_listing of
             Some existing \<Rightarrow> (fst existing, True)
           | None \<Rightarrow>
               (if time_prefix @ suffix @ ''.json'' \<in> fst ` set listing
                then (first_free (map fst listing) (time_prefix @ suffix) 1, False)
                else (time_prefix @ suffix @ ''.json'', False))))"

definition sync_to_curator :: "orch_env \<Rightarrow> string \<Rightarrow> transcript \<Rightarrow> orch \<Rightarrow> string option \<times> orch" where
  "sync_to_curator env stem data st =
     (let (result, ts) = convert_to_curator_format env data in
      if cd_transcript result = '''' then (None, st)
      else
        let date_dir = ts_ymd ts;
            suffix = (if t_diarization data then ''-diarized'' else '''');
            (out_file, from_pending) =
               choose_out_file (ts_hms ts) suffix (get_str (t_file data) '''')
                 (curator st date_dir) (pending st date_dir);
            st1 = (if from_pending
                   then st\<lparr>pending := (pending st)(date_dir := AList.delete out_file (pending st date_dir))\<rparr>
                   else st)
        in (Some (date_dir @ ''/'' @ out_file),
            st1\<lparr>curator := (curator st1)
                    (date_dir := AList.update out_file (Some result) (curator st1 date_dir)),
                markers := (markers st1)(stem := Some (oe_time env))\<rparr>))"

subsection \<open>One cycle\<close>

definition set_entry :: "nat \<Rightarrow> (job_entry \<Rightarrow> job_entry) \<Rightarrow> orch \<Rightarrow> orch" where
  "set_entry r f st = st\<lparr>heap := (heap st)(r := f (heap st r))\<rparr>"

text \<open>The part of the loop body after \<open># --- Act on status transitions ---\<close>: the
  audio lifecycle, then the curator gate, with the two assignments
  \<open>jobs[stem] = new_entry\<close> around them.\<close>

definition move_audio :: "orch_env \<Rightarrow> string \<Rightarrow> transcript \<Rightarrow> string option \<Rightarrow> nat \<Rightarrow> orch \<Rightarrow> orch" where
  "move_audio env stem data old_status new_entry st =
     (let wav = stem @ ''.wav'' in
      if j_status (heap st new_entry) \<notin> {''queued'', ''processing''} \<and>
         old_status \<in> {Some ''queued'', Some ''processing'', None}
      then (if wav \<in> fst ` set (inbox st)
            then (if get_duration data \<ge> oe_min_playback_duration env
                  then set_entry new_entry (\<lambda>e. e\<lparr>j_playbackFile := Some wav\<rparr>)
                         (st\<lparr>inbox := filter (\<lambda>f. fst f \<noteq> wav) (inbox st),
                             playback := insert wav (playback st)\<rparr>)
                  else st\<lparr>inbox := filter (\<lambda>f. fst f \<noteq> wav) (inbox st)\<rparr>)
            else st)
      else st)"

definition curator_gate :: "orch_env \<Rightarrow> string \<Rightarrow> transcript \<Rightarrow> nat \<Rightarrow> orch \<Rightarrow> orch" where
  "curator_gate env stem data new_entry st =
     (if j_status (heap st new_entry) = ''complete''
      then (if markers st stem = None
            then (case sync_to_curator env stem data st of
                    (Some curator_path, st1) \<Rightarrow>
                      set_entry new_entry
                        (\<lambda>e. e\<lparr>j_status := ''curator_synced'', j_curatorPath := Some curator_path,
                               j_stages := (j_stages e)\<lparr>sg_curator_synced := Some (oe_now_iso env)\<rparr>\<rparr>)
                        st1
                  | (None, st1) \<Rightarrow> st1)
            else set_entry new_entry (\<lambda>e. e\<lparr>j_status := ''curator_synced''\<rparr>) st)
      else st)"

definition act :: "orch_env \<Rightarrow> string \<Rightarrow> transcript \<Rightarrow> string option \<Rightarrow> nat \<Rightarrow> orch \<Rightarrow> orch" where
  "act env stem data old_status new_entry st =
     curator_gate env stem data new_entry
       (move_audio env stem data old_status new_entry
          (st\<lparr>jobs := (jobs st)(stem := Some new_entry), changed := True\<rparr>))"

text \<open>
  The body of the loop over \<open>done/*.json\<close>. The source computes \<open>old_status\<close> from
  \<open>existing\<close> after the call of \<open>build_job_entry\<close>: it is read here from the heap
  that call returned, at the address \<open>existing\<close>.
\<close>

definition reconcile :: "orch_env \<Rightarrow> string \<Rightarrow> orch \<Rightarrow> orch" where
  "reconcile env name st =
     (if startswith name ''.'' \<or> contains name ''.error.'' then st
      else let stem = path_stem name in
        case get_transcript_data st stem of
          None \<Rightarrow> st
        | Some data \<Rightarrow>
            let existing = jobs st stem;
                (new_entry, st1) = build_job_entry env stem data existing st;
                old_status = map_option (\<lambda>r. j_status (heap st1 r)) existing
            in if existing \<noteq> None \<and> old_status = Some (j_status (heap st1 new_entry))
               then (if old_status = Some ''curator_synced'' \<and> markers st1 stem = None
                     then let (new_entry2, st2) = build_job_entry env stem data None st1
                          in act env stem data old_status new_entry2 st2
                     else st1\<lparr>jobs := (jobs st1)(stem := Some new_entry)\<rparr>)
               else act env stem data old_status new_entry st1)"

definition queued_entry :: "orch_env \<Rightarrow> string \<Rightarrow> string \<Rightarrow> job_entry" where
  "queued_entry env name stem =
     \<lparr>j_source = get_source stem, j_audioFile = name, j_createdAt = oe_now_iso env,
      j_status = ''queued'',
      j_stages = \<lparr>sg_ingested = Some (oe_now_iso env), sg_transcribed = None,
                   sg_speaker_id = None, sg_curator_synced = None\<rparr>,
      j_pipelineStatus = '''', j_identified = [], j_unidentified = [],
      j_playbackFile = None, j_curatorPath = None, j_error = None\<rparr>"

definition discover_one :: "orch_env \<Rightarrow> string \<Rightarrow> orch \<Rightarrow> orch" where
  "discover_one env name st =
     (let stem = path_stem name in
      if jobs st stem = None
      then st\<lparr>heap := (heap st)(next_ref st := queued_entry env name stem),
              next_ref := next_ref st + 1,
              jobs := (jobs st)(stem := Some (next_ref st)), changed := True\<rparr>
      else st)"

definition orphan_one :: "orch_env \<Rightarrow> string \<times> real \<Rightarrow> orch \<Rightarrow> orch" where
  "orphan_one env wav st =
     (let stem = path_stem (fst wav) in
      if map_of (done_dir st) (stem @ ''.json'') = None \<and>
         snd wav < oe_time env - real (oe_orphan_age_hours env * 3600)
      then
        let st1 = st\<lparr>inbox := filter (\<lambda>f. fst f \<noteq> fst wav) (inbox st)\<rparr>;
            st2 = (case jobs st1 stem of
                     None \<Rightarrow> st1
                   | Some r \<Rightarrow>
                       set_entry r
                         (\<lambda>e. e\<lparr>j_status := ''failed'',
                                j_error := Some (''Orphaned: no transcript after '' @
                                    string_of_nat (oe_orphan_age_hours env) @ ''h'')\<rparr>) st1)
        in st2\<lparr>changed := True\<rparr>
      else st)"

text \<open>
  \<open>scan_once\<close>: discovery of new WAVs, the loop over \<open>done/*.json\<close>, the orphan
  cleanup. The conversation stitcher and the write of jobs.json, which follow when
  \<open>changed\<close> is set, are left out: they touch neither the job entries nor the files
  of inbox/, done/ and playback/.
\<close>

definition scan_once :: "orch_env \<Rightarrow> orch \<Rightarrow> orch" where
  "scan_once env st =
     (let st1 = fold (discover_one env)
                  (filter (\<lambda>n. endswith n ''.wav'') (map fst (inbox st))) (st\<lparr>changed := False\<rparr>);
          st2 = fold (reconcile env)
                  (filter (\<lambda>n. endswith n ''.json'') (map fst (done_dir st1))) st1
      in fold (orphan_one env) (filter (\<lambda>f. endswith (fst f) ''.wav'') (inbox st2)) st2)"

definition job_of :: "orch \<Rightarrow> string \<Rightarrow> job_entry option" where
  "job_of st stem = map_option (heap st) (jobs st stem)"

subsection \<open>Concrete clips\<close>

definition noon :: stamp where
  "noon = \<lparr>ts_iso = ''2024-01-01T12:00:00+00:00'', ts_ymd = ''2024/01/01'', ts_hms = ''12-00-00''\<rparr>"

definition cycle_env :: orch_env where
  "cycle_env =
     \<lparr>oe_now_iso = ''2024-01-01T12:05:00+00:00'',
      oe_now = \<lparr>ts_iso = ''2024-01-01T12:05:00+00:00'', ts_ymd = ''2024/01/01'',
                ts_hms = ''12-05-00''\<rparr>,
      oe_time = 1000,
      oe_fromisoformat = (\<lambda>s. if s = ''2024-01-01T12:00:00+00:00'' then Some noon else None),
      oe_min_playback_duration = 10, oe_orphan_age_hours = 24\<rparr>"

definition blank_entry :: job_entry where
  "blank_entry =
     \<lparr>j_source = '''', j_audioFile = '''', j_createdAt = '''', j_status = '''',
      j_stages = \<lparr>sg_ingested = None, sg_transcribed = None, sg_speaker_id = None,
                   sg_curator_synced = None\<rparr>,
      j_pipelineStatus = '''', j_identified = [], j_unidentified = [],
      j_playbackFile = None, j_curatorPath = None, j_error = None\<rparr>"

definition empty_orch :: orch where
  "empty_orch =
     \<lparr>heap = (\<lambda>r. blank_entry), next_ref = 0, jobs = (\<lambda>s. None), changed = False,
      inbox = [], done_dir = [], markers = (\<lambda>s. None), playback = {},
      curator = (\<lambda>d. []), pending = (\<lambda>d. [])\<rparr>"

text \<open>A 30 s clip with one enrolled speaker, fully identified (the spec's happy path),
  and the same clip without any speech.\<close>

definition identified_clip :: transcript where
  "identified_clip =
     empty_transcript\<lparr>t_file := Some ''a.wav'', t_timestamp := Some ''2024-01-01T12:00:00+00:00'',
       t_pipeline_status := Some ''complete'',
       t_segments := [(seg ''hello'' 0 30)\<lparr>seg_speaker_name := Some ''fred''\<rparr>],
       t_diarization := True,
       t_assemblyai := Some \<lparr>aai_status = None, aai_audio_duration = Some 30,
                              aai_confidence = Some 1, aai_cost_usd = Some 0\<rparr>,
       t_speaker_identification :=
         Some \<lparr>si_identified = [(''SPEAKER_00'', ''fred'')], si_unidentified = []\<rparr>\<rparr>"

definition silent_clip :: transcript where
  "silent_clip = identified_clip\<lparr>t_segments := [], t_speaker_identification := None\<rparr>"

definition wav_arrived :: orch where
  "wav_arrived = empty_orch\<lparr>inbox := [(''a.wav'', 900)]\<rparr>"

definition transcript_written :: "transcript \<Rightarrow> orch \<Rightarrow> orch" where
  "transcript_written data st = st\<lparr>done_dir := [(''a.json'', 950, Some data)]\<rparr>"

lemmas orch_eval = scan_once_def reconcile_def discover_one_def orphan_one_def act_def
  move_audio_def curator_gate_def
  build_job_entry_def update_entry_def fresh_entry_def queued_entry_def set_entry_def
  sync_to_curator_def choose_out_file_def convert_to_curator_format_def full_text_def
  parse_timestamp_def same_audio_def glob_match_def get_transcript_data_def get_duration_def
  get_source_def timestamp_or_now_def determine_status_def pipeline_status_of_def
  aai_status_of_def unidentified_of_def identified_of_def get_str_def truthy_def
  path_stem_def rfind_dot_def startswith_def endswith_def py_strip_def is_space_def is_space_code_def
  utterance_of_def retry_count_of_def job_of_def empty_transcript_def seg_def Let_def upt_rec

lemma first_cycle_queues:
  "job_of (scan_once cycle_env wav_arrived) ''a'' = Some (queued_entry cycle_env ''a.wav'' ''a'') \<and>
   inbox (scan_once cycle_env wav_arrived) = [(''a.wav'', 900)]"
  by (simp add: orch_eval wav_arrived_def empty_orch_def cycle_env_def)

lemma second_cycle_existing_job:
  "map_option j_status (job_of (scan_once cycle_env
       (transcript_written identified_clip (scan_once cycle_env wav_arrived))) ''a'') = Some ''complete'' \<and>
   inbox (scan_once cycle_env (transcript_written identified_clip (scan_once cycle_env wav_arrived)))
     = [(''a.wav'', 900)] \<and>
   playback (scan_once cycle_env (transcript_written identified_clip (scan_once cycle_env wav_arrived)))
     = {}"
  by (simp add: orch_eval wav_arrived_def empty_orch_def cycle_env_def transcript_written_def
      identified_clip_def)

subsection \<open>A job entry that exists is updated in place, and nothing else happens\<close>

lemma determine_status_not_synced: "determine_status d \<noteq> ''curator_synced''"
  by (simp add: determine_status_def Let_def)

lemma status_update_entry [simp]:
  "j_status (update_entry env st stem data e) = determine_status data"
  by (simp add: update_entry_def Let_def)

text \<open>
  When the manifest already has an entry for the stem, \<open>new_entry\<close> and \<open>existing\<close>
  are one dict, so the test \<open>existing.get("status") == new_entry["status"]\<close> holds,
  and \<open>old_status\<close>, read after the update, is never \<open>curator_synced\<close>: the loop
  body takes the \<open>continue\<close> branch. The entry is updated; no file is touched and
  \<open>changed\<close> is not set.
\<close>

lemma reconcile_existing_job:
  assumes "jobs st (path_stem name) = Some r"
  shows "reconcile env name st = st \<or>
         (\<exists>data. get_transcript_data st (path_stem name) = Some data \<and>
            reconcile env name st
              = st\<lparr>heap := (heap st)(r := update_entry env st (path_stem name) data (heap st r))\<rparr>)"
proof (cases "startswith name ''.'' \<or> contains name ''.error.''")
  case True
  then show ?thesis by (simp add: reconcile_def)
next
  case False
  show ?thesis
  proof (cases "get_transcript_data st (path_stem name)")
    case None
    with False show ?thesis by (simp add: reconcile_def)
  next
    case (Some data)
    have "(jobs st)(path_stem name := Some r) = jobs st"
      using assms by (simp add: fun_upd_idem)
    with False Some assms show ?thesis
      by (simp add: reconcile_def build_job_entry_def Let_def determine_status_not_synced)
  qed
qed

lemma reconcile_existing_job_inert:
  assumes "jobs st (path_stem name) = Some r"
  shows "inbox (reconcile env name st) = inbox st \<and> playback (reconcile env name st) = playback st \<and>
         curator (reconcile env name st) = curator st \<and> pending (reconcile env name st) = pending st \<and>
         markers (reconcile env name st) = markers st \<and> changed (reconcile env name st) = changed st \<and>
         jobs (reconcile env name st) = jobs st"
  using reconcile_existing_job [OF assms, of env] by auto

subsection \<open>The first free numbered name\<close>

lemma first_free_spec:
  "\<exists>k\<ge>c. first_free names base c = numbered base k \<and> numbered base k \<notin> set names \<and>
          (\<forall>j. c \<le> j \<and> j < k \<longrightarrow> numbered base j \<in> set names)"
proof (induction names base c rule: first_free.induct)
  case (1 names base counter)
  show ?case
  proof (cases "numbered base counter \<in> set names")
    case False
    then show ?thesis
      by (subst first_free.simps) (auto intro!: exI [of _ counter])
  next
    case True
    from "1.IH" [OF True] obtain k where k: "counter + 1 \<le> k"
      "first_free names base (counter + 1) = numbered base k" "numbered base k \<notin> set names"
      "\<forall>j. counter + 1 \<le> j \<and> j < k \<longrightarrow> numbered base j \<in> set names"
      by blast
    have "numbered base j \<in> set names" if "counter \<le> j \<and> j < k" for j
    proof (cases "j = counter")
      case True
      with \<open>numbered base counter \<in> set names\<close> show ?thesis by simp
    next
      case False
      with that k(4) show ?thesis by simp
    qed
    with k True show ?thesis
      by (subst first_free.simps) (auto intro!: exI [of _ k])
  qed
qed

text \<open>The name \<open>choose_out_file\<close> returns when no file of the date directory and none
  of \<open>_pending\<close> holds the same audio: a name that is not in the directory, the
  plain one when it is free, else the numbered one with the least free counter.\<close>

lemma choose_out_file_new:
  assumes "find (same_audio tp audio True) listing = None"
    and "find (same_audio tp audio False) plisting = None"
  shows "snd (choose_out_file tp suffix audio listing plisting) = False \<and>
         fst (choose_out_file tp suffix audio listing plisting) \<notin> fst ` set listing \<and>
         (tp @ suffix @ ''.json'' \<notin> fst ` set listing
            \<longrightarrow> fst (choose_out_file tp suffix audio listing plisting) = tp @ suffix @ ''.json'') \<and>
         (tp @ suffix @ ''.json'' \<in> fst ` set listing
            \<longrightarrow> (\<exists>k\<ge>1. fst (choose_out_file tp suffix audio listing plisting)
                          = numbered (tp @ suffix) k \<and>
                        (\<forall>j. 1 \<le> j \<and> j < k \<longrightarrow> numbered (tp @ suffix) j \<in> fst ` set listing)))"
proof (cases "tp @ suffix @ ''.json'' \<in> fst ` set listing")
  case False
  with assms show ?thesis by (simp add: choose_out_file_def)
next
  case True
  from first_free_spec [of 1 "map fst listing" "tp @ suffix"]
  obtain k where k: "1 \<le> k" "first_free (map fst listing) (tp @ suffix) 1 = numbered (tp @ suffix) k"
    "numbered (tp @ suffix) k \<notin> fst ` set listing"
    "\<forall>j. 1 \<le> j \<and> j < k \<longrightarrow> numbered (tp @ suffix) j \<in> fst ` set listing"
    by auto
  from assms True have "choose_out_file tp suffix audio listing plisting
      = (first_free (map fst listing) (tp @ suffix) 1, False)"
    by (simp add: choose_out_file_def)
  with k True show ?thesis by (simp del: One_nat_def) blast
qed

lemma choose_out_file_existing:
  assumes "find (same_audio tp audio True) listing = Some f"
  shows "choose_out_file tp suffix audio listing plisting = (fst f, False) \<and>
         f \<in> set listing \<and> same_audio tp audio True f"
proof -
  from assms have "f \<in> set listing \<and> same_audio tp audio True f"
    by (auto simp: find_Some_iff)
  with assms show ?thesis by (simp add: choose_out_file_def)
qed

subsection \<open>Publication of a transcript that has no job entry yet\<close>

text \<open>Vocabulary: the date directory, the plain file name and the chosen file name of a
  transcript's publication.\<close>

definition date_dir_of :: "orch_env \<Rightarrow> transcript \<Rightarrow> string" where
  "date_dir_of env data = ts_ymd (parse_timestamp env data)"

definition base_name :: "orch_env \<Rightarrow> transcript \<Rightarrow> string" where
  "base_name env data =
     ts_hms (parse_timestamp env data) @ (if t_diarization data then ''-diarized'' else '''')"

definition same_audio_in :: "orch_env \<Rightarrow> transcript \<Rightarrow> bool \<Rightarrow> (string \<times> curator_doc option) list
    \<Rightarrow> (string \<times> curator_doc option) option" where
  "same_audio_in env data skip_index listing =
     find (same_audio (ts_hms (parse_timestamp env data)) (get_str (t_file data) '''') skip_index) listing"

definition out_file_for :: "orch_env \<Rightarrow> transcript \<Rightarrow> orch \<Rightarrow> string" where
  "out_file_for env data st =
     fst (choose_out_file (ts_hms (parse_timestamp env data))
            (if t_diarization data then ''-diarized'' else '''') (get_str (t_file data) '''')
            (curator st (date_dir_of env data)) (pending st (date_dir_of env data)))"

lemma convert_to_curator_format_simps [simp]:
  "cd_transcript (fst (convert_to_curator_format env data)) = full_text data"
  "snd (convert_to_curator_format env data) = parse_timestamp env data"
  by (simp_all add: convert_to_curator_format_def Let_def)

lemma sync_to_curator_publishes:
  assumes "full_text data \<noteq> ''''"
  shows "fst (sync_to_curator env stem data st)
           = Some (date_dir_of env data @ ''/'' @ out_file_for env data st) \<and>
         map_of (curator (snd (sync_to_curator env stem data st)) (date_dir_of env data))
             (out_file_for env data st)
           = Some (Some (fst (convert_to_curator_format env data))) \<and>
         markers (snd (sync_to_curator env stem data st)) stem = Some (oe_time env) \<and>
         heap (snd (sync_to_curator env stem data st)) = heap st \<and>
         jobs (snd (sync_to_curator env stem data st)) = jobs st"
proof -
  obtain result ts where c: "convert_to_curator_format env data = (result, ts)"
    by (cases "convert_to_curator_format env data")
  from convert_to_curator_format_simps [of env data] c
  have r: "cd_transcript result = full_text data" "ts = parse_timestamp env data" by simp_all
  obtain out fp where o: "choose_out_file (ts_hms (parse_timestamp env data))
            (if t_diarization data then ''-diarized'' else '''') (get_str (t_file data) '''')
            (curator st (date_dir_of env data)) (pending st (date_dir_of env data)) = (out, fp)"
    by (cases "choose_out_file (ts_hms (parse_timestamp env data))
            (if t_diarization data then ''-diarized'' else '''') (get_str (t_file data) '''')
            (curator st (date_dir_of env data)) (pending st (date_dir_of env data))")
  then have "out_file_for env data st = out" by (simp add: out_file_for_def)
  with assms c r o show ?thesis
    by (simp add: sync_to_curator_def Let_def date_dir_of_def update_conv')
qed

lemma out_file_for_cong:
  "curator st2 = curator st \<Longrightarrow> pending st2 = pending st \<Longrightarrow>
   out_file_for env data st2 = out_file_for env data st"
  by (simp add: out_file_for_def)

lemma move_audio_frame:
  "curator (move_audio env stem data old r st) = curator st \<and>
   pending (move_audio env stem data old r st) = pending st \<and>
   markers (move_audio env stem data old r st) = markers st \<and>
   jobs (move_audio env stem data old r st) = jobs st \<and>
   j_status (heap (move_audio env stem data old r st) r) = j_status (heap st r)"
  by (simp add: move_audio_def set_entry_def Let_def)

lemma curator_gate_publishes:
  assumes "j_status (heap st r) = ''complete''" "markers st stem = None" "full_text data \<noteq> ''''"
  shows "jobs (curator_gate env stem data r st) = jobs st \<and>
         j_status (heap (curator_gate env stem data r st) r) = ''curator_synced'' \<and>
         j_curatorPath (heap (curator_gate env stem data r st) r)
           = Some (date_dir_of env data @ ''/'' @ out_file_for env data st) \<and>
         sg_curator_synced (j_stages (heap (curator_gate env stem data r st) r))
           = Some (oe_now_iso env) \<and>
         markers (curator_gate env stem data r st) stem = Some (oe_time env) \<and>
         map_of (curator (curator_gate env stem data r st) (date_dir_of env data))
             (out_file_for env data st)
           = Some (Some (fst (convert_to_curator_format env data)))"
proof -
  obtain p st1 where s: "sync_to_curator env stem data st = (p, st1)"
    by (cases "sync_to_curator env stem data st")
  from sync_to_curator_publishes [OF assms(3), of env stem st] s
  have "p = Some (date_dir_of env data @ ''/'' @ out_file_for env data st)"
    "map_of (curator st1 (date_dir_of env data)) (out_file_for env data st)
       = Some (Some (fst (convert_to_curator_format env data)))"
    "markers st1 stem = Some (oe_time env)" "jobs st1 = jobs st"
    by simp_all
  with assms s show ?thesis
    by (simp add: curator_gate_def set_entry_def)
qed

lemma reconcile_new_job:
  assumes "\<not> startswith name ''.''" "\<not> contains name ''.error.''"
    "get_transcript_data st (path_stem name) = Some data" "jobs st (path_stem name) = None"
  shows "reconcile env name st =
           act env (path_stem name) data None (next_ref st)
             (st\<lparr>heap := (heap st)(next_ref st :=
                     update_entry env st (path_stem name) data (fresh_entry env (path_stem name) data)),
                 next_ref := next_ref st + 1\<rparr>)"
  using assms by (simp add: reconcile_def build_job_entry_def Let_def)

lemma choose_out_file_pending:
  assumes "find (same_audio tp audio True) listing = None"
    and "find (same_audio tp audio False) plisting = Some f"
  shows "choose_out_file tp suffix audio listing plisting = (fst f, True) \<and> f \<in> set plisting"
proof -
  from assms(2) have "f \<in> set plisting" by (auto simp: find_Some_iff)
  with assms show ?thesis by (simp add: choose_out_file_def)
qed

text \<open>The file a publication writes, by what the date directory and \<open>_pending\<close> hold.\<close>

lemma out_file_for_name:
  "(\<forall>f. same_audio_in env data True (curator st (date_dir_of env data)) = Some f
      \<longrightarrow> out_file_for env data st = fst f \<and> f \<in> set (curator st (date_dir_of env data))) \<and>
   (\<forall>f. same_audio_in env data True (curator st (date_dir_of env data)) = None \<and>
        same_audio_in env data False (pending st (date_dir_of env data)) = Some f
      \<longrightarrow> out_file_for env data st = fst f \<and> f \<in> set (pending st (date_dir_of env data))) \<and>
   (same_audio_in env data True (curator st (date_dir_of env data)) = None \<and>
    same_audio_in env data False (pending st (date_dir_of env data)) = None
      \<longrightarrow> out_file_for env data st \<notin> fst ` set (curator st (date_dir_of env data)) \<and>
          (base_name env data @ ''.json'' \<notin> fst ` set (curator st (date_dir_of env data))
             \<longrightarrow> out_file_for env data st = base_name env data @ ''.json'') \<and>
          (base_name env data @ ''.json'' \<in> fst ` set (curator st (date_dir_of env data))
             \<longrightarrow> (\<exists>k\<ge>1. out_file_for env data st = numbered (base_name env data) k \<and>
                   (\<forall>j. 1 \<le> j \<and> j < k \<longrightarrow> numbered (base_name env data) j
                          \<in> fst ` set (curator st (date_dir_of env data))))))"
proof -
  let ?tp = "ts_hms (parse_timestamp env data)"
  let ?audio = "get_str (t_file data) ''''"
  let ?suffix = "if t_diarization data then ''-diarized'' else ''''"
  let ?c = "curator st (date_dir_of env data)"
  let ?p = "pending st (date_dir_of env data)"
  have part1: "out_file_for env data st = fst f \<and> f \<in> set ?c"
    if "same_audio_in env data True ?c = Some f" for f
    using that choose_out_file_existing [of ?tp ?audio ?c f ?suffix ?p]
    by (simp add: out_file_for_def same_audio_in_def)
  have part2: "out_file_for env data st = fst f \<and> f \<in> set ?p"
    if "same_audio_in env data True ?c = None \<and> same_audio_in env data False ?p = Some f" for f
    using that choose_out_file_pending [of ?tp ?audio ?c ?p f ?suffix]
    by (simp add: out_file_for_def same_audio_in_def)
  have part3: "out_file_for env data st \<notin> fst ` set ?c \<and>
                (base_name env data @ ''.json'' \<notin> fst ` set ?c
                   \<longrightarrow> out_file_for env data st = base_name env data @ ''.json'') \<and>
                (base_name env data @ ''.json'' \<in> fst ` set ?c
                   \<longrightarrow> (\<exists>k\<ge>1. out_file_for env data st = numbered (base_name env data) k \<and>
                         (\<forall>j. 1 \<le> j \<and> j < k \<longrightarrow> numbered (base_name env data) j \<in> fst ` set ?c)))"
    if "same_audio_in env data True ?c = None \<and> same_audio_in env data False ?p = None"
    using that choose_out_file_new [of ?tp ?audio ?c ?p ?suffix]
    by (simp add: out_file_for_def same_audio_in_def base_name_def)
  from part1 part2 part3 show ?thesis by blast
qed

lemma move_audio_entry_frame:
  "j_curatorPath (heap (move_audio env stem data old r st) r) = j_curatorPath (heap st r) \<and>
   j_stages (heap (move_audio env stem data old r st) r) = j_stages (heap st r)"
  by (simp add: move_audio_def set_entry_def Let_def)

lemma fresh_entry_unsynced:
  "j_curatorPath (update_entry env st stem data (fresh_entry env stem data)) = None \<and>
   sg_curator_synced (j_stages (update_entry env st stem data (fresh_entry env stem data))) = None"
  by (simp add: update_entry_def fresh_entry_def Let_def)

lemma sync_to_curator_without_text:
  "full_text data = '''' \<Longrightarrow> sync_to_curator env stem data st = (None, st)"
  by (simp add: sync_to_curator_def case_prod_beta)

text \<open>The loop body on a transcript that has no job entry, whose derived status is
  \<open>complete\<close> and whose marker does not exist: with text, and without.\<close>

lemma reconcile_publishes:
  assumes "\<not> startswith name ''.''" "\<not> contains name ''.error.''"
    and "get_transcript_data st (path_stem name) = Some data"
    and "jobs st (path_stem name) = None"
    and "determine_status data = ''complete''"
    and "markers st (path_stem name) = None"
    and "full_text data \<noteq> ''''"
  shows "(\<exists>e. job_of (reconcile env name st) (path_stem name) = Some e \<and>
            j_status e = ''curator_synced'' \<and>
            j_curatorPath e = Some (date_dir_of env data @ ''/'' @ out_file_for env data st) \<and>
            sg_curator_synced (j_stages e) = Some (oe_now_iso env)) \<and>
         markers (reconcile env name st) (path_stem name) = Some (oe_time env) \<and>
         map_of (curator (reconcile env name st) (date_dir_of env data)) (out_file_for env data st)
           = Some (Some (fst (convert_to_curator_format env data)))"
proof -
  let ?stem = "path_stem name"
  let ?r = "next_ref st"
  let ?st0 = "st\<lparr>heap := (heap st)(?r := update_entry env st ?stem data (fresh_entry env ?stem data)),
                 next_ref := ?r + 1\<rparr>"
  let ?st1 = "?st0\<lparr>jobs := (jobs ?st0)(?stem := Some ?r), changed := True\<rparr>"
  let ?st2 = "move_audio env ?stem data None ?r ?st1"
  have rec: "reconcile env name st = curator_gate env ?stem data ?r ?st2"
    using reconcile_new_job [OF assms(1-4), of env] by (simp add: act_def)
  note mv = move_audio_frame [of env ?stem data None ?r ?st1]
  from mv assms(5) have s2: "j_status (heap ?st2 ?r) = ''complete''" by simp
  from mv assms(6) have m2: "markers ?st2 ?stem = None" by simp
  from mv have o2: "out_file_for env data ?st2 = out_file_for env data st"
    by (intro out_file_for_cong) simp_all
  from mv have j2: "jobs ?st2 ?stem = Some ?r" by simp
  note g = curator_gate_publishes [OF s2 m2 assms(7), of env]
  from g j2 have job: "job_of (reconcile env name st) ?stem
      = Some (heap (curator_gate env ?stem data ?r ?st2) ?r)"
    by (simp add: rec job_of_def)
  have part1: "\<exists>e. job_of (reconcile env name st) ?stem = Some e \<and>
            j_status e = ''curator_synced'' \<and>
            j_curatorPath e = Some (date_dir_of env data @ ''/'' @ out_file_for env data st) \<and>
            sg_curator_synced (j_stages e) = Some (oe_now_iso env)"
    using g job o2 by simp
  have part2: "markers (reconcile env name st) ?stem = Some (oe_time env)"
    using g by (simp add: rec)
  have part3: "map_of (curator (reconcile env name st) (date_dir_of env data)) (out_file_for env data st)
           = Some (Some (fst (convert_to_curator_format env data)))"
    using g o2 by (simp add: rec)
  from part1 part2 part3 show ?thesis by blast
qed

lemma reconcile_without_text:
  assumes "\<not> startswith name ''.''" "\<not> contains name ''.error.''"
    and "get_transcript_data st (path_stem name) = Some data"
    and "jobs st (path_stem name) = None"
    and "determine_status data = ''complete''"
    and "markers st (path_stem name) = None"
    and "full_text data = ''''"
  shows "(\<exists>e. job_of (reconcile env name st) (path_stem name) = Some e \<and>
            j_status e = ''complete'' \<and> j_curatorPath e = None \<and>
            sg_curator_synced (j_stages e) = None) \<and>
         markers (reconcile env name st) = markers st \<and>
         curator (reconcile env name st) = curator st \<and>
         pending (reconcile env name st) = pending st"
proof -
  let ?stem = "path_stem name"
  let ?r = "next_ref st"
  let ?st0 = "st\<lparr>heap := (heap st)(?r := update_entry env st ?stem data (fresh_entry env ?stem data)),
                 next_ref := ?r + 1\<rparr>"
  let ?st1 = "?st0\<lparr>jobs := (jobs ?st0)(?stem := Some ?r), changed := True\<rparr>"
  let ?st2 = "move_audio env ?stem data None ?r ?st1"
  have rec: "reconcile env name st = curator_gate env ?stem data ?r ?st2"
    using reconcile_new_job [OF assms(1-4), of env] by (simp add: act_def)
  note mv = move_audio_frame [of env ?stem data None ?r ?st1]
  note me = move_audio_entry_frame [of env ?stem data None ?r ?st1]
  note fe = fresh_entry_unsynced [of env st ?stem data]
  from mv assms(5) have s2: "j_status (heap ?st2 ?r) = ''complete''" by simp
  from mv assms(6) have m2: "markers ?st2 ?stem = None" by simp
  from s2 m2 assms(7) have gate: "curator_gate env ?stem data ?r ?st2 = ?st2"
    by (simp add: curator_gate_def sync_to_curator_without_text)
  from mv have j2: "jobs ?st2 ?stem = Some ?r" by simp
  from j2 have job: "job_of (reconcile env name st) ?stem = Some (heap ?st2 ?r)"
    unfolding rec gate by (simp add: job_of_def)
  from me fe have "j_curatorPath (heap ?st2 ?r) = None"
    "sg_curator_synced (j_stages (heap ?st2 ?r)) = None"
    by simp_all
  with job s2 have part1: "\<exists>e. job_of (reconcile env name st) ?stem = Some e \<and>
            j_status e = ''complete'' \<and> j_curatorPath e = None \<and>
            sg_curator_synced (j_stages e) = None"
    by simp
  from mv have part2: "markers (reconcile env name st) = markers st"
    "curator (reconcile env name st) = curator st" "pending (reconcile env name st) = pending st"
    unfolding rec gate by simp_all
  from part1 part2 show ?thesis by blast
qed

text \<open>
  C1 (as stated, refuted). A clip without speech reaches \<open>complete\<close> (the segments
  are empty, nobody is unidentified) with no marker, and the cycle publishes nothing:
  \<open>sync_to_curator\<close> returns \<open>None\<close> for an empty text, the status stays
  \<open>complete\<close> and no marker is created.
\<close>

theorem silent_clip_not_published_counterexample:
  "job_of (transcript_written silent_clip empty_orch) ''a'' = None \<and>
   markers (transcript_written silent_clip empty_orch) ''a'' = None \<and>
   map_option j_status (job_of (scan_once cycle_env (transcript_written silent_clip empty_orch)) ''a'')
     = Some ''complete'' \<and>
   markers (scan_once cycle_env (transcript_written silent_clip empty_orch)) ''a'' = None \<and>
   curator (scan_once cycle_env (transcript_written silent_clip empty_orch)) ''2024/01/01'' = []"
  by (simp add: orch_eval empty_orch_def cycle_env_def transcript_written_def
      silent_clip_def identified_clip_def)

text \<open>
  C1 (amended). For a transcript of done/ that has no job entry yet, whose derived
  status is \<open>complete\<close> and whose marker does not exist, the step of the scan cycle
  for that transcript does one of two things. When the text of the transcript is not
  empty, it publishes it in the curator tree under the date directory of its time
  stamp, creates the marker, and leaves the job with status \<open>curator_synced\<close>, its
  \<open>curatorPath\<close> and \<open>stages.curator_synced\<close> set. The file written is the file of
  that directory that already holds the same audio, when there is one; else the name of
  the file of \<open>_pending\<close> that holds the same audio, when there is one; else a name not
  yet in the directory: \<open>HH-MM-SS[-diarized].json\<close> when that is free, otherwise that
  name with the least free counter from 1 appended. When the text is empty, nothing is
  published: the curator tree, \<open>_pending\<close> and the markers are unchanged, and the job is
  left with status \<open>complete\<close>, without \<open>curatorPath\<close> and \<open>stages.curator_synced\<close>.
\<close>

theorem new_complete_transcript_publication:
  assumes "\<not> startswith name ''.''" "\<not> contains name ''.error.''"
    and "get_transcript_data st (path_stem name) = Some data"
    and "jobs st (path_stem name) = None"
    and "determine_status data = ''complete''"
    and "markers st (path_stem name) = None"
  shows "(full_text data \<noteq> '''' \<longrightarrow>
           (\<exists>e. job_of (reconcile env name st) (path_stem name) = Some e \<and>
              j_status e = ''curator_synced'' \<and>
              j_curatorPath e = Some (date_dir_of env data @ ''/'' @ out_file_for env data st) \<and>
              sg_curator_synced (j_stages e) = Some (oe_now_iso env)) \<and>
           markers (reconcile env name st) (path_stem name) = Some (oe_time env) \<and>
           map_of (curator (reconcile env name st) (date_dir_of env data)) (out_file_for env data st)
             = Some (Some (fst (convert_to_curator_format env data)))) \<and>
         (\<forall>f. same_audio_in env data True (curator st (date_dir_of env data)) = Some f
            \<longrightarrow> out_file_for env data st = fst f \<and> f \<in> set (curator st (date_dir_of env data))) \<and>
         (\<forall>f. same_audio_in env data True (curator st (date_dir_of env data)) = None \<and>
              same_audio_in env data False (pending st (date_dir_of env data)) = Some f
            \<longrightarrow> out_file_for env data st = fst f \<and> f \<in> set (pending st (date_dir_of env data))) \<and>
         (same_audio_in env data True (curator st (date_dir_of env data)) = None \<and>
          same_audio_in env data False (pending st (date_dir_of env data)) = None
            \<longrightarrow> out_file_for env data st \<notin> fst ` set (curator st (date_dir_of env data)) \<and>
                (base_name env data @ ''.json'' \<notin> fst ` set (curator st (date_dir_of env data))
                   \<longrightarrow> out_file_for env data st = base_name env data @ ''.json'') \<and>
                (base_name env data @ ''.json'' \<in> fst ` set (curator st (date_dir_of env data))
                   \<longrightarrow> (\<exists>k\<ge>1. out_file_for env data st = numbered (base_name env data) k \<and>
                         (\<forall>j. 1 \<le> j \<and> j < k \<longrightarrow> numbered (base_name env data) j
                                \<in> fst ` set (curator st (date_dir_of env data)))))) \<and>
         (full_text data = '''' \<longrightarrow>
           (\<exists>e. job_of (reconcile env name st) (path_stem name) = Some e \<and>
              j_status e = ''complete'' \<and> j_curatorPath e = None \<and>
              sg_curator_synced (j_stages e) = None) \<and>
           markers (reconcile env name st) = markers st \<and>
           curator (reconcile env name st) = curator st \<and>
           pending (reconcile env name st) = pending st)"
proof -
  note p = reconcile_publishes [OF assms, of env]
  note q = reconcile_without_text [OF assms, of env]
  note n = out_file_for_name [of env data st]
  from p have a: "full_text data \<noteq> '''' \<longrightarrow>
           (\<exists>e. job_of (reconcile env name st) (path_stem name) = Some e \<and>
              j_status e = ''curator_synced'' \<and>
              j_curatorPath e = Some (date_dir_of env data @ ''/'' @ out_file_for env data st) \<and>
              sg_curator_synced (j_stages e) = Some (oe_now_iso env)) \<and>
           markers (reconcile env name st) (path_stem name) = Some (oe_time env) \<and>
           map_of (curator (reconcile env name st) (date_dir_of env data)) (out_file_for env data st)
             = Some (Some (fst (convert_to_curator_format env data)))"
    by (rule impI)
  from q have b: "full_text data = '''' \<longrightarrow>
           (\<exists>e. job_of (reconcile env name st) (path_stem name) = Some e \<and>
              j_status e = ''complete'' \<and> j_curatorPath e = None \<and>
              sg_curator_synced (j_stages e) = None) \<and>
           markers (reconcile env name st) = markers st \<and>
           curator (reconcile env name st) = curator st \<and>
           pending (reconcile env name st) = pending st"
    by (rule impI)
  note n1 = n [THEN conjunct1]
  note n2 = n [THEN conjunct2, THEN conjunct1]
  note n3 = n [THEN conjunct2, THEN conjunct2]
  show ?thesis by (rule conjI [OF a conjI [OF n1 conjI [OF n2 conjI [OF n3 b]]]])
qed

theorem new_complete_transcript_publication_witness:
  "get_transcript_data (transcript_written identified_clip empty_orch) (path_stem ''a.json'')
     = Some identified_clip \<and>
   jobs (transcript_written identified_clip empty_orch) (path_stem ''a.json'') = None \<and>
   determine_status identified_clip = ''complete'' \<and>
   markers (transcript_written identified_clip empty_orch) (path_stem ''a.json'') = None \<and>
   map_option j_status
       (job_of (reconcile cycle_env ''a.json'' (transcript_written identified_clip empty_orch)) ''a'')
     = Some ''curator_synced'' \<and>
   map_option j_curatorPath
       (job_of (reconcile cycle_env ''a.json'' (transcript_written identified_clip empty_orch)) ''a'')
     = Some (Some ''2024/01/01/12-00-00-diarized.json'') \<and>
   markers (reconcile cycle_env ''a.json'' (transcript_written identified_clip empty_orch)) ''a''
     = Some 1000 \<and>
   map_of (curator (reconcile cycle_env ''a.json'' (transcript_written identified_clip empty_orch))
             ''2024/01/01'') ''12-00-00-diarized.json''
     = Some (Some (fst (convert_to_curator_format cycle_env identified_clip)))"
proof -
  let ?st = "transcript_written identified_clip empty_orch"
  have stem: "path_stem ''a.json'' = ''a''" by (simp add: path_stem_def rfind_dot_def upt_rec)
  have h1: "\<not> startswith ''a.json'' ''.''" by (simp add: startswith_def)
  have h2: "\<not> contains ''a.json'' ''.error.''" by (simp add: startswith_def)
  have h3: "get_transcript_data ?st (path_stem ''a.json'') = Some identified_clip"
    by (simp add: stem get_transcript_data_def transcript_written_def)
  have h4: "jobs ?st (path_stem ''a.json'') = None"
    by (simp add: transcript_written_def empty_orch_def)
  have h5: "determine_status identified_clip = ''complete''"
    by (simp add: orch_eval identified_clip_def)
  have h6: "markers ?st (path_stem ''a.json'') = None"
    by (simp add: transcript_written_def empty_orch_def)
  have h7: "full_text identified_clip \<noteq> ''''"
    by (simp add: orch_eval identified_clip_def)
  have ts: "parse_timestamp cycle_env identified_clip = noon"
    by (simp add: parse_timestamp_def truthy_def identified_clip_def cycle_env_def)
  have d: "date_dir_of cycle_env identified_clip = ''2024/01/01''"
    by (simp add: date_dir_of_def ts noon_def)
  have dia: "t_diarization identified_clip" by (simp add: identified_clip_def)
  have b: "base_name cycle_env identified_clip = ''12-00-00-diarized''"
    by (simp add: base_name_def ts noon_def dia)
  have c: "curator ?st ''2024/01/01'' = []" "pending ?st ''2024/01/01'' = []"
    by (simp_all add: transcript_written_def empty_orch_def)
  have n: "same_audio_in cycle_env identified_clip True [] = None"
    "same_audio_in cycle_env identified_clip False [] = None"
    by (simp_all add: same_audio_in_def)
  have now: "oe_time cycle_env = 1000" by (simp add: cycle_env_def)
  note t = new_complete_transcript_publication [OF h1 h2 h3 h4 h5 h6, of cycle_env]
  from t n c d b have o: "out_file_for cycle_env identified_clip ?st = ''12-00-00-diarized.json''"
    by simp
  from t h7 o d stem now have
    "map_option j_status (job_of (reconcile cycle_env ''a.json'' ?st) ''a'') = Some ''curator_synced''"
    "map_option j_curatorPath (job_of (reconcile cycle_env ''a.json'' ?st) ''a'')
       = Some (Some ''2024/01/01/12-00-00-diarized.json'')"
    "markers (reconcile cycle_env ''a.json'' ?st) ''a'' = Some 1000"
    "map_of (curator (reconcile cycle_env ''a.json'' ?st) ''2024/01/01'') ''12-00-00-diarized.json''
       = Some (Some (fst (convert_to_curator_format cycle_env identified_clip)))"
    by auto
  with h3 h4 h5 h6 show ?thesis by simp
qed

text \<open>A clip whose only text is a no-break space has an empty text after
  \<open>strip()\<close>, and is not published either.\<close>

definition no_break_space_clip :: transcript where
  "no_break_space_clip =
     identified_clip\<lparr>t_segments := [(seg [CHR 0xA0] 0 30)\<lparr>seg_speaker_name := Some ''fred''\<rparr>]\<rparr>"

lemma no_break_space_clip_not_published:
  "full_text no_break_space_clip = '''' \<and>
   map_option j_status
       (job_of (scan_once cycle_env (transcript_written no_break_space_clip empty_orch)) ''a'')
     = Some ''complete'' \<and>
   markers (scan_once cycle_env (transcript_written no_break_space_clip empty_orch)) ''a'' = None \<and>
   curator (scan_once cycle_env (transcript_written no_break_space_clip empty_orch)) ''2024/01/01'' = []"
  by (simp add: orch_eval empty_orch_def cycle_env_def transcript_written_def
      no_break_space_clip_def identified_clip_def)

subsection \<open>The audio of a clip during a cycle\<close>

lemma rfind_dot_wav: "rfind_dot (s @ ''.wav'') = Some (length s)"
proof -
  have "[0..<length (s @ ''.wav'')]
      = [0..<length s] @ [length s, length s + 1, length s + 2, length s + 3]"
    by (simp add: upt_rec [of "length s"] upt_rec [of "Suc (length s)"]
        upt_rec [of "Suc (Suc (length s))"] upt_rec [of "Suc (Suc (Suc (length s)))"]
        upt_add_eq_append [of 0 "length s" 4, simplified])
  then show ?thesis
    by (simp add: rfind_dot_def nth_append)
qed

lemma path_stem_wav: "s \<noteq> [] \<Longrightarrow> path_stem (s @ ''.wav'') = s"
  by (simp add: path_stem_def rfind_dot_wav)

lemma path_stem_nonempty: "name \<noteq> [] \<Longrightarrow> path_stem name \<noteq> []"
  by (auto simp: path_stem_def split: option.splits)

lemma endswith_wav: "endswith (s @ ''.wav'') ''.wav''"
  by (simp add: endswith_def)

lemma endswith_nonempty: "endswith n ''.json'' \<Longrightarrow> n \<noteq> []"
  by (auto simp: endswith_def)

lemma discover_one_frame:
  "inbox (discover_one env n st) = inbox st \<and> playback (discover_one env n st) = playback st \<and>
   done_dir (discover_one env n st) = done_dir st \<and> markers (discover_one env n st) = markers st \<and>
   curator (discover_one env n st) = curator st \<and> pending (discover_one env n st) = pending st \<and>
   jobs (discover_one env n st) (path_stem n) \<noteq> None \<and>
   (\<forall>s. jobs st s \<noteq> None \<longrightarrow> jobs (discover_one env n st) s \<noteq> None)"
  by (simp add: discover_one_def Let_def)

lemma fold_discover_one:
  "inbox (fold (discover_one env) ns st) = inbox st \<and>
   playback (fold (discover_one env) ns st) = playback st \<and>
   done_dir (fold (discover_one env) ns st) = done_dir st \<and>
   markers (fold (discover_one env) ns st) = markers st \<and>
   curator (fold (discover_one env) ns st) = curator st \<and>
   pending (fold (discover_one env) ns st) = pending st \<and>
   (\<forall>n \<in> set ns. jobs (fold (discover_one env) ns st) (path_stem n) \<noteq> None) \<and>
   (\<forall>s. jobs st s \<noteq> None \<longrightarrow> jobs (fold (discover_one env) ns st) s \<noteq> None)"
proof (induction ns arbitrary: st)
  case Nil
  show ?case by simp
next
  case (Cons n ns)
  note f = discover_one_frame [of env n st]
  note ih = Cons.IH [of "discover_one env n st"]
  from f ih show ?case by simp
qed

lemma move_audio_absent:
  "stem @ ''.wav'' \<notin> fst ` set (inbox st) \<Longrightarrow> move_audio env stem data old r st = st"
  by (simp add: move_audio_def Let_def)

lemma curator_gate_frame:
  "inbox (curator_gate env stem data r st) = inbox st \<and>
   playback (curator_gate env stem data r st) = playback st \<and>
   done_dir (curator_gate env stem data r st) = done_dir st \<and>
   jobs (curator_gate env stem data r st) = jobs st"
  by (simp add: curator_gate_def sync_to_curator_def set_entry_def Let_def
      split: prod.splits option.splits)

text \<open>
  After the discovery step every WAV of the inbox has a job entry. The loop body for a
  transcript then leaves inbox/ and playback/ as they are: with a job entry for the stem
  it only updates the entry; without one, the clip has no WAV in the inbox to move.
\<close>

lemma reconcile_keeps_audio:
  assumes "name \<noteq> []"
    and "\<forall>n \<in> fst ` set (inbox st). endswith n ''.wav'' \<longrightarrow> jobs st (path_stem n) \<noteq> None"
  shows "inbox (reconcile env name st) = inbox st \<and> playback (reconcile env name st) = playback st \<and>
         done_dir (reconcile env name st) = done_dir st \<and>
         (\<forall>s. jobs st s \<noteq> None \<longrightarrow> jobs (reconcile env name st) s \<noteq> None)"
proof (cases "jobs st (path_stem name)")
  case (Some r)
  from reconcile_existing_job [OF Some, of env] show ?thesis by auto
next
  case None
  show ?thesis
  proof (cases "startswith name ''.'' \<or> contains name ''.error.''")
    case True
    then show ?thesis by (simp add: reconcile_def)
  next
    case False
    show ?thesis
    proof (cases "get_transcript_data st (path_stem name)")
      case n: None
      with False show ?thesis by (simp add: reconcile_def)
    next
      case (Some data)
      let ?stem = "path_stem name"
      let ?st0 = "st\<lparr>heap := (heap st)(next_ref st :=
                     update_entry env st ?stem data (fresh_entry env ?stem data)),
                 next_ref := next_ref st + 1\<rparr>"
      let ?st1 = "?st0\<lparr>jobs := (jobs ?st0)(?stem := Some (next_ref st)), changed := True\<rparr>"
      from False Some None have rec: "reconcile env name st
          = curator_gate env ?stem data (next_ref st) (move_audio env ?stem data None (next_ref st) ?st1)"
        using reconcile_new_job [of name st data env] by (simp add: act_def)
      have "?stem @ ''.wav'' \<notin> fst ` set (inbox st)"
      proof
        assume "?stem @ ''.wav'' \<in> fst ` set (inbox st)"
        with assms(2) endswith_wav have "jobs st (path_stem (?stem @ ''.wav'')) \<noteq> None" by blast
        with path_stem_wav [OF path_stem_nonempty [OF assms(1)]] None show False by simp
      qed
      then have "move_audio env ?stem data None (next_ref st) ?st1 = ?st1"
        by (intro move_audio_absent) simp
      with rec curator_gate_frame [of env ?stem data "next_ref st" ?st1] show ?thesis by simp
    qed
  qed
qed

lemma fold_reconcile_keeps_audio:
  assumes "\<forall>n \<in> set ns. n \<noteq> []"
    and "\<forall>n \<in> fst ` set (inbox st). endswith n ''.wav'' \<longrightarrow> jobs st (path_stem n) \<noteq> None"
  shows "inbox (fold (reconcile env) ns st) = inbox st \<and>
         playback (fold (reconcile env) ns st) = playback st \<and>
         done_dir (fold (reconcile env) ns st) = done_dir st"
  using assms
proof (induction ns arbitrary: st)
  case Nil
  show ?case by simp
next
  case (Cons n ns)
  from Cons.prems have n: "n \<noteq> []" and ns: "\<forall>n \<in> set ns. n \<noteq> []" by simp_all
  note k = reconcile_keeps_audio [OF n Cons.prems(2), of env]
  from k Cons.prems(2)
  have "\<forall>m \<in> fst ` set (inbox (reconcile env n st)). endswith m ''.wav''
          \<longrightarrow> jobs (reconcile env n st) (path_stem m) \<noteq> None"
    by simp
  from Cons.IH [OF ns this] k show ?case by simp
qed

lemma orphan_one_frame:
  "playback (orphan_one env w st) = playback st"
  "done_dir (orphan_one env w st) = done_dir st"
  "set (inbox (orphan_one env w st)) \<subseteq> set (inbox st)"
  "v \<in> set (inbox st) \<Longrightarrow> map_of (done_dir st) (path_stem (fst v) @ ''.json'') \<noteq> None
     \<Longrightarrow> v \<in> set (inbox (orphan_one env w st))"
  by (auto simp: orphan_one_def Let_def set_entry_def split: option.splits)

lemma fold_orphan_one_frame:
  "playback (fold (orphan_one env) ws st) = playback st \<and>
   done_dir (fold (orphan_one env) ws st) = done_dir st \<and>
   set (inbox (fold (orphan_one env) ws st)) \<subseteq> set (inbox st)"
proof (induction ws arbitrary: st)
  case Nil
  show ?case by simp
next
  case (Cons w ws)
  from Cons.IH [of "orphan_one env w st"] orphan_one_frame(3) [of env w st]
  show ?case by (simp add: orphan_one_frame(1,2)) blast
qed

lemma fold_orphan_one_keeps:
  "v \<in> set (inbox st) \<Longrightarrow> map_of (done_dir st) (path_stem (fst v) @ ''.json'') \<noteq> None
     \<Longrightarrow> v \<in> set (inbox (fold (orphan_one env) ws st))"
proof (induction ws arbitrary: st)
  case Nil
  then show ?case by simp
next
  case (Cons w ws)
  from Cons.prems have "v \<in> set (inbox (orphan_one env w st))"
    by (rule orphan_one_frame(4))
  moreover from Cons.prems(2)
  have "map_of (done_dir (orphan_one env w st)) (path_stem (fst v) @ ''.json'') \<noteq> None"
    by (simp add: orphan_one_frame(2))
  ultimately have "v \<in> set (inbox (fold (orphan_one env) ws (orphan_one env w st)))"
    by (rule Cons.IH)
  then show ?case by simp
qed

text \<open>
  C2. A cycle never puts a file into playback/, and it removes from the inbox only WAVs
  that have no transcript in done/ (the orphan cleanup): the WAV of a clip whose
  transcript has been written stays in the inbox, whatever the clip's status becomes in
  that cycle and whatever the duration of the transcript. The move to playback/ and the
  deletion of short clips in the loop body are reached only for a stem without a job
  entry, and at that point no WAV of that stem is in the inbox, since the discovery
  step has given every WAV of the inbox a job entry.
\<close>

theorem scan_once_keeps_transcribed_audio:
  "playback (scan_once env st) = playback st \<and>
   set (inbox (scan_once env st)) \<subseteq> set (inbox st) \<and>
   (\<forall>w \<in> set (inbox st). map_of (done_dir st) (path_stem (fst w) @ ''.json'') \<noteq> None
        \<longrightarrow> w \<in> set (inbox (scan_once env st)))"
proof -
  define st1 where "st1 = fold (discover_one env)
      (filter (\<lambda>n. endswith n ''.wav'') (map fst (inbox st))) (st\<lparr>changed := False\<rparr>)"
  define st2 where "st2 = fold (reconcile env)
      (filter (\<lambda>n. endswith n ''.json'') (map fst (done_dir st1))) st1"
  define ws where "ws = filter (\<lambda>f. endswith (fst f) ''.wav'') (inbox st2)"
  have s: "scan_once env st = fold (orphan_one env) ws st2"
    by (simp add: scan_once_def Let_def st1_def st2_def ws_def)
  note d = fold_discover_one [of env "filter (\<lambda>n. endswith n ''.wav'') (map fst (inbox st))"
      "st\<lparr>changed := False\<rparr>", folded st1_def]
  from d have d1: "inbox st1 = inbox st" "playback st1 = playback st" "done_dir st1 = done_dir st"
    by simp_all
  have i1: "jobs st1 (path_stem n) \<noteq> None" if "n \<in> fst ` set (inbox st1)" "endswith n ''.wav''" for n
  proof -
    from that d1 have "n \<in> set (filter (\<lambda>n. endswith n ''.wav'') (map fst (inbox st)))" by simp
    with d show ?thesis by blast
  qed
  then have i1': "\<forall>n \<in> fst ` set (inbox st1). endswith n ''.wav'' \<longrightarrow> jobs st1 (path_stem n) \<noteq> None"
    by blast
  have ne: "\<forall>n \<in> set (filter (\<lambda>n. endswith n ''.json'') (map fst (done_dir st1))). n \<noteq> []"
    by (auto dest: endswith_nonempty)
  note r = fold_reconcile_keeps_audio [OF ne i1', of env, folded st2_def]
  from r d1 have eq: "inbox st2 = inbox st" "playback st2 = playback st" "done_dir st2 = done_dir st"
    by simp_all
  note p = fold_orphan_one_frame [of env ws st2]
  have k: "w \<in> set (inbox (fold (orphan_one env) ws st2))"
    if "w \<in> set (inbox st)" "map_of (done_dir st) (path_stem (fst w) @ ''.json'') \<noteq> None" for w
    using that fold_orphan_one_keeps [of w st2 env ws] by (simp add: eq)
  from p have "playback (scan_once env st) = playback st"
    "set (inbox (scan_once env st)) \<subseteq> set (inbox st)"
    by (simp_all add: s eq)
  moreover from k have "\<forall>w \<in> set (inbox st). map_of (done_dir st) (path_stem (fst w) @ ''.json'') \<noteq> None
        \<longrightarrow> w \<in> set (inbox (scan_once env st))"
    by (simp add: s)
  ultimately show ?thesis by simp
qed
theorem scan_once_keeps_transcribed_audio_witness:
  "map_option j_status (job_of (scan_once cycle_env wav_arrived) ''a'') = Some ''queued'' \<and>
   map_option j_status (job_of (scan_once cycle_env
       (transcript_written identified_clip (scan_once cycle_env wav_arrived))) ''a'') = Some ''complete'' \<and>
   get_duration identified_clip = 30 \<and> oe_min_playback_duration cycle_env = 10 \<and>
   (''a.wav'', 900) \<in> set (inbox (scan_once cycle_env
       (transcript_written identified_clip (scan_once cycle_env wav_arrived)))) \<and>
   playback (scan_once cycle_env
       (transcript_written identified_clip (scan_once cycle_env wav_arrived))) = {}"
proof -
  let ?st = "transcript_written identified_clip (scan_once cycle_env wav_arrived)"
  have i: "inbox ?st = [(''a.wav'', 900)]"
    using first_cycle_queues by (simp add: transcript_written_def)
  have p: "playback ?st = {}"
    by (simp add: orch_eval wav_arrived_def empty_orch_def cycle_env_def transcript_written_def)
  have t: "map_of (done_dir ?st) (path_stem ''a.wav'' @ ''.json'') \<noteq> None"
    by (simp add: transcript_written_def path_stem_def rfind_dot_def upt_rec)
  have q: "map_option j_status (job_of (scan_once cycle_env wav_arrived) ''a'') = Some ''queued''"
    using first_cycle_queues by (simp add: queued_entry_def)
  have d: "get_duration identified_clip = 30" "oe_min_playback_duration cycle_env = 10"
    by (simp_all add: get_duration_def identified_clip_def cycle_env_def)
  from scan_once_keeps_transcribed_audio [of cycle_env ?st] i p t
  have "(''a.wav'', 900) \<in> set (inbox (scan_once cycle_env ?st))"
    "playback (scan_once cycle_env ?st) = {}"
    by auto
  with q d second_cycle_existing_job show ?thesis by simp
qed

subsection \<open>A transcript rewritten after its publication\<close>

lemma curator_gate_marked:
  "markers st stem \<noteq> None \<Longrightarrow>
   curator (curator_gate env stem data r st) = curator st \<and>
   pending (curator_gate env stem data r st) = pending st \<and>
   markers (curator_gate env stem data r st) = markers st"
  by (auto simp: curator_gate_def set_entry_def)

lemma curator_gate_markers_other:
  "s \<noteq> stem \<Longrightarrow> markers (curator_gate env stem data r st) s = markers st s"
  by (simp add: curator_gate_def sync_to_curator_def set_entry_def Let_def
      split: prod.splits option.splits)

lemma reconcile_marked:
  assumes "markers st (path_stem name) = Some m"
  shows "curator (reconcile env name st) = curator st \<and>
         pending (reconcile env name st) = pending st \<and>
         markers (reconcile env name st) = markers st"
proof (cases "jobs st (path_stem name)")
  case (Some r)
  from reconcile_existing_job_inert [OF Some, of env] show ?thesis by simp
next
  case None
  show ?thesis
  proof (cases "startswith name ''.'' \<or> contains name ''.error.''")
    case True
    then show ?thesis by (simp add: reconcile_def)
  next
    case False
    show ?thesis
    proof (cases "get_transcript_data st (path_stem name)")
      case n: None
      with False show ?thesis by (simp add: reconcile_def)
    next
      case (Some data)
      let ?stem = "path_stem name"
      let ?st0 = "st\<lparr>heap := (heap st)(next_ref st :=
                     update_entry env st ?stem data (fresh_entry env ?stem data)),
                 next_ref := next_ref st + 1\<rparr>"
      let ?st1 = "?st0\<lparr>jobs := (jobs ?st0)(?stem := Some (next_ref st)), changed := True\<rparr>"
      let ?st2 = "move_audio env ?stem data None (next_ref st) ?st1"
      from False Some None have rec: "reconcile env name st
          = curator_gate env ?stem data (next_ref st) ?st2"
        using reconcile_new_job [of name st data env] by (simp add: act_def)
      note mv = move_audio_frame [of env ?stem data None "next_ref st" ?st1]
      from mv assms have "markers ?st2 ?stem \<noteq> None" by simp
      from curator_gate_marked [OF this, of env data "next_ref st"] mv show ?thesis
        by (simp add: rec)
    qed
  qed
qed

lemma reconcile_markers_other:
  assumes "s \<noteq> path_stem name"
  shows "markers (reconcile env name st) s = markers st s"
proof (cases "jobs st (path_stem name)")
  case (Some r)
  from reconcile_existing_job_inert [OF Some, of env] show ?thesis by simp
next
  case None
  show ?thesis
  proof (cases "startswith name ''.'' \<or> contains name ''.error.''")
    case True
    then show ?thesis by (simp add: reconcile_def)
  next
    case False
    show ?thesis
    proof (cases "get_transcript_data st (path_stem name)")
      case n: None
      with False show ?thesis by (simp add: reconcile_def)
    next
      case (Some data)
      let ?stem = "path_stem name"
      let ?st0 = "st\<lparr>heap := (heap st)(next_ref st :=
                     update_entry env st ?stem data (fresh_entry env ?stem data)),
                 next_ref := next_ref st + 1\<rparr>"
      let ?st1 = "?st0\<lparr>jobs := (jobs ?st0)(?stem := Some (next_ref st)), changed := True\<rparr>"
      let ?st2 = "move_audio env ?stem data None (next_ref st) ?st1"
      from False Some None have rec: "reconcile env name st
          = curator_gate env ?stem data (next_ref st) ?st2"
        using reconcile_new_job [of name st data env] by (simp add: act_def)
      note mv = move_audio_frame [of env ?stem data None "next_ref st" ?st1]
      from curator_gate_markers_other [OF assms, of env data "next_ref st" ?st2] mv show ?thesis
        by (simp add: rec)
    qed
  qed
qed

lemma reconcile_marker_kept:
  "markers st s = Some m \<Longrightarrow> markers (reconcile env name st) s = Some m"
  using reconcile_marked [of st name m env] reconcile_markers_other [of s name env st]
  by (cases "s = path_stem name") simp_all

lemma fold_reconcile_marker_kept:
  "markers st s = Some m \<Longrightarrow> markers (fold (reconcile env) ns st) s = Some m"
proof (induction ns arbitrary: st)
  case Nil
  then show ?case by simp
next
  case (Cons n ns)
  from Cons.prems have "markers (reconcile env n st) s = Some m" by (rule reconcile_marker_kept)
  then have "markers (fold (reconcile env) ns (reconcile env n st)) s = Some m" by (rule Cons.IH)
  then show ?case by simp
qed

lemma orphan_one_markers: "markers (orphan_one env w st) = markers st"
  by (simp add: orphan_one_def Let_def set_entry_def split: option.splits)

lemma fold_orphan_one_markers: "markers (fold (orphan_one env) ws st) = markers st"
  by (induction ws arbitrary: st) (simp_all add: orphan_one_markers)

lemma scan_once_marker_kept:
  assumes "markers st s = Some m"
  shows "markers (scan_once env st) s = Some m"
proof -
  define st1 where "st1 = fold (discover_one env)
      (filter (\<lambda>n. endswith n ''.wav'') (map fst (inbox st))) (st\<lparr>changed := False\<rparr>)"
  define st2 where "st2 = fold (reconcile env)
      (filter (\<lambda>n. endswith n ''.json'') (map fst (done_dir st1))) st1"
  define ws where "ws = filter (\<lambda>f. endswith (fst f) ''.wav'') (inbox st2)"
  have s: "scan_once env st = fold (orphan_one env) ws st2"
    by (simp add: scan_once_def Let_def st1_def st2_def ws_def)
  from fold_discover_one [of env "filter (\<lambda>n. endswith n ''.wav'') (map fst (inbox st))"
      "st\<lparr>changed := False\<rparr>", folded st1_def]
  have "markers st1 = markers st" by simp
  with assms have "markers st1 s = Some m" by simp
  then have "markers st2 s = Some m" unfolding st2_def by (rule fold_reconcile_marker_kept)
  then show ?thesis by (simp add: s fold_orphan_one_markers)
qed

text \<open>The clip of the happy path published by a cycle, and its transcript rewritten
  later with another speaker name: the transcript is then newer than the marker.\<close>

definition published :: orch where
  "published = scan_once cycle_env (transcript_written identified_clip empty_orch)"

definition relabelled_clip :: transcript where
  "relabelled_clip =
     identified_clip\<lparr>t_segments := [(seg ''hello'' 0 30)\<lparr>seg_speaker_name := Some ''george''\<rparr>]\<rparr>"

definition rewritten :: "orch \<Rightarrow> orch" where
  "rewritten st = st\<lparr>done_dir := [(''a.json'', 2000, Some relabelled_clip)]\<rparr>"

definition later_env :: orch_env where
  "later_env = cycle_env\<lparr>oe_time := 3000\<rparr>"

definition mtime_of :: "orch \<Rightarrow> string \<Rightarrow> real option" where
  "mtime_of st name = map_option fst (map_of (done_dir st) name)"

definition published_doc :: "orch \<Rightarrow> curator_doc option option" where
  "published_doc st = map_of (curator st ''2024/01/01'') ''12-00-00-diarized.json''"

lemma published_state:
  "map_option j_status (job_of published ''a'') = Some ''curator_synced'' \<and>
   markers published ''a'' = Some 1000 \<and>
   published_doc published = Some (Some (fst (convert_to_curator_format cycle_env identified_clip)))"
  by (simp add: published_def published_doc_def orch_eval empty_orch_def cycle_env_def
      transcript_written_def identified_clip_def noon_def)

lemma published_listing:
  "curator published ''2024/01/01''
     = [(''12-00-00-diarized.json'', Some (fst (convert_to_curator_format cycle_env identified_clip)))] \<and>
   pending published ''2024/01/01'' = [] \<and>
   cd_audioPath (fst (convert_to_curator_format cycle_env identified_clip)) = Some ''a.wav''"
  by (simp add: published_def orch_eval empty_orch_def cycle_env_def
      transcript_written_def identified_clip_def noon_def)

text \<open>The loop body on a transcript that has no job entry and whose marker exists: the
  entry created has the derived status, with \<open>curator_synced\<close> in place of
  \<open>complete\<close>.\<close>

lemma reconcile_marked_new_job:
  assumes "\<not> startswith name ''.''" "\<not> contains name ''.error.''"
    and "get_transcript_data st (path_stem name) = Some data"
    and "jobs st (path_stem name) = None"
    and "markers st (path_stem name) = Some m"
  shows "map_option j_status (job_of (reconcile env name st) (path_stem name))
           = Some (if determine_status data = ''complete'' then ''curator_synced''
                   else determine_status data)"
proof -
  let ?stem = "path_stem name"
  let ?r = "next_ref st"
  let ?st0 = "st\<lparr>heap := (heap st)(?r := update_entry env st ?stem data (fresh_entry env ?stem data)),
                 next_ref := ?r + 1\<rparr>"
  let ?st1 = "?st0\<lparr>jobs := (jobs ?st0)(?stem := Some ?r), changed := True\<rparr>"
  let ?st2 = "move_audio env ?stem data None ?r ?st1"
  have rec: "reconcile env name st = curator_gate env ?stem data ?r ?st2"
    using reconcile_new_job [OF assms(1-4), of env] by (simp add: act_def)
  note mv = move_audio_frame [of env ?stem data None ?r ?st1]
  from mv have s2: "j_status (heap ?st2 ?r) = determine_status data" by simp
  from mv assms(5) have m2: "markers ?st2 ?stem = Some m" by simp
  from mv have j2: "jobs ?st2 ?stem = Some ?r" by simp
  from curator_gate_frame [of env ?stem data ?r ?st2] j2
  have "job_of (reconcile env name st) ?stem = Some (heap (curator_gate env ?stem data ?r ?st2) ?r)"
    unfolding rec by (simp add: job_of_def)
  moreover from s2 m2 have "j_status (heap (curator_gate env ?stem data ?r ?st2) ?r)
      = (if determine_status data = ''complete'' then ''curator_synced'' else determine_status data)"
    by (simp add: curator_gate_def set_entry_def)
  ultimately show ?thesis by simp
qed

lemma relabelled_differs:
  "cd_utterances (fst (convert_to_curator_format later_env relabelled_clip))
     \<noteq> cd_utterances (fst (convert_to_curator_format cycle_env identified_clip))"
  by (simp add: convert_to_curator_format_def Let_def utterance_of_def relabelled_clip_def
      identified_clip_def seg_def truthy_def get_str_def py_strip_def is_space_def is_space_code_def)

text \<open>
  C4 (as stated, refuted). A clip was published by a cycle (status \<open>curator_synced\<close>,
  marker of time 1000); its transcript is then rewritten with another speaker name, at
  time 2000, so that the transcript is newer than the marker. The next cycle does not
  republish: the marker keeps its time and the curator tree still holds the document of
  the first publication, which differs from the one the rewritten transcript converts
  to. The same holds when the manifest has lost the job entry.
\<close>

theorem newer_transcript_not_republished_counterexample:
  "map_option j_status (job_of (rewritten published) ''a'') = Some ''curator_synced'' \<and>
   markers (rewritten published) ''a'' = Some 1000 \<and>
   mtime_of (rewritten published) ''a.json'' = Some 2000 \<and>
   markers (scan_once later_env (rewritten published)) ''a'' = Some 1000 \<and>
   published_doc (scan_once later_env (rewritten published))
     = Some (Some (fst (convert_to_curator_format cycle_env identified_clip))) \<and>
   markers (scan_once later_env (rewritten (published\<lparr>jobs := (\<lambda>s. None)\<rparr>))) ''a'' = Some 1000 \<and>
   published_doc (scan_once later_env (rewritten (published\<lparr>jobs := (\<lambda>s. None)\<rparr>)))
     = Some (Some (fst (convert_to_curator_format cycle_env identified_clip))) \<and>
   cd_utterances (fst (convert_to_curator_format later_env relabelled_clip))
     \<noteq> cd_utterances (fst (convert_to_curator_format cycle_env identified_clip))"
  by (simp add: relabelled_differs)
     (simp add: published_def published_doc_def rewritten_def later_env_def mtime_of_def
      relabelled_clip_def orch_eval empty_orch_def cycle_env_def
      transcript_written_def identified_clip_def noon_def)

text \<open>
  C4 (amended). The orchestrator compares no modification times: the marker counts by
  its existence alone. In the step of the scan cycle for a transcript: when the synced
  marker of the transcript exists, nothing is published, whatever the modification
  times of the transcript and of the marker: the curator tree, the \<open>_pending\<close> tree and
  the markers are unchanged, and a whole cycle leaves that marker as it is; a job
  entry created in that step gets the status \<open>curator_synced\<close> when the derived status
  is \<open>complete\<close>, and the derived status otherwise. When the synced marker is absent,
  the transcript has no job entry, its derived status is \<open>complete\<close> and its text is
  not empty, the transcript is published again: the converted transcript is written in
  the date directory of its time stamp, over the file there that holds the same audio
  when there is one; the marker is created and the job has status \<open>curator_synced\<close>.
\<close>

theorem marker_alone_decides_republication:
  "(markers st (path_stem name) = Some m \<longrightarrow>
      curator (reconcile env name st) = curator st \<and>
      pending (reconcile env name st) = pending st \<and>
      markers (reconcile env name st) = markers st \<and>
      markers (scan_once env st) (path_stem name) = Some m) \<and>
   (markers st (path_stem name) = Some m \<and>
    \<not> startswith name ''.'' \<and> \<not> contains name ''.error.'' \<and>
    get_transcript_data st (path_stem name) = Some data \<and> jobs st (path_stem name) = None \<longrightarrow>
      map_option j_status (job_of (reconcile env name st) (path_stem name))
        = Some (if determine_status data = ''complete'' then ''curator_synced''
                else determine_status data)) \<and>
   (markers st (path_stem name) = None \<and>
    \<not> startswith name ''.'' \<and> \<not> contains name ''.error.'' \<and>
    get_transcript_data st (path_stem name) = Some data \<and> jobs st (path_stem name) = None \<and>
    determine_status data = ''complete'' \<and> full_text data \<noteq> '''' \<longrightarrow>
      (\<exists>e. job_of (reconcile env name st) (path_stem name) = Some e \<and>
         j_status e = ''curator_synced'' \<and>
         j_curatorPath e = Some (date_dir_of env data @ ''/'' @ out_file_for env data st) \<and>
         sg_curator_synced (j_stages e) = Some (oe_now_iso env)) \<and>
      markers (reconcile env name st) (path_stem name) = Some (oe_time env) \<and>
      map_of (curator (reconcile env name st) (date_dir_of env data)) (out_file_for env data st)
        = Some (Some (fst (convert_to_curator_format env data))) \<and>
      (\<forall>f. same_audio_in env data True (curator st (date_dir_of env data)) = Some f
         \<longrightarrow> out_file_for env data st = fst f \<and> f \<in> set (curator st (date_dir_of env data))))"
proof -
  have a: "markers st (path_stem name) = Some m \<longrightarrow>
      curator (reconcile env name st) = curator st \<and>
      pending (reconcile env name st) = pending st \<and>
      markers (reconcile env name st) = markers st \<and>
      markers (scan_once env st) (path_stem name) = Some m"
    using reconcile_marked [of st name m env] scan_once_marker_kept [of st "path_stem name" m env]
    by simp
  have b: "markers st (path_stem name) = Some m \<and>
    \<not> startswith name ''.'' \<and> \<not> contains name ''.error.'' \<and>
    get_transcript_data st (path_stem name) = Some data \<and> jobs st (path_stem name) = None \<longrightarrow>
      map_option j_status (job_of (reconcile env name st) (path_stem name))
        = Some (if determine_status data = ''complete'' then ''curator_synced''
                else determine_status data)"
    using reconcile_marked_new_job [of name st data m env] by blast
  have c: "markers st (path_stem name) = None \<and>
    \<not> startswith name ''.'' \<and> \<not> contains name ''.error.'' \<and>
    get_transcript_data st (path_stem name) = Some data \<and> jobs st (path_stem name) = None \<and>
    determine_status data = ''complete'' \<and> full_text data \<noteq> '''' \<longrightarrow>
      (\<exists>e. job_of (reconcile env name st) (path_stem name) = Some e \<and>
         j_status e = ''curator_synced'' \<and>
         j_curatorPath e = Some (date_dir_of env data @ ''/'' @ out_file_for env data st) \<and>
         sg_curator_synced (j_stages e) = Some (oe_now_iso env)) \<and>
      markers (reconcile env name st) (path_stem name) = Some (oe_time env) \<and>
      map_of (curator (reconcile env name st) (date_dir_of env data)) (out_file_for env data st)
        = Some (Some (fst (convert_to_curator_format env data))) \<and>
      (\<forall>f. same_audio_in env data True (curator st (date_dir_of env data)) = Some f
         \<longrightarrow> out_file_for env data st = fst f \<and> f \<in> set (curator st (date_dir_of env data)))"
  proof (intro impI, elim conjE)
    assume h: "\<not> startswith name ''.''" "\<not> contains name ''.error.''"
      "get_transcript_data st (path_stem name) = Some data" "jobs st (path_stem name) = None"
      "determine_status data = ''complete''" "markers st (path_stem name) = None"
      "full_text data \<noteq> ''''"
    note p = reconcile_publishes [OF h, of env]
    note n = out_file_for_name [of env data st, THEN conjunct1]
    from p n show "(\<exists>e. job_of (reconcile env name st) (path_stem name) = Some e \<and>
         j_status e = ''curator_synced'' \<and>
         j_curatorPath e = Some (date_dir_of env data @ ''/'' @ out_file_for env data st) \<and>
         sg_curator_synced (j_stages e) = Some (oe_now_iso env)) \<and>
      markers (reconcile env name st) (path_stem name) = Some (oe_time env) \<and>
      map_of (curator (reconcile env name st) (date_dir_of env data)) (out_file_for env data st)
        = Some (Some (fst (convert_to_curator_format env data))) \<and>
      (\<forall>f. same_audio_in env data True (curator st (date_dir_of env data)) = Some f
         \<longrightarrow> out_file_for env data st = fst f \<and> f \<in> set (curator st (date_dir_of env data)))"
      by (intro conjI) (erule conjunct1, erule conjunct2 [THEN conjunct1],
          erule conjunct2 [THEN conjunct2], assumption)
  qed
  show ?thesis by (rule conjI [OF a conjI [OF b c]])
qed

theorem marker_alone_decides_republication_witness:
  "markers (rewritten published) (path_stem ''a.json'') = Some 1000 \<and>
   mtime_of (rewritten published) ''a.json'' = Some 2000 \<and>
   published_doc (reconcile later_env ''a.json'' (rewritten published))
     = Some (Some (fst (convert_to_curator_format cycle_env identified_clip))) \<and>
   markers (scan_once later_env (rewritten published)) ''a'' = Some 1000 \<and>
   map_option j_status
       (job_of (reconcile later_env ''a.json'' (rewritten (published\<lparr>jobs := (\<lambda>s. None)\<rparr>))) ''a'')
     = Some ''curator_synced'' \<and>
   markers (rewritten (published\<lparr>jobs := (\<lambda>s. None), markers := (\<lambda>s. None)\<rparr>)) (path_stem ''a.json'')
     = None \<and>
   markers (reconcile later_env ''a.json''
       (rewritten (published\<lparr>jobs := (\<lambda>s. None), markers := (\<lambda>s. None)\<rparr>))) ''a'' = Some 3000 \<and>
   published_doc (reconcile later_env ''a.json''
       (rewritten (published\<lparr>jobs := (\<lambda>s. None), markers := (\<lambda>s. None)\<rparr>)))
     = Some (Some (fst (convert_to_curator_format later_env relabelled_clip)))"
proof -
  let ?a = "rewritten published"
  let ?b = "rewritten (published\<lparr>jobs := (\<lambda>s. None)\<rparr>)"
  let ?c = "rewritten (published\<lparr>jobs := (\<lambda>s. None), markers := (\<lambda>s. None)\<rparr>)"
  let ?old = "fst (convert_to_curator_format cycle_env identified_clip)"
  have stem: "path_stem ''a.json'' = ''a''" by (simp add: path_stem_def rfind_dot_def upt_rec)
  have h1: "\<not> startswith ''a.json'' ''.''" by (simp add: startswith_def)
  have h2: "\<not> contains ''a.json'' ''.error.''" by (simp add: startswith_def)
  have ma: "markers ?a (path_stem ''a.json'') = Some 1000"
    using published_state by (simp add: stem rewritten_def)
  have ta: "mtime_of ?a ''a.json'' = Some 2000"
    by (simp add: mtime_of_def rewritten_def)
  have ca: "published_doc ?a = Some (Some ?old)"
    using published_state by (simp add: published_doc_def rewritten_def)
  have mb: "markers ?b (path_stem ''a.json'') = Some 1000"
    using published_state by (simp add: stem rewritten_def)
  have db: "get_transcript_data ?b (path_stem ''a.json'') = Some relabelled_clip"
    by (simp add: stem get_transcript_data_def rewritten_def)
  have jb: "jobs ?b (path_stem ''a.json'') = None" by (simp add: rewritten_def)
  have mc: "markers ?c (path_stem ''a.json'') = None" by (simp add: rewritten_def)
  have dc: "get_transcript_data ?c (path_stem ''a.json'') = Some relabelled_clip"
    by (simp add: stem get_transcript_data_def rewritten_def)
  have jc: "jobs ?c (path_stem ''a.json'') = None" by (simp add: rewritten_def)
  have s: "determine_status relabelled_clip = ''complete''"
    by (simp add: orch_eval relabelled_clip_def identified_clip_def)
  have f: "full_text relabelled_clip \<noteq> ''''"
    by (simp add: orch_eval relabelled_clip_def identified_clip_def)
  have ts: "parse_timestamp later_env relabelled_clip = noon"
    by (simp add: parse_timestamp_def truthy_def relabelled_clip_def identified_clip_def
        later_env_def cycle_env_def)
  have d: "date_dir_of later_env relabelled_clip = ''2024/01/01''"
    by (simp add: date_dir_of_def ts noon_def)
  have fl: "get_str (t_file relabelled_clip) '''' = ''a.wav''"
    by (simp add: relabelled_clip_def identified_clip_def get_str_def)
  have cc: "curator ?c ''2024/01/01'' = [(''12-00-00-diarized.json'', Some ?old)]"
    using published_listing by (simp add: rewritten_def)
  have same: "same_audio_in later_env relabelled_clip True (curator ?c (date_dir_of later_env relabelled_clip))
      = Some (''12-00-00-diarized.json'', Some ?old)"
    using published_listing
    by (simp add: d cc same_audio_in_def ts noon_def fl same_audio_def glob_match_def
        startswith_def endswith_def)
  have now: "oe_time later_env = 3000" by (simp add: later_env_def)
  note t1 = marker_alone_decides_republication [of ?a "''a.json''" 1000 later_env relabelled_clip]
  note t2 = marker_alone_decides_republication [of ?b "''a.json''" 1000 later_env relabelled_clip]
  note t3 = marker_alone_decides_republication [of ?c "''a.json''" 1000 later_env relabelled_clip]
  from t1 ma ca have r1: "published_doc (reconcile later_env ''a.json'' ?a) = Some (Some ?old)"
    "markers (scan_once later_env ?a) ''a'' = Some 1000"
    by (simp_all add: published_doc_def stem)
  from t2 mb h1 h2 db jb s
  have r2: "map_option j_status (job_of (reconcile later_env ''a.json'' ?b) ''a'') = Some ''curator_synced''"
    by (simp add: stem)
  from t3 mc h1 h2 dc jc s f same
  have o: "out_file_for later_env relabelled_clip ?c = ''12-00-00-diarized.json''" by simp
  from t3 mc h1 h2 dc jc s f
  have "markers (reconcile later_env ''a.json'' ?c) (path_stem ''a.json'') = Some (oe_time later_env)"
    "map_of (curator (reconcile later_env ''a.json'' ?c) (date_dir_of later_env relabelled_clip))
        (out_file_for later_env relabelled_clip ?c)
      = Some (Some (fst (convert_to_curator_format later_env relabelled_clip)))"
    by simp_all
  then have r3: "markers (reconcile later_env ''a.json'' ?c) ''a'' = Some 3000"
    "published_doc (reconcile later_env ''a.json'' ?c)
      = Some (Some (fst (convert_to_curator_format later_env relabelled_clip)))"
    by (simp_all add: stem now o d published_doc_def)
  from ma ta mc r1 r2 r3 show ?thesis by simp
qed

end
